(* ===== verification/Prelude.thy ===== *)
theory Prelude
  imports Main "HOL-Library.Word" "HOL-Library.List_Lexorder"
begin

text \<open>
  What every component of the development shares: Python's strings, bytes and JSON-shaped values,
  the exceptions the code raises or catches, results that may be an exception, and dictionaries.

  \<^item> A Python \<open>str\<close> is its list of code points (\<open>pystr\<close>); \<open>u ''abc''\<close> is the literal
    \<open>"abc"\<close>. A lone surrogate is a code point like any other, as in Python.
  \<^item> \<open>bytes\<close> is a list of 8-bit words.
  \<^item> \<open>pyval\<close> is a value of the kind \<open>dict[str, Any]\<close> holds once it came out of \<open>json.loads\<close>.
    A \<open>dict\<close> is the list of its items in insertion order. A float is carried by the text
    that denotes it, in a value the code serialises the text of \<open>float.__repr__\<close>.
  \<^item> An operation that may raise returns \<open>exc + 'a\<close>, \<open>Inl\<close> being the exception.
\<close>

section \<open>Strings and bytes\<close>

type_synonym pystr = "nat list"
type_synonym bytes = "8 word list"

definition u :: "string \<Rightarrow> pystr" where
  "u s = map of_char s"

lemma u_eq_iff [simp]: "u s = u t \<longleftrightarrow> s = t"
proof -
  have "inj (of_char :: char \<Rightarrow> nat)" by (rule inj_of_char)
  then show ?thesis by (simp add: u_def inj_map_eq_map)
qed

lemma u_Nil [simp]: "u [] = []"
  by (simp add: u_def)

lemma u_eq_Nil_iff [simp]: "u s = [] \<longleftrightarrow> s = []" "[] = u s \<longleftrightarrow> s = []"
  by (auto simp: u_def)

lemma length_u [simp]: "length (u s) = length s"
  by (simp add: u_def)

lemma u_append: "u (s @ t) = u s @ u t"
  by (simp add: u_def)

lemma u_less_256: "c \<in> set (u s) \<Longrightarrow> c < 256"
  by (auto simp: u_def)

text \<open>The byte of value \<open>n\<close>, for \<open>n < 256\<close>.\<close>

definition byte :: "nat \<Rightarrow> 8 word" where
  "byte n = of_nat n"

lemma unat_byte [simp]: "n < 256 \<Longrightarrow> unat (byte n) = n"
  by (simp add: byte_def unat_of_nat)

lemma byte_unat [simp]: "byte (unat b) = b"
  by (simp add: byte_def)

lemma byte_eqI: "unat b = n \<Longrightarrow> byte n = b"
  by auto

lemma unat_less_256 [simp]: "unat (b :: 8 word) < 256"
  using unsigned_less [of b] by simp

section \<open>JSON-shaped values and exceptions\<close>

datatype pyval =
    PNone
  | PBool bool
  | PInt int
  | PFloat pystr
  | PStr pystr
  | PList "pyval list"
  | PDict "(pystr \<times> pyval) list"

type_synonym pydict = "(pystr \<times> pyval) list"

text \<open>
  An exception is its class, and for the classes the repository defines also its message. A
  message is the list of the pieces of the f-string that builds it: literal text, an
  interpolated string, an interpolated value, or the text of another exception.
\<close>

datatype exc =
    ValueError | TypeError | KeyError | AttributeError | OverflowError | ZeroDivisionError | RecursionError
  | UnicodeEncodeError | UnicodeDecodeError | BinasciiError | JSONDecodeError
  | InvalidSignature | TimeoutError | FileNotFoundError | OSError | TimeoutExpired | SubprocessError
  | ConnectionClosed
  | FileExistsError "msg_part list"
  | AzureCliSigningError "msg_part list"
  | XaiVoiceConfigurationError "msg_part list"
  | XaiVoiceProtocolError "msg_part list"
  | XaiVoiceRemoteError "msg_part list"
  | SchemaValidationError "msg_part list"
  | CryptoVerificationError "msg_part list"
  | TrustRegistryError "msg_part list"
  | PolicyError "msg_part list"
  | RegistryLoaderError "msg_part list"
  | SigningContractError "msg_part list"
and msg_part =
    Txt string
  | Str pystr
  | Val pyval
  | Num int
  | Exc exc

type_synonym msg = "msg_part list"

text \<open>
  \<open>except ValueError\<close> also catches the subclasses: the Unicode errors, \<open>binascii.Error\<close>,
  \<open>json.JSONDecodeError\<close>, and the error classes of the modelled modules that derive from it; those
  of the Azure and voice clients derive from \<open>RuntimeError\<close>. \<open>ConnectionClosed\<close> stands for what the
  websocket library raises.
\<close>

fun is_ValueError :: "exc \<Rightarrow> bool" where
  "is_ValueError TypeError = False"
| "is_ValueError KeyError = False"
| "is_ValueError AttributeError = False"
| "is_ValueError OverflowError = False"
| "is_ValueError ZeroDivisionError = False"
| "is_ValueError RecursionError = False"
| "is_ValueError InvalidSignature = False"
| "is_ValueError TimeoutError = False"
| "is_ValueError FileNotFoundError = False"
| "is_ValueError OSError = False"
| "is_ValueError TimeoutExpired = False"
| "is_ValueError SubprocessError = False"
| "is_ValueError ConnectionClosed = False"
| "is_ValueError (FileExistsError m) = False"
| "is_ValueError (AzureCliSigningError m) = False"
| "is_ValueError (XaiVoiceConfigurationError m) = False"
| "is_ValueError (XaiVoiceProtocolError m) = False"
| "is_ValueError (XaiVoiceRemoteError m) = False"
| "is_ValueError _ = True"

text \<open>\<open>TimeoutError\<close>, \<open>FileExistsError\<close> and the rest of the system's errors are \<open>OSError\<close>s.\<close>

fun is_OSError :: "exc \<Rightarrow> bool" where
  "is_OSError FileNotFoundError = True"
| "is_OSError (FileExistsError m) = True"
| "is_OSError TimeoutError = True"
| "is_OSError OSError = True"
| "is_OSError _ = False"

section \<open>Results\<close>

definition bindR :: "'e + 'a \<Rightarrow> ('a \<Rightarrow> 'e + 'b) \<Rightarrow> 'e + 'b" where
  "bindR m f = (case m of Inl e \<Rightarrow> Inl e | Inr x \<Rightarrow> f x)"

named_theorems result_simps \<open>how a sequence of fallible steps succeeds or raises\<close>

lemma bindR_simps [simp]: "bindR (Inl e) f = Inl e" "bindR (Inr x) f = f x"
  by (simp_all add: bindR_def)

lemma bindR_Inr_iff [result_simps]: "bindR m f = Inr y \<longleftrightarrow> (\<exists>x. m = Inr x \<and> f x = Inr y)"
  by (cases m) auto

lemma bindR_Inl_iff [result_simps]:
  "bindR m f = Inl e \<longleftrightarrow> m = Inl e \<or> (\<exists>x. m = Inr x \<and> f x = Inl e)"
  by (cases m) auto

lemma bindR_cong [fundef_cong]:
  "m = m' \<Longrightarrow> (\<And>x. m' = Inr x \<Longrightarrow> f x = g x) \<Longrightarrow> bindR m f = bindR m' g"
  by (cases m') auto

lemma if_Inl_eq_Inr [result_simps]: "(if b then Inl e else m) = Inr y \<longleftrightarrow> \<not> b \<and> m = Inr y"
  by simp

fun sequenceR :: "('e + 'a) list \<Rightarrow> 'e + 'a list" where
  "sequenceR [] = Inr []"
| "sequenceR (m # ms) = bindR m (\<lambda>x. bindR (sequenceR ms) (\<lambda>xs. Inr (x # xs)))"

lemma sequenceR_Inr_iff [result_simps]: "sequenceR ms = Inr xs \<longleftrightarrow> ms = map Inr xs"
  by (induction ms arbitrary: xs) (auto simp: result_simps)

section \<open>Dictionaries\<close>

text \<open>
  \<open>d.get(k)\<close>, \<open>k in d\<close>, \<open>d[k] = v\<close> (a new key goes last, an old one keeps its place), and
  \<open>dict(pairs)\<close>.
\<close>

definition dget :: "pydict \<Rightarrow> pystr \<Rightarrow> pyval" where
  "dget d k = (case map_of d k of None \<Rightarrow> PNone | Some v \<Rightarrow> v)"

definition dhas :: "pydict \<Rightarrow> pystr \<Rightarrow> bool" where
  "dhas d k = (map_of d k \<noteq> None)"

fun dset :: "('k \<times> 'v) list \<Rightarrow> 'k \<Rightarrow> 'v \<Rightarrow> ('k \<times> 'v) list" where
  "dset [] k v = [(k, v)]"
| "dset (p # d) k v = (if fst p = k then (k, v) # d else p # dset d k v)"

fun dict_of :: "('k \<times> 'v) list \<Rightarrow> ('k \<times> 'v) list \<Rightarrow> ('k \<times> 'v) list" where
  "dict_of d [] = d"
| "dict_of d (p # ps) = dict_of (dset d (fst p) (snd p)) ps"

definition as_dict :: "pyval \<Rightarrow> pydict option" where
  "as_dict v = (case v of PDict d \<Rightarrow> Some d | _ \<Rightarrow> None)"

definition as_str :: "pyval \<Rightarrow> pystr option" where
  "as_str v = (case v of PStr s \<Rightarrow> Some s | _ \<Rightarrow> None)"

text \<open>Truth of a value, as in \<open>if x:\<close> and \<open>not x\<close>. The float zeros are \<open>0.0\<close> and \<open>-0.0\<close>.\<close>

fun truthy :: "pyval \<Rightarrow> bool" where
  "truthy PNone = False"
| "truthy (PBool b) = b"
| "truthy (PInt i) = (i \<noteq> 0)"
| "truthy (PFloat t) = (t \<noteq> u ''0.0'' \<and> t \<noteq> u ''-0.0'')"
| "truthy (PStr s) = (s \<noteq> [])"
| "truthy (PList xs) = (xs \<noteq> [])"
| "truthy (PDict d) = (d \<noteq> [])"

lemma as_dict_simps [simp]:
  "as_dict (PDict d) = Some d" "as_dict (PStr s) = None" "as_dict PNone = None"
  "as_dict (PList xs) = None" "as_dict (PInt i) = None" "as_dict (PBool b) = None"
  "as_dict (PFloat t) = None"
  by (simp_all add: as_dict_def)

lemma as_dict_Some_iff: "as_dict v = Some d \<longleftrightarrow> v = PDict d"
  by (cases v) auto

lemma as_str_simps [simp]:
  "as_str (PStr s) = Some s" "as_str (PDict d) = None" "as_str PNone = None"
  "as_str (PList xs) = None" "as_str (PInt i) = None" "as_str (PBool b) = None"
  "as_str (PFloat t) = None"
  by (simp_all add: as_str_def)

lemma as_str_Some_iff: "as_str v = Some s \<longleftrightarrow> v = PStr s"
  by (cases v) auto

lemma as_str_None_iff: "as_str v = None \<longleftrightarrow> (\<forall>s. v \<noteq> PStr s)"
  by (cases v) auto

lemma as_dict_None_iff: "as_dict v = None \<longleftrightarrow> (\<forall>d. v \<noteq> PDict d)"
  by (cases v) auto

lemma dget_Nil [simp]: "dget [] k = PNone"
  by (simp add: dget_def)

lemma dget_Cons [simp]: "dget ((k', v) # d) k = (if k' = k then v else dget d k)"
  by (simp add: dget_def)

lemma dhas_simps [simp]: "\<not> dhas [] k" "dhas ((k', v) # d) k \<longleftrightarrow> k' = k \<or> dhas d k"
  by (auto simp: dhas_def)

lemma map_of_dset: "map_of (dset d k v) = (map_of d)(k \<mapsto> v)"
  by (induction d) (auto simp: fun_eq_iff)

lemma dget_dset: "dget (dset d k v) k' = (if k' = k then v else dget d k')"
  by (simp add: dget_def map_of_dset)

lemma fst_set_dset: "fst ` set (dset d k v) = insert k (fst ` set d)"
  by (induction d) auto

lemma distinct_dset: "distinct (map fst d) \<Longrightarrow> distinct (map fst (dset d k v))"
  by (induction d) (auto simp: fst_set_dset)

lemma distinct_dict_of: "distinct (map fst d) \<Longrightarrow> distinct (map fst (dict_of d ps))"
  by (induction d ps rule: dict_of.induct) (auto simp: distinct_dset)

lemma dset_append: "k \<notin> fst ` set d \<Longrightarrow> dset d k v = d @ [(k, v)]"
  by (induction d) auto

lemma dict_of_append:
  "distinct (map fst (d @ ps)) \<Longrightarrow> dict_of d ps = d @ ps"
  by (induction d ps rule: dict_of.induct) (auto simp: dset_append)

lemma dict_of_distinct [simp]: "distinct (map fst ps) \<Longrightarrow> dict_of [] ps = ps"
  by (simp add: dict_of_append)

lemma map_of_dict_of: "map_of (dict_of d ps) = map_of d ++ map_of (rev ps)"
  by (induction d ps rule: dict_of.induct) (auto simp: map_of_dset map_add_def fun_eq_iff split: option.splits)

section \<open>Joining\<close>

fun join :: "pystr \<Rightarrow> pystr list \<Rightarrow> pystr" where
  "join sep [] = []"
| "join sep [s] = s"
| "join sep (s # t # ss) = s @ sep @ join sep (t # ss)"

section \<open>Codecs\<close>

text \<open>
  What the components rely on of an encoder and its decoder: decoding what was encoded gives it
  back, so encoding is injective on the values it is meant for. UTF-8, base64, JSON and the
  canonical payload of a receipt are instances.
\<close>

locale codec =
  fixes enc :: "'a \<Rightarrow> 'b"
    and dec :: "'b \<Rightarrow> exc + 'a"
    and valid :: "'a \<Rightarrow> bool"
  assumes dec_enc: "valid x \<Longrightarrow> dec (enc x) = Inr x"
begin

lemma enc_inject:
  assumes "valid x" and "valid y"
  shows "enc x = enc y \<longleftrightarrow> x = y"
proof
  assume "enc x = enc y"
  then have "dec (enc x) = dec (enc y)" by (rule arg_cong)
  then show "x = y" by (simp only: dec_enc [OF assms(1)] dec_enc [OF assms(2)] sum.inject)
qed simp

lemma dec_enc_unique:
  assumes "valid x" and "dec (enc x) = Inr y"
  shows "y = x"
  using assms(2) unfolding dec_enc [OF assms(1)] by simp

end

text \<open>A strict codec decodes exactly what its encoder produces.\<close>

locale strict_codec = codec +
  assumes dec_valid: "dec y = Inr x \<Longrightarrow> valid x"
    and enc_dec: "dec y = Inr x \<Longrightarrow> enc x = y"
begin

lemma dec_iff: "dec y = Inr x \<longleftrightarrow> valid x \<and> enc x = y"
  by (rule iffI, rule conjI, erule dec_valid, erule enc_dec, erule conjE, hypsubst, erule dec_enc)

lemma dec_inject: "dec y = Inr x \<Longrightarrow> dec y' = Inr x \<Longrightarrow> y = y'"
  by (drule enc_dec, drule enc_dec, simp)

end

end
