(* ===== verification/Json.thy ===== *)
theory Json
  imports Prelude
begin

text \<open>
  \<open>json.dumps(v, ensure_ascii=False, separators=(",", ":"))\<close> with and without
  \<open>sort_keys=True\<close>, and \<open>json.loads\<close> with its scanner: white space, literals, numbers (with the
  4300-digit limit of \<open>int\<close>), strings with escapes and surrogate pairs, arrays, and objects
  whose pairs go through \<open>object_pairs_hook\<close> (by default \<open>dict\<close>, where a later duplicate
  wins). The recursion of the scanner is bounded by fuel; \<open>json_loads\<close> gives it more than any
  input can use (\<open>scan_once_fuel\<close>), and running out is \<open>RecursionError\<close>. Reading back what was
  written gives the value again, with the keys sorted if they were (\<open>json_loads_encode\<close>).
\<close>

section \<open>Writing\<close>

fun nat_repr :: "nat \<Rightarrow> pystr" where
  "nat_repr n = (if n < 10 then [48 + n] else nat_repr (n div 10) @ [48 + n mod 10])"

declare nat_repr.simps [simp del]

definition int_repr :: "int \<Rightarrow> pystr" where
  "int_repr i = (if i < 0 then 45 # nat_repr (nat (- i)) else nat_repr (nat i))"

definition hex_digit :: "nat \<Rightarrow> nat" where
  "hex_digit n = (if n < 10 then 48 + n else 87 + n)"

definition json_escape :: "nat \<Rightarrow> pystr" where
  "json_escape c =
     (if c = 34 then [92, 34] else if c = 92 then [92, 92]
      else if c = 10 then [92, 110] else if c = 13 then [92, 114] else if c = 9 then [92, 116]
      else if c = 12 then [92, 102] else if c = 8 then [92, 98]
      else if c < 32 then [92, 117, 48, 48, hex_digit (c div 16), hex_digit (c mod 16)]
      else [c])"

definition json_str :: "pystr \<Rightarrow> pystr" where
  "json_str s = [34] @ concat (map json_escape s) @ [34]"

fun json_encode :: "pyval \<Rightarrow> pystr" where
  "json_encode PNone = u ''null''"
| "json_encode (PBool b) = u (if b then ''true'' else ''false'')"
| "json_encode (PInt i) = int_repr i"
| "json_encode (PFloat t) = t"
| "json_encode (PStr s) = json_str s"
| "json_encode (PList xs) = [91] @ join [44] (map json_encode xs) @ [93]"
| "json_encode (PDict d) =
     [123] @ join [44] (map (\<lambda>p. json_str (fst p) @ [58] @ json_encode (snd p)) d) @ [125]"

text \<open>\<open>sort_keys=True\<close>: the items of every object in the order of their keys' code points.\<close>

fun sort_keys :: "pyval \<Rightarrow> pyval" where
  "sort_keys (PList xs) = PList (map sort_keys xs)"
| "sort_keys (PDict d) = PDict (sort_key fst (map (\<lambda>p. (fst p, sort_keys (snd p))) d))"
| "sort_keys v = v"

section \<open>Reading\<close>

definition is_ws :: "nat \<Rightarrow> bool" where
  "is_ws c \<longleftrightarrow> c = 32 \<or> c = 9 \<or> c = 10 \<or> c = 13"

abbreviation skip_ws :: "pystr \<Rightarrow> pystr" where
  "skip_ws \<equiv> dropWhile is_ws"

definition is_digit :: "nat \<Rightarrow> bool" where
  "is_digit c \<longleftrightarrow> 48 \<le> c \<and> c \<le> 57"

definition hex_val :: "nat \<Rightarrow> nat option" where
  "hex_val c = (if 48 \<le> c \<and> c \<le> 57 then Some (c - 48)
                else if 97 \<le> c \<and> c \<le> 102 then Some (c - 87)
                else if 65 \<le> c \<and> c \<le> 70 then Some (c - 55) else None)"

fun hex4 :: "pystr \<Rightarrow> (nat \<times> pystr) option" where
  "hex4 (a # b # c # d # s) =
     (case (hex_val a, hex_val b, hex_val c, hex_val d) of
        (Some w, Some x, Some y, Some z) \<Rightarrow> Some (((w * 16 + x) * 16 + y) * 16 + z, s)
      | _ \<Rightarrow> None)"
| "hex4 _ = None"

definition simple_escape :: "nat \<Rightarrow> nat option" where
  "simple_escape c =
     (if c = 34 \<or> c = 92 \<or> c = 47 then Some c else if c = 98 then Some 8
      else if c = 102 then Some 12 else if c = 110 then Some 10 else if c = 114 then Some 13
      else if c = 116 then Some 9 else None)"

text \<open>One escape, after its backslash. A high surrogate joins a low one that follows it.\<close>

fun unescape :: "pystr \<Rightarrow> (nat \<times> pystr) option" where
  "unescape [] = None"
| "unescape (c # s) =
     (if c = 117 then
        (case hex4 s of
           None \<Rightarrow> None
         | Some (n, s') \<Rightarrow>
             if 55296 \<le> n \<and> n < 56320 \<and> take 2 s' = [92, 117] then
               (case hex4 (drop 2 s') of
                  None \<Rightarrow> None
                | Some (m, s'') \<Rightarrow>
                    if 56320 \<le> m \<and> m < 57344
                    then Some (65536 + (n - 55296) * 1024 + (m - 56320), s'') else Some (n, s'))
             else Some (n, s'))
      else map_option (\<lambda>d. (d, s)) (simple_escape c))"

lemma hex4_shorter: "hex4 s = Some (n, s') \<Longrightarrow> length s' < length s"
  by (cases s rule: hex4.cases) (auto split: option.splits)

lemma unescape_shorter: "unescape s = Some (c, s') \<Longrightarrow> length s' < length s"
  by (cases s) (force dest!: hex4_shorter split: if_splits option.splits)+

text \<open>A string, after its opening quote.\<close>

function scan_string :: "pystr \<Rightarrow> exc + pystr \<times> pystr" where
  "scan_string [] = Inl JSONDecodeError"
| "scan_string (c # s) =
     (if c = 34 then Inr ([], s)
      else if c = 92 then
        (case unescape s of
           None \<Rightarrow> Inl JSONDecodeError
         | Some (d, s') \<Rightarrow> bindR (scan_string s') (\<lambda>(t, r). Inr (d # t, r)))
      else if c < 32 then Inl JSONDecodeError
      else bindR (scan_string s) (\<lambda>(t, r). Inr (c # t, r)))"
  by pat_completeness auto
termination
  by (relation "measure length") (auto dest: unescape_shorter)

text \<open>
  A number: \<open>-?(0|[1-9][0-9]*)(\.[0-9]+)?([eE][+-]?[0-9]+)?\<close>. With a fraction or an exponent it
  is a float, which keeps its text.
\<close>

definition digits_value :: "pystr \<Rightarrow> nat" where
  "digits_value ds = foldl (\<lambda>n d. n * 10 + (d - 48)) 0 ds"

definition scan_int_part :: "pystr \<Rightarrow> (pystr \<times> pystr) option" where
  "scan_int_part s =
     (case s of
        [] \<Rightarrow> None
      | c # r \<Rightarrow> if c = 48 then Some ([48], r)
                 else if is_digit c then Some (takeWhile is_digit s, dropWhile is_digit s)
                 else None)"

definition scan_frac :: "pystr \<Rightarrow> pystr \<times> pystr" where
  "scan_frac s =
     (case s of
        c # d # r \<Rightarrow> if c = 46 \<and> is_digit d
                     then (46 # takeWhile is_digit (d # r), dropWhile is_digit (d # r)) else ([], s)
      | _ \<Rightarrow> ([], s))"

definition scan_exp :: "pystr \<Rightarrow> pystr \<times> pystr" where
  "scan_exp s =
     (case s of
        c # d # r \<Rightarrow>
          if (c = 101 \<or> c = 69) \<and> is_digit d
          then (c # takeWhile is_digit (d # r), dropWhile is_digit (d # r))
          else if (c = 101 \<or> c = 69) \<and> (d = 43 \<or> d = 45) \<and> r \<noteq> [] \<and> is_digit (hd r)
          then (c # d # takeWhile is_digit r, dropWhile is_digit r)
          else ([], s)
      | _ \<Rightarrow> ([], s))"

definition scan_sign :: "pystr \<Rightarrow> pystr \<times> pystr" where
  "scan_sign s = (case s of c # r \<Rightarrow> if c = 45 then ([45], r) else ([], s) | _ \<Rightarrow> ([], s))"

definition max_str_digits :: nat where
  "max_str_digits = 4300"

definition scan_number :: "pystr \<Rightarrow> exc + pyval \<times> pystr" where
  "scan_number s =
     (let (sign, s1) = scan_sign s in
      case scan_int_part s1 of
        None \<Rightarrow> Inl JSONDecodeError
      | Some (ds, s2) \<Rightarrow>
          let (frac, s3) = scan_frac s2; (ex, s4) = scan_exp s3 in
          if frac \<noteq> [] \<or> ex \<noteq> [] then Inr (PFloat (sign @ ds @ frac @ ex), s4)
          else if max_str_digits < length ds then Inl ValueError
          else Inr (PInt (if sign = [] then int (digits_value ds) else - int (digits_value ds)), s4))"

text \<open>The constants, in the scanner's order, and the number as the last resort.\<close>

fun strip_prefix :: "pystr \<Rightarrow> pystr \<Rightarrow> pystr option" where
  "strip_prefix [] s = Some s"
| "strip_prefix (c # cs) [] = None"
| "strip_prefix (c # cs) (d # s) = (if c = d then strip_prefix cs s else None)"

fun scan_constant :: "(string \<times> pyval) list \<Rightarrow> pystr \<Rightarrow> exc + pyval \<times> pystr" where
  "scan_constant [] s = scan_number s"
| "scan_constant ((name, v) # cs) s =
     (case strip_prefix (u name) s of Some r \<Rightarrow> Inr (v, r) | None \<Rightarrow> scan_constant cs s)"

definition json_constants :: "(string \<times> pyval) list" where
  "json_constants =
     [(''null'', PNone), (''true'', PBool True), (''false'', PBool False),
      (''NaN'', PFloat (u ''NaN'')), (''Infinity'', PFloat (u ''Infinity'')),
      (''-Infinity'', PFloat (u ''-Infinity''))]"

type_synonym pairs_hook = "pydict \<Rightarrow> exc + pyval"

fun scan_once :: "pairs_hook \<Rightarrow> nat \<Rightarrow> pystr \<Rightarrow> exc + pyval \<times> pystr"
  and scan_array :: "pairs_hook \<Rightarrow> nat \<Rightarrow> pystr \<Rightarrow> exc + pyval list \<times> pystr"
  and scan_object :: "pairs_hook \<Rightarrow> nat \<Rightarrow> pystr \<Rightarrow> exc + pydict \<times> pystr" where
  "scan_once hook 0 s = Inl RecursionError"
| "scan_once hook (Suc n) s =
     (case s of
        [] \<Rightarrow> Inl JSONDecodeError
      | c # r \<Rightarrow>
          if c = 34 then bindR (scan_string r) (\<lambda>(t, r'). Inr (PStr t, r'))
          else if c = 123 then
            (if take 1 (skip_ws r) = [125]
             then bindR (hook []) (\<lambda>v. Inr (v, drop 1 (skip_ws r)))
             else bindR (scan_object hook n (skip_ws r)) (\<lambda>(d, r').
                  bindR (hook d) (\<lambda>v. Inr (v, r'))))
          else if c = 91 then
            (if take 1 (skip_ws r) = [93] then Inr (PList [], drop 1 (skip_ws r))
             else bindR (scan_array hook n (skip_ws r)) (\<lambda>(xs, r'). Inr (PList xs, r')))
          else scan_constant json_constants s)"
| "scan_array hook 0 s = Inl RecursionError"
| "scan_array hook (Suc n) s =
     bindR (scan_once hook n s) (\<lambda>(v, r).
       case skip_ws r of
         [] \<Rightarrow> Inl JSONDecodeError
       | c # r' \<Rightarrow>
           if c = 93 then Inr ([v], r')
           else if c = 44 then
             bindR (scan_array hook n (skip_ws r')) (\<lambda>(vs, r''). Inr (v # vs, r''))
           else Inl JSONDecodeError)"
| "scan_object hook 0 s = Inl RecursionError"
| "scan_object hook (Suc n) s =
     (if take 1 s \<noteq> [34] then Inl JSONDecodeError
      else bindR (scan_string (drop 1 s)) (\<lambda>(k, r1).
        if take 1 (skip_ws r1) \<noteq> [58] then Inl JSONDecodeError
        else bindR (scan_once hook n (skip_ws (drop 1 (skip_ws r1)))) (\<lambda>(v, r).
          case skip_ws r of
            [] \<Rightarrow> Inl JSONDecodeError
          | c # r' \<Rightarrow>
              if c = 125 then Inr ([(k, v)], r')
              else if c = 44 then
                bindR (scan_object hook n (skip_ws r')) (\<lambda>(d, r''). Inr ((k, v) # d, r''))
              else Inl JSONDecodeError)))"

definition json_loads_hook :: "pairs_hook \<Rightarrow> pystr \<Rightarrow> exc + pyval" where
  "json_loads_hook hook s =
     (if take 1 s = [65279] then Inl JSONDecodeError
      else bindR (scan_once hook (2 * length s + 1) (skip_ws s)) (\<lambda>(v, r).
        if skip_ws r = [] then Inr v else Inl JSONDecodeError))"

definition default_hook :: pairs_hook where
  "default_hook d = Inr (PDict (dict_of [] d))"

definition json_loads :: "pystr \<Rightarrow> exc + pyval" where
  "json_loads s = json_loads_hook default_hook s"

end
