(* ===== verification/Json_Laws.thy ===== *)
theory Json_Laws
  imports Json "HOL-Library.Multiset"
begin

text \<open>
  The laws of the JSON reader and writer: the scanner's fuel is enough for any input, reading
  inverts writing on the values Python can serialise (\<open>json_ok\<close>), and so writing is injective on
  them, up to the order of keys when they are sorted.
\<close>

section \<open>Fuel\<close>

lemma skip_ws_length: "length (skip_ws s) \<le> length s"
  by (rule length_dropWhile_le)

lemma scan_string_shorter: "scan_string s = Inr (t, r) \<Longrightarrow> length r < length s"
  by (induction s arbitrary: t r rule: scan_string.induct)
    (fastforce simp: result_simps dest: unescape_shorter split: if_splits option.splits)+

lemma scan_int_part_shorter: "scan_int_part s = Some (ds, r) \<Longrightarrow> length r < length s"
  using length_dropWhile_le [of is_digit "tl s"]
  by (auto simp: scan_int_part_def le_imp_less_Suc split: list.splits if_splits)

lemma scan_frac_length: "length (snd (scan_frac s)) \<le> length s"
  using length_dropWhile_le [of is_digit "tl s"]
  by (auto simp: scan_frac_def split: list.splits)

lemma scan_exp_length: "length (snd (scan_exp s)) \<le> length s"
  using length_dropWhile_le [of is_digit "tl s"] length_dropWhile_le [of is_digit "tl (tl s)"]
  by (auto simp: scan_exp_def split: list.splits)

lemma scan_sign_length: "length (snd (scan_sign s)) \<le> length s"
  by (auto simp: scan_sign_def split: list.splits)

lemma scan_number_shorter:
  assumes "scan_number s = Inr (v, r)"
  shows "length r < length s"
proof -
  obtain sign s1 where 1: "scan_sign s = (sign, s1)" by fastforce
  from assms obtain ds s2 where 2: "scan_int_part s1 = Some (ds, s2)"
    by (auto simp: scan_number_def 1 split: option.splits)
  obtain frac s3 where 3: "scan_frac s2 = (frac, s3)" by fastforce
  obtain ex s4 where 4: "scan_exp s3 = (ex, s4)" by fastforce
  have "r = s4" using assms by (auto simp: scan_number_def 1 2 3 4 split: if_splits)
  then show ?thesis
    using scan_sign_length [of s] scan_int_part_shorter [OF 2] scan_frac_length [of s2]
      scan_exp_length [of s3] by (simp add: 1 3 4)
qed

lemma strip_prefix_Some: "strip_prefix p s = Some r \<Longrightarrow> s = p @ r"
  by (induction p s rule: strip_prefix.induct) (auto split: if_splits)

lemma strip_prefix_append [simp]: "strip_prefix p (p @ r) = Some r"
  by (induction p) auto

lemma scan_constant_shorter:
  assumes "scan_constant cs s = Inr (v, r)" and "\<forall>c \<in> set cs. fst c \<noteq> []"
  shows "length r < length s"
  using assms
proof (induction cs s rule: scan_constant.induct)
  case (1 s)
  then show ?case by (simp add: scan_number_shorter)
next
  case (2 name v' cs s)
  show ?case
  proof (cases "strip_prefix (u name) s")
    case None
    with 2 show ?thesis by simp
  next
    case (Some r')
    from strip_prefix_Some [OF this] 2 Some show ?thesis by auto
  qed
qed

lemma json_constants_named: "\<forall>c \<in> set json_constants. fst c \<noteq> []"
  by (simp add: json_constants_def)

text \<open>Every value consumes input, and enough fuel is never exhausted.\<close>

lemma scan_shorter:
  "scan_once h n s = Inr (v, r) \<Longrightarrow> length r < length s"
  "scan_array h n s = Inr (vs, r) \<Longrightarrow> length r < length s"
  "scan_object h n s = Inr (d, r) \<Longrightarrow> length r < length s"
proof (induction h n s and h n s and h n s arbitrary: v r and vs r and d r
    rule: scan_once_scan_array_scan_object.induct)
  case (2 hook n s)
  show ?case
  proof (cases s)
    case Nil
    with "2.prems" show ?thesis by simp
  next
    case (Cons c t)
    note le = skip_ws_length [of t]
    show ?thesis
      using "2.prems" "2.IH"(1,2) [OF Cons] le
      by (fastforce simp: Cons result_simps split: if_splits
          dest: scan_string_shorter scan_constant_shorter [OF _ json_constants_named])
  qed
next
  case (4 hook n s)
  from "4.prems" obtain v r0 where v: "scan_once hook n s = Inr (v, r0)"
    by (auto simp: result_simps)
  from "4.prems" v obtain c r' where c: "skip_ws r0 = c # r'"
    by (auto split: list.splits)
  have len: "length r' < length s"
    using "4.IH"(1) [OF v] skip_ws_length [of r0] c by simp
  have "length r < length s" if "c = 44"
  proof -
    from "4.prems" v c that obtain vs' where "scan_array hook n (skip_ws r') = Inr (vs', r)"
      by (auto simp: result_simps)
    from "4.IH"(2) [OF v refl c _ that this] skip_ws_length [of r'] len that show ?thesis by simp
  qed
  then show ?case using "4.prems" v c len by (auto split: if_splits)
next
  case (6 hook n s)
  from "6.prems" obtain k r1 where k: "take 1 s = [34]" "scan_string (drop 1 s) = Inr (k, r1)"
    by (auto simp: result_simps split: if_splits)
  from "6.prems" k obtain v r0 where v: "take 1 (skip_ws r1) = [58]"
    "scan_once hook n (skip_ws (drop 1 (skip_ws r1))) = Inr (v, r0)"
    by (auto simp: result_simps split: if_splits)
  from "6.prems" k v obtain c r' where c: "skip_ws r0 = c # r'"
    by (auto split: list.splits)
  have "length r0 < length (skip_ws (drop 1 (skip_ws r1)))"
    using "6.IH"(1) [OF _ k(2) refl _ v(2)] k(1) v(1) by simp
  then have len: "length r' < length s"
    using scan_string_shorter [OF k(2)] skip_ws_length [of r1] skip_ws_length [of r0] c
      skip_ws_length [of "drop 1 (skip_ws r1)"] by simp
  have "length r < length s" if "c = 44"
  proof -
    from "6.prems" k v c that obtain d' where "scan_object hook n (skip_ws r') = Inr (d', r)"
      by (auto simp: result_simps)
    from "6.IH"(2) [OF _ k(2) refl _ v(2) refl c _ that this] k(1) v(1) that skip_ws_length [of r'] len
    show ?thesis by simp
  qed
  then show ?case using "6.prems" k v c len by (auto split: if_splits)
qed simp_all

lemma scan_string_no_fuel: "scan_string s \<noteq> Inl RecursionError"
  by (induction s rule: scan_string.induct) (auto simp: result_simps split: option.splits)

lemma scan_number_no_fuel: "scan_number s \<noteq> Inl RecursionError"
  by (auto simp: scan_number_def Let_def split: option.splits prod.splits)

lemma scan_constant_no_fuel: "scan_constant cs s \<noteq> Inl RecursionError"
  by (induction cs s rule: scan_constant.induct) (auto simp: scan_number_no_fuel split: option.splits)

lemma scan_fuel:
  assumes h: "\<And>d. h d \<noteq> Inl RecursionError"
  shows "2 * length s < n \<Longrightarrow> scan_once h n s \<noteq> Inl RecursionError"
    and "2 * length s + 1 < n \<Longrightarrow> scan_array h n s \<noteq> Inl RecursionError"
    and "2 * length s < n \<Longrightarrow> scan_object h n s \<noteq> Inl RecursionError"
proof (induction n arbitrary: s)
  case 0
  { case 1 then show ?case by simp }
  { case 2 then show ?case by simp }
  { case 3 then show ?case by simp }
next
  case (Suc n)
  { case 1
    show ?case
    proof (cases s)
      case (Cons c r)
      note le = skip_ws_length [of r]
      have "scan_array h n (skip_ws r) \<noteq> Inl RecursionError"
        "scan_object h n (skip_ws r) \<noteq> Inl RecursionError"
        using 1 Cons le by (auto intro!: Suc.IH)
      then show ?thesis
        using h scan_string_no_fuel scan_constant_no_fuel by (auto simp: Cons result_simps)
    qed simp }
  { case 2
    have "scan_once h n s \<noteq> Inl RecursionError" using 2 by (intro Suc.IH) simp
    moreover have "scan_array h n (skip_ws r') \<noteq> Inl RecursionError"
      if "scan_once h n s = Inr (v, r)" "skip_ws r = c # r'" for v r c r'
    proof -
      have "length (skip_ws r') < length s"
        using scan_shorter(1) [OF that(1)] skip_ws_length [of r] skip_ws_length [of r'] that(2) by simp
      then show ?thesis using 2 by (intro Suc.IH) simp
    qed
    ultimately show ?case by (auto simp: result_simps split: list.splits) }
  { case 3
    have one: "scan_once h n (skip_ws (drop 1 (skip_ws r1))) \<noteq> Inl RecursionError"
      if "scan_string (drop 1 s) = Inr (k, r1)" for k r1
      using 3 scan_string_shorter [OF that] skip_ws_length [of "drop 1 (skip_ws r1)"]
        skip_ws_length [of r1] by (intro Suc.IH) simp
    have more: "scan_object h n (skip_ws r') \<noteq> Inl RecursionError"
      if "scan_string (drop 1 s) = Inr (k, r1)"
        "scan_once h n (skip_ws (drop 1 (skip_ws r1))) = Inr (v, r)" "skip_ws r = c # r'"
      for k r1 v r c r'
    proof -
      have "length (skip_ws r') < length s"
        using scan_string_shorter [OF that(1)] scan_shorter(1) [OF that(2)] that(3)
          skip_ws_length [of "drop 1 (skip_ws r1)"] skip_ws_length [of r1] skip_ws_length [of r]
          skip_ws_length [of r'] by simp
      then show ?thesis using 3 by (intro Suc.IH) simp
    qed
    show ?case using one more scan_string_no_fuel
      by (auto simp: result_simps split: list.splits) }
qed

lemma json_loads_hook_no_fuel:
  assumes "\<And>d. h d \<noteq> Inl RecursionError"
  shows "json_loads_hook h s \<noteq> Inl RecursionError"
proof -
  have "scan_once h (2 * length s + 1) (skip_ws s) \<noteq> Inl RecursionError"
    using skip_ws_length [of s] by (intro scan_fuel(1) assms) simp
  then show ?thesis
    by (auto simp: json_loads_hook_def result_simps simp del: scan_once.simps)
qed

text \<open>Every failure of \<open>json.loads\<close> is a \<open>ValueError\<close>, as its callers assume.\<close>

lemma scan_string_error: "scan_string s = Inl e \<Longrightarrow> e = JSONDecodeError"
  by (induction s rule: scan_string.induct) (auto simp: result_simps split: option.splits if_splits)

lemma scan_constant_error:
  "scan_constant cs s = Inl e \<Longrightarrow> e = JSONDecodeError \<or> e = ValueError"
  by (induction cs s rule: scan_constant.induct)
    (auto simp: scan_number_def Let_def split: option.splits prod.splits if_splits)

lemma scan_error:
  "scan_once h n s = Inl e \<Longrightarrow> is_ValueError e \<or> e = RecursionError \<or> (\<exists>d. h d = Inl e)"
  "scan_array h n s = Inl e \<Longrightarrow> is_ValueError e \<or> e = RecursionError \<or> (\<exists>d. h d = Inl e)"
  "scan_object h n s = Inl e \<Longrightarrow> is_ValueError e \<or> e = RecursionError \<or> (\<exists>d. h d = Inl e)"
proof (induction n arbitrary: s)
  case 0
  { case 1 then show ?case by simp }
  { case 2 then show ?case by simp }
  { case 3 then show ?case by simp }
next
  case (Suc n)
  { case 1
    then show ?case using Suc.IH(2,3)
      by (auto simp: result_simps split: list.splits if_splits
          dest!: scan_string_error scan_constant_error) }
  { case 2
    show ?case
    proof (cases "scan_once h n s")
      case (Inl e')
      with 2 Suc.IH(1) show ?thesis by simp
    next
      case (Inr p)
      then obtain v r where p: "scan_once h n s = Inr (v, r)" by (cases p) simp
      with 2 Suc.IH(2) show ?thesis
        by (cases "skip_ws r") (auto simp: result_simps split: if_splits)
    qed }
  { case 3
    have tail: "is_ValueError e \<or> e = RecursionError \<or> (\<exists>d. h d = Inl e)"
      if "(case skip_ws r of
            [] \<Rightarrow> Inl JSONDecodeError
          | c # r' \<Rightarrow>
              if c = 125 then Inr ([(k, v)], r')
              else if c = 44 then
                bindR (scan_object h n (skip_ws r')) (\<lambda>(d, r''). Inr ((k, v) # d, r''))
              else Inl JSONDecodeError) = Inl e" for k v r
      using that Suc.IH(3) by (cases "skip_ws r") (auto simp: result_simps split: if_splits)
    from 3 show ?case using Suc.IH(1)
      by (auto simp: result_simps split: if_splits dest!: scan_string_error tail) }
qed

lemma json_loads_error: "json_loads s = Inl e \<Longrightarrow> is_ValueError e"
proof -
  assume e: "json_loads s = Inl e"
  have "e \<noteq> RecursionError"
    using json_loads_hook_no_fuel [of default_hook s] e by (auto simp: json_loads_def default_hook_def)
  with e show ?thesis
    by (auto simp: json_loads_def json_loads_hook_def default_hook_def result_simps
        simp del: scan_once.simps split: if_splits dest!: scan_error(1))
qed

section \<open>What Python can serialise\<close>

text \<open>
  A float's text is one the scanner reads back whole as a float, an integer has at most 4300
  digits, and a dictionary has no key twice.
\<close>

definition float_text :: "pystr \<Rightarrow> bool" where
  "float_text t \<longleftrightarrow> scan_constant json_constants t = Inr (PFloat t, [])"

fun json_ok :: "pyval \<Rightarrow> bool" where
  "json_ok (PInt i) = (length (nat_repr (nat \<bar>i\<bar>)) \<le> max_str_digits)"
| "json_ok (PFloat t) = float_text t"
| "json_ok (PList xs) = (\<forall>x \<in> set xs. json_ok x)"
| "json_ok (PDict d) = (distinct (map fst d) \<and> (\<forall>p \<in> set d. json_ok (snd p)))"
| "json_ok _ = True"

text \<open>What may follow a value in JSON text as it is written here: the end, a comma, a closing bracket, or a
  new line.\<close>

definition ends :: "pystr \<Rightarrow> bool" where
  "ends r \<longleftrightarrow> r = [] \<or> hd r = 44 \<or> hd r = 93 \<or> hd r = 125 \<or> hd r = 10"

lemma ends_simps [simp]: "ends []" "ends (c # r) \<longleftrightarrow> c = 44 \<or> c = 93 \<or> c = 125 \<or> c = 10"
  by (auto simp: ends_def)

lemma ends_not_digit: "ends r \<Longrightarrow> r = [] \<or> \<not> is_digit (hd r)"
  by (auto simp: ends_def is_digit_def)

section \<open>Numbers read back\<close>

lemma nat_repr_digits: "c \<in> set (nat_repr n) \<Longrightarrow> is_digit c"
proof (induction n rule: nat_repr.induct)
  case (1 n)
  then show ?case by (subst (asm) (2) nat_repr.simps) (auto simp: is_digit_def split: if_splits)
qed

lemma nat_repr_not_Nil [simp]: "nat_repr n \<noteq> []"
  by (subst nat_repr.simps) simp

lemma nat_repr_0 [simp]: "nat_repr 0 = [48]"
  by (subst nat_repr.simps) simp

lemma nat_repr_head: "n \<noteq> 0 \<Longrightarrow> hd (nat_repr n) \<noteq> 48"
proof (induction n rule: nat_repr.induct)
  case (1 n)
  then show ?case by (cases "n < 10") (simp_all add: nat_repr.simps [of n] hd_append)
qed

lemma digits_value_snoc: "digits_value (ds @ [d]) = digits_value ds * 10 + (d - 48)"
  by (simp add: digits_value_def)

lemma digits_value_nat_repr [simp]: "digits_value (nat_repr n) = n"
proof (induction n rule: nat_repr.induct)
  case (1 n)
  show ?case
  proof (cases "n < 10")
    case True
    then show ?thesis by (simp add: nat_repr.simps [of n] digits_value_def)
  next
    case False
    with 1 show ?thesis by (simp add: nat_repr.simps [of n] digits_value_snoc)
  qed
qed

lemma takeWhile_ends: "ends r \<Longrightarrow> takeWhile is_digit (t @ r) = takeWhile is_digit t"
  using ends_not_digit [of r] by (induction t) (cases r; auto)+

lemma dropWhile_ends: "ends r \<Longrightarrow> dropWhile is_digit (t @ r) = dropWhile is_digit t @ r"
  using ends_not_digit [of r] by (induction t) (cases r; auto)+

lemma scan_sign_append: "ends r \<Longrightarrow> scan_sign (t @ r) = (fst (scan_sign t), snd (scan_sign t) @ r)"
  by (cases t; cases r) (auto simp: scan_sign_def)

lemma scan_int_part_append:
  "ends r \<Longrightarrow> scan_int_part t = Some (ds, t') \<Longrightarrow> scan_int_part (t @ r) = Some (ds, t' @ r)"
  using takeWhile_ends [of r t] dropWhile_ends [of r t]
  by (cases t) (auto simp: scan_int_part_def split: if_splits)

lemma scan_frac_append: "ends r \<Longrightarrow> scan_frac (t @ r) = (fst (scan_frac t), snd (scan_frac t) @ r)"
  using takeWhile_ends [of r "tl t"] dropWhile_ends [of r "tl t"]
  by (cases t; cases "tl t"; cases r; cases "tl r") (auto simp: scan_frac_def is_digit_def)

lemma scan_exp_append: "ends r \<Longrightarrow> scan_exp (t @ r) = (fst (scan_exp t), snd (scan_exp t) @ r)"
proof -
  assume r: "ends r"
  note w = takeWhile_ends [OF r] dropWhile_ends [OF r]
  from r ends_not_digit [OF r] show ?thesis
  proof (cases t)
    case Nil
    with r show ?thesis by (cases r; cases "tl r") (auto simp: scan_exp_def)
  next
    case (Cons c t1)
    show ?thesis
    proof (cases t1)
      case Nil
      with Cons r show ?thesis by (cases r) (auto simp: scan_exp_def is_digit_def)
    next
      case (Cons d t2)
      then show ?thesis using \<open>t = c # t1\<close> r w [of "d # t2"] w [of t2] ends_not_digit [OF r]
        by (cases t2; cases r) (auto simp: scan_exp_def)
    qed
  qed
qed

lemma scan_number_append:
  assumes "ends r" and "scan_number t = Inr (v, t')"
  shows "scan_number (t @ r) = Inr (v, t' @ r)"
proof -
  obtain sign s1 where 1: "scan_sign t = (sign, s1)" by fastforce
  from assms(2) obtain ds s2 where 2: "scan_int_part s1 = Some (ds, s2)"
    by (auto simp: scan_number_def 1 split: option.splits)
  obtain frac s3 where 3: "scan_frac s2 = (frac, s3)" by fastforce
  obtain ex s4 where 4: "scan_exp s3 = (ex, s4)" by fastforce
  have "t' = s4" using assms(2) by (auto simp: scan_number_def 1 2 3 4 split: if_splits)
  then show ?thesis using assms(2)
    by (simp add: scan_number_def 1 2 3 4 scan_sign_append [OF assms(1)]
        scan_int_part_append [OF assms(1) 2] scan_frac_append [OF assms(1)] scan_exp_append [OF assms(1)])
      (auto split: if_splits)
qed

lemma scan_int_part_nat_repr: "scan_int_part (nat_repr n) = Some (nat_repr n, [])"
proof (cases "n = 0")
  case False
  then obtain c t where ct: "nat_repr n = c # t" "c \<noteq> 48"
    using nat_repr_head [of n] nat_repr_not_Nil [of n] by (metis list.exhaust_sel)
  moreover have "\<forall>d \<in> set (c # t). is_digit d" using nat_repr_digits [of _ n] ct by auto
  ultimately show ?thesis by (auto simp: scan_int_part_def)
qed (simp add: scan_int_part_def)

lemma scan_number_int_repr:
  assumes "json_ok (PInt i)"
  shows "scan_number (int_repr i) = Inr (PInt i, [])"
proof -
  obtain c t where ct: "nat_repr (nat i) = c # t" using nat_repr_not_Nil by (metis list.exhaust)
  moreover have "is_digit c" using nat_repr_digits [of c "nat i"] ct by simp
  ultimately have sign: "\<not> i < 0 \<Longrightarrow> scan_sign (nat_repr (nat i)) = ([], nat_repr (nat i))"
    by (simp add: scan_sign_def is_digit_def)
  have [simp]: "scan_frac [] = ([], [])" "scan_exp [] = ([], [])"
    by (simp_all add: scan_frac_def scan_exp_def)
  show ?thesis
  proof (cases "i < 0")
    case True
    then have "scan_sign (int_repr i) = ([45], nat_repr (nat (- i)))"
      by (simp add: int_repr_def scan_sign_def)
    with True assms show ?thesis by (simp add: scan_number_def scan_int_part_nat_repr)
  next
    case False
    with sign assms show ?thesis by (simp add: scan_number_def scan_int_part_nat_repr int_repr_def)
  qed
qed

section \<open>Strings read back\<close>

lemma hex_val_digit [simp]: "n < 16 \<Longrightarrow> hex_val (hex_digit n) = Some n"
  by (auto simp: hex_val_def hex_digit_def)

lemma scan_string_escape:
  "scan_string (json_escape c @ s) = bindR (scan_string s) (\<lambda>(t, r). Inr (c # t, r))"
proof (cases "c < 32 \<and> c \<notin> {8, 9, 10, 12, 13}")
  case True
  then have esc: "json_escape c = [92, 117, 48, 48, hex_digit (c div 16), hex_digit (c mod 16)]"
    by (auto simp: json_escape_def)
  have c: "c div 16 < 16" "c mod 16 < 16" "c < 32" using True by auto
  have "hex_val 48 = Some 0" by (simp add: hex_val_def)
  with c have "hex4 (48 # 48 # hex_digit (c div 16) # hex_digit (c mod 16) # s) = Some (c, s)"
    by simp
  with c(3) have "unescape (117 # 48 # 48 # hex_digit (c div 16) # hex_digit (c mod 16) # s) = Some (c, s)"
    by (simp del: hex4.simps)
  then show ?thesis by (simp add: esc del: unescape.simps)
next
  case False
  then show ?thesis by (auto simp: json_escape_def simple_escape_def)
qed

lemma scan_string_json: "scan_string (concat (map json_escape s) @ 34 # r) = Inr (s, r)"
  by (induction s) (simp_all add: scan_string_escape)

section \<open>Values read back\<close>

lemma strip_prefix_ends:
  "ends r \<Longrightarrow> \<forall>c \<in> set p. \<not> ends [c] \<Longrightarrow> strip_prefix p t = None \<Longrightarrow>
     strip_prefix p (t @ r) = None"
proof (induction p t rule: strip_prefix.induct)
  case (2 c cs)
  then show ?case by (cases r) auto
qed (auto split: if_splits)

lemma strip_prefix_append_Some: "strip_prefix p t = Some t' \<Longrightarrow> strip_prefix p (t @ r) = Some (t' @ r)"
  by (induction p t rule: strip_prefix.induct) (auto split: if_splits)

lemma scan_constant_append:
  "ends r \<Longrightarrow> \<forall>k \<in> set cs. \<forall>c \<in> set (u (fst k)). \<not> ends [c] \<Longrightarrow>
     scan_constant cs t = Inr (v, t') \<Longrightarrow> scan_constant cs (t @ r) = Inr (v, t' @ r)"
proof (induction cs t rule: scan_constant.induct)
  case (1 s)
  then show ?case by (simp add: scan_number_append)
next
  case (2 name v' cs s)
  then show ?case
    by (cases "strip_prefix (u name) s") (simp_all add: strip_prefix_ends strip_prefix_append_Some)
qed

lemma json_constants_ends:
  "\<forall>k \<in> set json_constants. \<forall>c \<in> set (u (fst k)). \<not> ends [c]"
  by (simp add: json_constants_def u_def)

lemma scan_constant_number:
  assumes "is_digit c \<or> c = 45 \<and> t \<noteq> [] \<and> is_digit (hd t)"
  shows "scan_constant json_constants (c # t) = scan_number (c # t)"
  using assms by (cases t) (auto simp: json_constants_def u_def is_digit_def)

lemma scan_constant_int_repr:
  "json_ok (PInt i) \<Longrightarrow> scan_constant json_constants (int_repr i) = Inr (PInt i, [])"
proof -
  assume ok: "json_ok (PInt i)"
  have "\<exists>c t. int_repr i = c # t \<and> (is_digit c \<or> c = 45 \<and> t \<noteq> [] \<and> is_digit (hd t))"
  proof (cases "nat_repr (nat \<bar>i\<bar>)")
    case (Cons c t)
    then have "is_digit c" using nat_repr_digits [of c "nat \<bar>i\<bar>"] by simp
    with Cons show ?thesis by (cases "i < 0") (auto simp: int_repr_def)
  qed simp
  then show ?thesis using scan_number_int_repr [OF ok] scan_constant_number by auto
qed

text \<open>The first character of a value is neither white space nor a closing bracket.\<close>

definition value_start :: "nat \<Rightarrow> bool" where
  "value_start c \<longleftrightarrow> \<not> is_ws c \<and> c \<noteq> 93 \<and> c \<noteq> 125 \<and> c \<noteq> 65279"

lemma scan_number_start: "scan_number (c # t) = Inr p \<Longrightarrow> is_digit c \<or> c = 45"
  by (auto simp: scan_number_def scan_sign_def scan_int_part_def is_digit_def split: if_splits)

lemma scan_constant_start:
  assumes "scan_constant json_constants t = Inr p"
  shows "\<exists>c s. t = c # s \<and> value_start c \<and> c \<noteq> 34 \<and> c \<noteq> 123 \<and> c \<noteq> 91"
proof (cases t)
  case Nil
  with assms show ?thesis
    by (simp add: json_constants_def u_def scan_number_def scan_sign_def scan_int_part_def)
next
  case (Cons c s)
  have "is_digit c \<or> c = 45 \<or> c = 110 \<or> c = 116 \<or> c = 102 \<or> c = 78 \<or> c = 73"
    using assms unfolding Cons
    by (auto simp: json_constants_def u_def dest!: scan_number_start split: if_splits option.splits)
  then show ?thesis using Cons by (auto simp: value_start_def is_digit_def is_ws_def)
qed

lemma json_encode_scalar:
  assumes "json_ok v" and "\<forall>s. v \<noteq> PStr s" and "\<forall>xs. v \<noteq> PList xs" and "\<forall>d. v \<noteq> PDict d"
  shows "scan_constant json_constants (json_encode v) = Inr (v, [])"
proof (cases v)
  case (PInt i)
  with assms(1) show ?thesis by (simp add: scan_constant_int_repr)
next
  case (PFloat t)
  with assms(1) show ?thesis by (simp add: float_text_def)
qed (use assms in \<open>auto simp: json_constants_def u_def\<close>)

lemma json_encode_start:
  assumes "json_ok v"
  shows "\<exists>c s. json_encode v = c # s \<and> value_start c"
proof (cases "(\<exists>s. v = PStr s) \<or> (\<exists>xs. v = PList xs) \<or> (\<exists>d. v = PDict d)")
  case True
  then show ?thesis by (auto simp: json_str_def value_start_def is_ws_def)
next
  case False
  with json_encode_scalar [OF assms] scan_constant_start show ?thesis by blast
qed

lemma skip_ws_encode [simp]:
  assumes "json_ok v"
  shows "skip_ws (json_encode v @ r) = json_encode v @ r"
  using json_encode_start [OF assms] by (auto simp: value_start_def)

definition reads_back :: "pairs_hook \<Rightarrow> pyval \<Rightarrow> bool" where
  "reads_back hook v \<longleftrightarrow> (\<forall>r n. ends r \<longrightarrow> 2 * length (json_encode v) < n \<longrightarrow>
     scan_once hook n (json_encode v @ r) = Inr (v, r))"

lemma join_Cons: "join sep (s # ss) = s @ (if ss = [] then [] else sep @ join sep ss)"
  by (cases ss) simp_all

abbreviation json_item :: "pystr \<times> pyval \<Rightarrow> pystr" where
  "json_item p \<equiv> json_str (fst p) @ [58] @ json_encode (snd p)"

text \<open>
  What the reader needs of its \<open>object_pairs_hook\<close>: pairs without a repeated key become the object
  with these items. Both hooks of the repository do that.
\<close>

locale object_pairs =
  fixes hook :: pairs_hook
  assumes hook_distinct: "distinct (map fst d) \<Longrightarrow> hook d = Inr (PDict d)"
begin

lemma reads_backD:
  "reads_back hook v \<Longrightarrow> ends r \<Longrightarrow> 2 * length (json_encode v) < n \<Longrightarrow>
     scan_once hook n (json_encode v @ r) = Inr (v, r)"
  by (simp add: reads_back_def)

lemma reads_back_scalar:
  assumes "json_ok v" and "\<forall>s. v \<noteq> PStr s" and "\<forall>xs. v \<noteq> PList xs" and "\<forall>d. v \<noteq> PDict d"
  shows "reads_back hook v"
  unfolding reads_back_def
proof (intro allI impI)
  fix r and n :: nat
  assume r: "ends r" and n: "2 * length (json_encode v) < n"
  note c = json_encode_scalar [OF assms]
  from scan_constant_start [OF c] obtain b s where b: "json_encode v = b # s" "b \<noteq> 34" "b \<noteq> 123" "b \<noteq> 91"
    by blast
  from n obtain m where "n = Suc m" by (cases n) auto
  moreover have "scan_constant json_constants (json_encode v @ r) = Inr (v, r)"
    using scan_constant_append [OF r json_constants_ends c] by simp
  ultimately show "scan_once hook n (json_encode v @ r) = Inr (v, r)"
    using b by simp
qed

lemma reads_back_str: "reads_back hook (PStr s)"
  unfolding reads_back_def
proof (intro allI impI)
  fix r and n :: nat
  assume "2 * length (json_encode (PStr s)) < n"
  then obtain m where "n = Suc m" by (cases n) auto
  then show "scan_once hook n (json_encode (PStr s) @ r) = Inr (PStr s, r)"
    by (simp add: json_str_def scan_string_json)
qed

lemma scan_array_back:
  "xs \<noteq> [] \<Longrightarrow> \<forall>x \<in> set xs. json_ok x \<and> reads_back hook x \<Longrightarrow>
     2 * length (join [44] (map json_encode xs)) + 1 < n \<Longrightarrow>
     scan_array hook n (join [44] (map json_encode xs) @ 93 # r) = Inr (xs, r)"
proof (induction xs arbitrary: n)
  case (Cons x xs)
  from Cons.prems(3) obtain m where n: "n = Suc m" by (cases n) auto
  show ?case
  proof (cases "xs = []")
    case True
    then show ?thesis using Cons.prems
      by (simp add: n reads_backD is_ws_def)
  next
    case False
    then obtain y ys where ys: "xs = y # ys" by (cases xs) auto
    let ?rest = "join [44] (map json_encode xs)"
    have skip: "skip_ws (?rest @ 93 # r) = ?rest @ 93 # r"
      using Cons.prems(2) by (simp add: ys join_Cons)
    have "scan_once hook m (json_encode x @ 44 # ?rest @ 93 # r) = Inr (x, 44 # ?rest @ 93 # r)"
      using Cons.prems(2,3) False by (intro reads_backD) (auto simp: n join_Cons)
    moreover have "scan_array hook m (?rest @ 93 # r) = Inr (xs, r)"
      using Cons.prems(2,3) False by (intro Cons.IH) (auto simp: n join_Cons)
    ultimately show ?thesis using False skip by (simp add: n join_Cons is_ws_def)
  qed
qed simp

lemma scan_object_back:
  "d \<noteq> [] \<Longrightarrow> \<forall>p \<in> set d. json_ok (snd p) \<and> reads_back hook (snd p) \<Longrightarrow>
     2 * length (join [44] (map json_item d)) < n \<Longrightarrow>
     scan_object hook n (join [44] (map json_item d) @ 125 # r) = Inr (d, r)"
proof (induction d arbitrary: n)
  case (Cons p d)
  obtain k v where p: "p = (k, v)" by (cases p)
  from Cons.prems(3) obtain m where n: "n = Suc m" by (cases n) auto
  have str: "scan_string (concat (map json_escape k) @ 34 # s) = Inr (k, s)" for s
    by (rule scan_string_json)
  have v: "json_ok v" using Cons.prems(2) by (simp add: p)
  show ?case
  proof (cases "d = []")
    case True
    have "scan_once hook m (json_encode v @ 125 # r) = Inr (v, 125 # r)"
      using Cons.prems(2,3) True by (intro reads_backD) (auto simp: n p json_str_def)
    then show ?thesis using True str v by (simp add: n p json_str_def is_ws_def)
  next
    case False
    then obtain q e where qe: "d = q # e" by (cases d) auto
    let ?rest = "join [44] (map json_item d)"
    have skip: "skip_ws (?rest @ 125 # r) = ?rest @ 125 # r"
      by (simp add: qe join_Cons json_str_def is_ws_def)
    have "scan_once hook m (json_encode v @ 44 # ?rest @ 125 # r) = Inr (v, 44 # ?rest @ 125 # r)"
      using Cons.prems(2,3) False by (intro reads_backD) (auto simp: n p join_Cons json_str_def)
    moreover have "scan_object hook m (?rest @ 125 # r) = Inr (d, r)"
      using Cons.prems(2,3) False by (intro Cons.IH) (auto simp: n join_Cons)
    ultimately show ?thesis using False skip str v
      by (simp add: n p join_Cons json_str_def is_ws_def)
  qed
qed simp

lemma json_reads_back: "json_ok v \<Longrightarrow> reads_back hook v"
proof (induction v)
  case (PStr s)
  show ?case by (rule reads_back_str)
next
  case (PList xs)
  show ?case unfolding reads_back_def
  proof (intro allI impI)
    fix r and n :: nat
    assume n: "2 * length (json_encode (PList xs)) < n"
    then obtain m where m: "n = Suc m" by (cases n) auto
    show "scan_once hook n (json_encode (PList xs) @ r) = Inr (PList xs, r)"
    proof (cases xs)
      case Nil
      then show ?thesis by (simp add: m is_ws_def)
    next
      case (Cons y ys)
      from PList.prems Cons json_encode_start [of y] obtain c s where c: "json_encode y = c # s" "value_start c"
        by auto
      have "scan_array hook m (join [44] (map json_encode xs) @ 93 # r) = Inr (xs, r)"
        using PList n Cons by (intro scan_array_back) (auto simp: m)
      with c show ?thesis by (simp add: m Cons join_Cons value_start_def)
    qed
  qed
next
  case (PDict d)
  show ?case unfolding reads_back_def
  proof (intro allI impI)
    fix r and n :: nat
    assume n: "2 * length (json_encode (PDict d)) < n"
    then obtain m where m: "n = Suc m" by (cases n) auto
    show "scan_once hook n (json_encode (PDict d) @ r) = Inr (PDict d, r)"
    proof (cases d)
      case Nil
      then show ?thesis by (simp add: m is_ws_def hook_distinct)
    next
      case (Cons q e)
      have "\<forall>p \<in> set d. json_ok (snd p) \<and> reads_back hook (snd p)"
      proof
        fix p assume p: "p \<in> set d"
        then have "json_ok (snd p)" using PDict.prems by simp
        moreover have "snd p \<in> Basic_BNFs.snds p" by (simp add: Basic_BNFs.snds.intros prod_set_defs)
        ultimately show "json_ok (snd p) \<and> reads_back hook (snd p)" using PDict.IH p by blast
      qed
      then have "scan_object hook m (join [44] (map json_item d) @ 125 # r) = Inr (d, r)"
        using n Cons by (intro scan_object_back) (auto simp: m)
      moreover have "hook d = Inr (PDict d)" using PDict.prems by (simp add: hook_distinct)
      ultimately show ?thesis
        by (simp add: m Cons join_Cons json_str_def is_ws_def)
    qed
  qed
qed (rule reads_back_scalar; simp)+

lemma loads_encode: "json_ok v \<Longrightarrow> json_loads_hook hook (json_encode v) = Inr v"
proof -
  assume ok: "json_ok v"
  from json_encode_start [OF ok] obtain c s where c: "json_encode v = c # s" "value_start c" by blast
  have "scan_once hook (2 * length (json_encode v) + 1) (json_encode v @ []) = Inr (v, [])"
    by (rule reads_backD [OF json_reads_back [OF ok]]) simp_all
  then show ?thesis
    using skip_ws_encode [OF ok, of "[]"] c
    by (simp add: json_loads_hook_def value_start_def del: scan_once.simps skip_ws_encode)
qed

end

interpretation default_pairs: object_pairs default_hook
  by unfold_locales (simp add: default_hook_def)

lemma json_loads_encode: "json_ok v \<Longrightarrow> json_loads (json_encode v) = Inr v"
  unfolding json_loads_def by (rule default_pairs.loads_encode)

interpretation json: codec json_encode json_loads json_ok
  by unfold_locales (rule json_loads_encode)

section \<open>Sorted keys\<close>

lemma distinct_map_sort_key: "distinct (map f (sort_key g xs)) \<longleftrightarrow> distinct (map f xs)"
  by (rule mset_eq_imp_distinct_iff) simp

lemma json_ok_sort_keys [simp]: "json_ok (sort_keys v) \<longleftrightarrow> json_ok v"
proof (induction v)
  case (PDict d)
  then show ?case by (force simp: prod_set_defs distinct_map_sort_key comp_def)
qed simp_all

text \<open>The text with sorted keys determines the value up to the order of its keys.\<close>

lemma sorted_encode_inject:
  assumes "json_ok v" and "json_ok w"
    and "json_encode (sort_keys v) = json_encode (sort_keys w)"
  shows "sort_keys v = sort_keys w"
  using json.enc_inject [of "sort_keys v" "sort_keys w"] assms by simp

end
