(* ===== verification/Utf8.thy ===== *)
theory Utf8
  imports Prelude
begin

text \<open>
  \<open>str.encode("utf-8")\<close>, \<open>str.encode("ascii")\<close> and the strict \<open>bytes.decode("utf-8")\<close> of
  Python. Encoding refuses surrogates; decoding refuses truncated and overlong sequences,
  encoded surrogates and everything beyond U+10FFFF. The two are inverse to each other.
\<close>

section \<open>Encoding\<close>

definition is_surrogate :: "nat \<Rightarrow> bool" where
  "is_surrogate c \<longleftrightarrow> 55296 \<le> c \<and> c < 57344"

definition is_scalar :: "nat \<Rightarrow> bool" where
  "is_scalar c \<longleftrightarrow> c < 1114112 \<and> \<not> is_surrogate c"

definition encodable :: "pystr \<Rightarrow> bool" where
  "encodable s \<longleftrightarrow> (\<forall>c \<in> set s. is_scalar c)"

definition utf8_char :: "nat \<Rightarrow> bytes" where
  "utf8_char c = map byte
     (if c < 128 then [c]
      else if c < 2048 then [192 + c div 64, 128 + c mod 64]
      else if c < 65536 then [224 + c div 4096, 128 + c div 64 mod 64, 128 + c mod 64]
      else [240 + c div 262144, 128 + c div 4096 mod 64, 128 + c div 64 mod 64, 128 + c mod 64])"

definition utf8_bytes :: "pystr \<Rightarrow> bytes" where
  "utf8_bytes s = concat (map utf8_char s)"

definition encode_utf8 :: "pystr \<Rightarrow> exc + bytes" where
  "encode_utf8 s = (if encodable s then Inr (utf8_bytes s) else Inl UnicodeEncodeError)"

definition is_ascii :: "pystr \<Rightarrow> bool" where
  "is_ascii s \<longleftrightarrow> (\<forall>c \<in> set s. c < 128)"

definition encode_ascii :: "pystr \<Rightarrow> exc + bytes" where
  "encode_ascii s = (if is_ascii s then Inr (map byte s) else Inl UnicodeEncodeError)"

section \<open>Decoding\<close>

definition cont :: "8 word \<Rightarrow> bool" where
  "cont b \<longleftrightarrow> 128 \<le> unat b \<and> unat b < 192"

text \<open>The code points the four shapes of a sequence stand for.\<close>

definition join2 :: "8 word \<Rightarrow> 8 word \<Rightarrow> nat" where
  "join2 b c = (unat b - 192) * 64 + (unat c - 128)"

definition join3 :: "8 word \<Rightarrow> 8 word \<Rightarrow> 8 word \<Rightarrow> nat" where
  "join3 b c d = (unat b - 224) * 4096 + (unat c - 128) * 64 + (unat d - 128)"

definition join4 :: "8 word \<Rightarrow> 8 word \<Rightarrow> 8 word \<Rightarrow> 8 word \<Rightarrow> nat" where
  "join4 b c d e =
     (unat b - 240) * 262144 + (unat c - 128) * 4096 + (unat d - 128) * 64 + (unat e - 128)"

text \<open>One character off the front of a byte string.\<close>

fun decode_char :: "bytes \<Rightarrow> (nat \<times> bytes) option" where
  "decode_char [] = None"
| "decode_char (b # bs) =
     (if unat b < 128 then Some (unat b, bs)
      else if unat b < 192 then None
      else if unat b < 224 then
        (case bs of c # bs' \<Rightarrow>
           if cont c \<and> 128 \<le> join2 b c then Some (join2 b c, bs') else None
         | _ \<Rightarrow> None)
      else if unat b < 240 then
        (case bs of c # d # bs' \<Rightarrow>
           if cont c \<and> cont d \<and> 2048 \<le> join3 b c d \<and> \<not> is_surrogate (join3 b c d)
           then Some (join3 b c d, bs') else None
         | _ \<Rightarrow> None)
      else if unat b < 248 then
        (case bs of c # d # e # bs' \<Rightarrow>
           if cont c \<and> cont d \<and> cont e \<and> 65536 \<le> join4 b c d e \<and> join4 b c d e < 1114112
           then Some (join4 b c d e, bs') else None
         | _ \<Rightarrow> None)
      else None)"

lemma decode_char_shorter: "decode_char bs = Some (c, bs') \<Longrightarrow> length bs' < length bs"
  by (cases bs) (auto split: if_splits list.splits)

function decode_utf8 :: "bytes \<Rightarrow> exc + pystr" where
  "decode_utf8 bs =
     (if bs = [] then Inr []
      else (case decode_char bs of
          None \<Rightarrow> Inl UnicodeDecodeError
        | Some (c, bs') \<Rightarrow> bindR (decode_utf8 bs') (\<lambda>s. Inr (c # s))))"
  by pat_completeness auto
termination
  by (relation "measure length") (auto simp: decode_char_shorter)

declare decode_utf8.simps [simp del]

lemma decode_utf8_Nil [simp]: "decode_utf8 [] = Inr []"
  by (simp add: decode_utf8.simps)

section \<open>The two are inverse\<close>

lemma split_64: "c div 4096 * 4096 + c div 64 mod 64 * 64 + c mod 64 = (c :: nat)"
proof -
  have "c div 64 div 64 = c div 4096" by (simp add: div_mult2_eq [symmetric])
  then have "c div 4096 * 64 + c div 64 mod 64 = c div 64" by (metis div_mult_mod_eq)
  moreover have "c div 64 * 64 + c mod 64 = c" by simp
  ultimately show ?thesis by linarith
qed

lemma split_64_4:
  "c div 262144 * 262144 + c div 4096 mod 64 * 4096 + c div 64 mod 64 * 64 + c mod 64 = (c :: nat)"
proof -
  have "c div 4096 div 64 = c div 262144" by (simp add: div_mult2_eq [symmetric])
  then have "c div 262144 * 64 + c div 4096 mod 64 = c div 4096" by (metis div_mult_mod_eq)
  then show ?thesis using split_64 [of c] by linarith
qed

lemma decode_utf8_char:
  assumes "is_scalar c"
  shows "decode_char (utf8_char c @ bs) = Some (c, bs)"
proof -
  consider "c < 128" | "128 \<le> c" "c < 2048" | "2048 \<le> c" "c < 65536" | "65536 \<le> c"
    by linarith
  then show ?thesis
  proof cases
    case 1
    then show ?thesis by (simp add: utf8_char_def)
  next
    case 2
    then have "c div 64 < 32" by (simp add: less_mult_imp_div_less)
    moreover have "2 \<le> c div 64" using 2 by (simp add: less_eq_div_iff_mult_less_eq)
    ultimately show ?thesis using 2
      by (simp add: utf8_char_def cont_def join2_def)
  next
    case 3
    then have "c div 4096 < 16" by (simp add: less_mult_imp_div_less)
    then show ?thesis using 3 assms
      by (simp add: utf8_char_def cont_def join3_def split_64 is_scalar_def)
  next
    case 4
    then have "c div 262144 < 8" using assms by (simp add: less_mult_imp_div_less is_scalar_def)
    then show ?thesis using 4 assms
      by (simp add: utf8_char_def cont_def join4_def split_64_4 is_scalar_def)
  qed
qed

lemma utf8_char_not_Nil [simp]: "utf8_char c \<noteq> []"
  by (simp add: utf8_char_def)

lemma decode_utf8_bytes: "encodable s \<Longrightarrow> decode_utf8 (utf8_bytes s) = Inr s"
proof (induction s)
  case Nil
  then show ?case by (simp add: utf8_bytes_def)
next
  case (Cons c s)
  then have c: "decode_char (utf8_char c @ utf8_bytes s) = Some (c, utf8_bytes s)"
    and s: "decode_utf8 (utf8_bytes s) = Inr s"
    by (simp_all add: encodable_def decode_utf8_char)
  have eq: "utf8_bytes (c # s) = utf8_char c @ utf8_bytes s" by (simp add: utf8_bytes_def)
  show ?case by (simp add: eq decode_utf8.simps [of "utf8_char c @ utf8_bytes s"] c s)
qed

lemma digit_64: "z < 64 \<Longrightarrow> (a * 64 + z) div 64 = a \<and> (a * 64 + z) mod 64 = (z :: nat)"
  by simp

lemma join2_utf8:
  assumes "192 \<le> unat b" "unat b < 224" "cont c" "128 \<le> join2 b c"
  shows "is_scalar (join2 b c) \<and> utf8_char (join2 b c) = [b, c]"
proof -
  define x y where "x = unat b - 192" and "y = unat c - 128"
  have r: "x < 32" "y < 64" and b: "unat b = 192 + x" "unat c = 128 + y"
    using assms by (auto simp: x_def y_def cont_def)
  have j: "join2 b c = x * 64 + y" by (simp add: join2_def b)
  have "x * 64 + y < 2048" using r by linarith
  moreover have "byte (192 + x) = b" "byte (128 + y) = c"
    using b by (auto intro: byte_eqI)
  ultimately show ?thesis using assms(4) digit_64 [OF r(2), of x]
    by (simp add: utf8_char_def is_scalar_def is_surrogate_def j)
qed

lemma join3_utf8:
  assumes "224 \<le> unat b" "unat b < 240" "cont c" "cont d" "2048 \<le> join3 b c d"
    "\<not> is_surrogate (join3 b c d)"
  shows "is_scalar (join3 b c d) \<and> utf8_char (join3 b c d) = [b, c, d]"
proof -
  define x y z where "x = unat b - 224" and "y = unat c - 128" and "z = unat d - 128"
  have r: "x < 16" "y < 64" "z < 64" and b: "unat b = 224 + x" "unat c = 128 + y" "unat d = 128 + z"
    using assms by (auto simp: x_def y_def z_def cont_def)
  define n where "n = (x * 64 + y) * 64 + z"
  have j: "join3 b c d = n" by (simp add: join3_def b n_def algebra_simps)
  have d: "n div 64 = x * 64 + y" "n mod 64 = z"
    unfolding n_def using digit_64 [OF r(3)] by blast+
  have "n div 4096 = n div 64 div 64" by (simp add: div_mult2_eq [symmetric])
  then have d': "n div 4096 = x" using digit_64 [OF r(2)] by (simp only: d(1))
  have d'': "n div 64 mod 64 = y" using digit_64 [OF r(2)] by (simp only: d(1))
  have "n < 65536" using r by (simp add: n_def algebra_simps)
  moreover have "byte (224 + x) = b" "byte (128 + y) = c" "byte (128 + z) = d"
    using b by (auto intro: byte_eqI)
  ultimately show ?thesis using assms(5,6)
    by (simp add: utf8_char_def is_scalar_def j d(2) d' d'')
qed

lemma join4_utf8:
  assumes "240 \<le> unat b" "unat b < 248" "cont c" "cont d" "cont e" "65536 \<le> join4 b c d e"
    "join4 b c d e < 1114112"
  shows "is_scalar (join4 b c d e) \<and> utf8_char (join4 b c d e) = [b, c, d, e]"
proof -
  define w x y z where "w = unat b - 240" and "x = unat c - 128" and "y = unat d - 128"
    and "z = unat e - 128"
  have r: "w < 8" "x < 64" "y < 64" "z < 64"
    and b: "unat b = 240 + w" "unat c = 128 + x" "unat d = 128 + y" "unat e = 128 + z"
    using assms by (auto simp: w_def x_def y_def z_def cont_def)
  define n where "n = ((w * 64 + x) * 64 + y) * 64 + z"
  have j: "join4 b c d e = n" by (simp add: join4_def b n_def algebra_simps)
  have d: "n div 64 = (w * 64 + x) * 64 + y" "n mod 64 = z"
    unfolding n_def using digit_64 [OF r(4)] by blast+
  have "n div 4096 = n div 64 div 64" by (simp add: div_mult2_eq [symmetric])
  then have d1: "n div 4096 = w * 64 + x" using digit_64 [OF r(3)] by (simp only: d(1))
  have "n div 262144 = n div 4096 div 64" by (simp add: div_mult2_eq [symmetric])
  then have d2: "n div 262144 = w" using digit_64 [OF r(2)] by (simp only: d1)
  have d3: "n div 64 mod 64 = y" "n div 4096 mod 64 = x"
    using digit_64 [OF r(3)] digit_64 [OF r(2)] by (simp_all only: d(1) d1)
  have "byte (240 + w) = b" "byte (128 + x) = c" "byte (128 + y) = d" "byte (128 + z) = e"
    using b by (auto intro: byte_eqI)
  then show ?thesis using assms(6,7)
    by (simp add: utf8_char_def is_scalar_def is_surrogate_def j d(2) d2 d3)
qed

lemma decode_char_Some:
  assumes "decode_char bs = Some (c, bs')"
  shows "is_scalar c \<and> bs = utf8_char c @ bs'"
proof (cases bs)
  case Nil
  with assms show ?thesis by simp
next
  case (Cons b r)
  show ?thesis using assms unfolding Cons
    by (auto simp: join2_utf8 join3_utf8 join4_utf8 utf8_char_def [of "unat b"] is_scalar_def [of "unat b"]
        is_surrogate_def [of "unat b"] split: if_splits list.splits)
qed

lemma decode_utf8_Inr: "decode_utf8 bs = Inr s \<Longrightarrow> encodable s \<and> bs = utf8_bytes s"
proof (induction bs arbitrary: s rule: decode_utf8.induct)
  case (1 bs)
  show ?case
  proof (cases "decode_char bs")
    case None
    with "1.prems" show ?thesis
      by (auto simp: decode_utf8.simps [of bs] encodable_def utf8_bytes_def split: if_splits)
  next
    case (Some p)
    then obtain c bs' where p: "decode_char bs = Some (c, bs')" by (cases p) auto
    then have ne: "bs \<noteq> []" by auto
    with "1.prems" p obtain s' where s': "decode_utf8 bs' = Inr s'" "s = c # s'"
      by (auto simp: decode_utf8.simps [of bs] result_simps)
    from "1.IH" [OF ne p refl s'(1)] decode_char_Some [OF p] show ?thesis
      by (simp add: s'(2) encodable_def utf8_bytes_def)
  qed
qed

interpretation utf8: strict_codec utf8_bytes decode_utf8 encodable
  by unfold_locales (auto simp: decode_utf8_bytes dest: decode_utf8_Inr)

lemma encode_utf8_Inr_iff [result_simps]:
  "encode_utf8 s = Inr b \<longleftrightarrow> encodable s \<and> b = utf8_bytes s"
  by (auto simp: encode_utf8_def)

lemma encode_utf8_inject:
  "encode_utf8 s = Inr b \<Longrightarrow> encode_utf8 t = Inr b \<Longrightarrow> s = t"
  by (auto simp: result_simps utf8.enc_inject)

lemma is_ascii_encodable: "is_ascii s \<Longrightarrow> encodable s"
  by (auto simp: is_ascii_def encodable_def is_scalar_def is_surrogate_def)

lemma utf8_bytes_ascii: "is_ascii s \<Longrightarrow> utf8_bytes s = map byte s"
  by (induction s) (auto simp: utf8_bytes_def is_ascii_def utf8_char_def)

lemma encodable_append [simp]: "encodable (s @ t) \<longleftrightarrow> encodable s \<and> encodable t"
  by (auto simp: encodable_def)

lemma encodable_Cons: "encodable (c # t) \<longleftrightarrow> is_scalar c \<and> encodable t"
  by (auto simp: encodable_def)

lemma encodable_Nil [simp]: "encodable []"
  by (simp add: encodable_def)

lemma encodable_u [simp]: "encodable (u s)"
  using u_less_256 [of _ s] by (fastforce simp: encodable_def is_scalar_def is_surrogate_def)

lemma length_utf8_bytes: "length s \<le> length (utf8_bytes s)"
proof (induction s)
  case (Cons c s)
  have "1 \<le> length (utf8_char c)" by (simp add: utf8_char_def)
  with Cons show ?case by (simp add: utf8_bytes_def)
qed (simp add: utf8_bytes_def)


lemma decode_utf8_error: "decode_utf8 bs = Inl e \<Longrightarrow> e = UnicodeDecodeError"
proof (induction bs rule: decode_utf8.induct)
  case (1 bs)
  then show ?case
    by (subst (asm) (2) decode_utf8.simps) (auto simp: result_simps split: if_splits option.splits)
qed

end
