(* ===== verification/Sha256.thy ===== *)
theory Sha256
  imports Prelude
begin

text \<open>
  \<open>hashlib.sha256\<close>: padding to 64-byte blocks, the message schedule of 64 words, the
  compression rounds, and the 32-byte digest with its hexadecimal text. Arithmetic is on 32-bit
  words and wraps around. What the components rely on is the shape of the result: 32 bytes, and 64
  lower-case hexadecimal digits; the function itself is concrete, so it can be evaluated.
\<close>

section \<open>Constants and bit functions\<close>

type_synonym w32 = "32 word"

definition round_constants :: "w32 list" where
  "round_constants =
   [1116352408, 1899447441, 3049323471, 3921009573, 961987163, 1508970993, 2453635748, 2870763221,
    3624381080, 310598401, 607225278, 1426881987, 1925078388, 2162078206, 2614888103, 3248222580,
    3835390401, 4022224774, 264347078, 604807628, 770255983, 1249150122, 1555081692, 1996064986,
    2554220882, 2821834349, 2952996808, 3210313671, 3336571891, 3584528711, 113926993, 338241895,
    666307205, 773529912, 1294757372, 1396182291, 1695183700, 1986661051, 2177026350, 2456956037,
    2730485921, 2820302411, 3259730800, 3345764771, 3516065817, 3600352804, 4094571909, 275423344,
    430227734, 506948616, 659060556, 883997877, 958139571, 1322822218, 1537002063, 1747873779,
    1955562222, 2024104815, 2227730452, 2361852424, 2428436474, 2756734187, 3204031479, 3329325298]"

type_synonym hash_state = "w32 \<times> w32 \<times> w32 \<times> w32 \<times> w32 \<times> w32 \<times> w32 \<times> w32"

definition initial_hash :: hash_state where
  "initial_hash = (1779033703, 3144134277, 1013904242, 2773480762,
     1359893119, 2600822924, 528734635, 1541459225)"

unbundle bit_operations_syntax

definition choose_bits :: "w32 \<Rightarrow> w32 \<Rightarrow> w32 \<Rightarrow> w32" where
  "choose_bits x y z = (x AND y) XOR (NOT x AND z)"

definition majority_bits :: "w32 \<Rightarrow> w32 \<Rightarrow> w32 \<Rightarrow> w32" where
  "majority_bits x y z = (x AND y) XOR (x AND z) XOR (y AND z)"

definition mix3 :: "nat \<Rightarrow> nat \<Rightarrow> nat \<Rightarrow> w32 \<Rightarrow> w32" where
  "mix3 i j k x = word_rotr i x XOR word_rotr j x XOR word_rotr k x"

definition mix2 :: "nat \<Rightarrow> nat \<Rightarrow> nat \<Rightarrow> w32 \<Rightarrow> w32" where
  "mix2 i j k x = word_rotr i x XOR word_rotr j x XOR drop_bit k x"

definition word_of_bytes :: "8 word \<Rightarrow> 8 word \<Rightarrow> 8 word \<Rightarrow> 8 word \<Rightarrow> w32" where
  "word_of_bytes a b c d =
     push_bit 24 (ucast a) OR push_bit 16 (ucast b) OR push_bit 8 (ucast c) OR ucast d"

definition bytes_of_word :: "w32 \<Rightarrow> bytes" where
  "bytes_of_word w =
     [ucast (drop_bit 24 w), ucast (drop_bit 16 w), ucast (drop_bit 8 w), ucast w]"


section \<open>Padding and blocks\<close>

text \<open>The \<open>n\<close> base-256 digits of a number, most significant first, and back.\<close>

fun be_bytes :: "nat \<Rightarrow> nat \<Rightarrow> bytes" where
  "be_bytes 0 n = []"
| "be_bytes (Suc k) n = be_bytes k (n div 256) @ [byte (n mod 256)]"

definition be_nat :: "bytes \<Rightarrow> nat" where
  "be_nat bs = foldl (\<lambda>n b. n * 256 + unat b) 0 bs"

definition pad_message :: "bytes \<Rightarrow> bytes" where
  "pad_message m =
     m @ [128] @ replicate ((119 - length m mod 64) mod 64) 0 @ be_bytes 8 (8 * length m)"

fun words_of :: "bytes \<Rightarrow> w32 list" where
  "words_of (a # b # c # d # bs) = word_of_bytes a b c d # words_of bs"
| "words_of _ = []"

text \<open>The schedule is kept newest word first: \<open>ws ! 15\<close> is the word sixteen rounds back.\<close>

fun expand :: "nat \<Rightarrow> w32 list \<Rightarrow> w32 list" where
  "expand 0 ws = ws"
| "expand (Suc n) ws =
     expand n ((mix2 17 19 10 (ws ! 1) + ws ! 6 + mix2 7 18 3 (ws ! 14) + ws ! 15) # ws)"

definition schedule :: "bytes \<Rightarrow> w32 list" where
  "schedule block = rev (expand 48 (rev (words_of block)))"

section \<open>Compression\<close>

fun hash_round :: "w32 \<times> w32 \<Rightarrow> hash_state \<Rightarrow> hash_state" where
  "hash_round (k, w) (a, b, c, d, e, f, g, h) =
     (let t1 = h + mix3 6 11 25 e + choose_bits e f g + k + w;
          t2 = mix3 2 13 22 a + majority_bits a b c
      in (t1 + t2, a, b, c, d + t1, e, f, g))"

fun add_state :: "hash_state \<Rightarrow> hash_state \<Rightarrow> hash_state" where
  "add_state (a, b, c, d, e, f, g, h) (a', b', c', d', e', f', g', h') =
     (a + a', b + b', c + c', d + d', e + e', f + f', g + g', h + h')"

definition compress :: "bytes \<Rightarrow> hash_state \<Rightarrow> hash_state" where
  "compress block s = add_state (fold hash_round (zip round_constants (schedule block)) s) s"

function blocks_of :: "bytes \<Rightarrow> bytes list" where
  "blocks_of bs = (if bs = [] then [] else take 64 bs # blocks_of (drop 64 bs))"
  by pat_completeness auto
termination
  by (relation "measure length") auto

declare blocks_of.simps [simp del]

fun digest_of :: "hash_state \<Rightarrow> bytes" where
  "digest_of (a, b, c, d, e, f, g, h) =
     concat (map bytes_of_word [a, b, c, d, e, f, g, h])"

definition sha256 :: "bytes \<Rightarrow> bytes" where
  "sha256 m = digest_of (fold compress (blocks_of (pad_message m)) initial_hash)"

section \<open>Hexadecimal text\<close>

definition hex_char :: "nat \<Rightarrow> nat" where
  "hex_char n = (if n < 10 then 48 + n else 87 + n)"

definition hex_bytes :: "bytes \<Rightarrow> pystr" where
  "hex_bytes bs = concat (map (\<lambda>b. [hex_char (unat b div 16), hex_char (unat b mod 16)]) bs)"

definition is_lower_hex :: "nat \<Rightarrow> bool" where
  "is_lower_hex c \<longleftrightarrow> 48 \<le> c \<and> c \<le> 57 \<or> 97 \<le> c \<and> c \<le> 102"

section \<open>Shape of the digest\<close>

lemma length_be_bytes [simp]: "length (be_bytes k n) = k"
  by (induction k arbitrary: n) auto

lemma length_digest_of [simp]: "length (digest_of s) = 32"
  by (cases s rule: digest_of.cases) (simp add: bytes_of_word_def)

lemma length_sha256 [simp]: "length (sha256 m) = 32"
  by (simp add: sha256_def)

lemma sha256_not_Nil [simp]: "sha256 m \<noteq> []"
  using length_sha256 [of m] by (metis list.size(3) zero_neq_numeral)

lemma length_hex_bytes [simp]: "length (hex_bytes bs) = 2 * length bs"
  by (induction bs) (simp_all add: hex_bytes_def)

lemma hex_char_lower: "n < 16 \<Longrightarrow> is_lower_hex (hex_char n)"
  by (auto simp: hex_char_def is_lower_hex_def)

lemma hex_bytes_lower: "c \<in> set (hex_bytes bs) \<Longrightarrow> is_lower_hex c"
proof (induction bs)
  case (Cons b bs)
  have "unat b div 16 < 16" "unat b mod 16 < 16"
    using unat_less_256 [of b] by (simp_all add: less_mult_imp_div_less)
  with Cons show ?case by (auto simp: hex_bytes_def hex_char_lower)
qed (simp add: hex_bytes_def)

lemma hex_char_inject: "m < 16 \<Longrightarrow> n < 16 \<Longrightarrow> hex_char m = hex_char n \<Longrightarrow> m = n"
  by (auto simp: hex_char_def split: if_splits)

lemma byte_halves:
  "unat (a :: 8 word) div 16 = unat b div 16 \<Longrightarrow> unat a mod 16 = unat b mod 16 \<Longrightarrow> a = b"
  by (metis div_mult_mod_eq unsigned_word_eqI)

lemma hex_pair_inject:
  assumes "hex_char (unat (a :: 8 word) div 16) = hex_char (unat b div 16)"
    and "hex_char (unat a mod 16) = hex_char (unat b mod 16)"
  shows "a = b"
proof -
  have "unat a div 16 < 16" "unat b div 16 < 16"
    using unat_less_256 [of a] unat_less_256 [of b] by (simp_all add: less_mult_imp_div_less)
  from hex_char_inject [OF this assms(1)] have "unat a div 16 = unat b div 16" .
  moreover have "unat a mod 16 = unat b mod 16"
    by (rule hex_char_inject [OF _ _ assms(2)]) simp_all
  ultimately show ?thesis by (rule byte_halves)
qed

lemma hex_bytes_Cons:
  "hex_bytes (x # a) = hex_char (unat x div 16) # hex_char (unat x mod 16) # hex_bytes a"
  by (simp add: hex_bytes_def)

lemma hex_bytes_inject: "hex_bytes a = hex_bytes b \<Longrightarrow> a = b"
proof (induction a arbitrary: b)
  case Nil
  then show ?case by (cases b) (simp_all add: hex_bytes_def)
next
  case (Cons x a)
  then obtain y b' where "b = y # b'" by (cases b) (simp_all add: hex_bytes_def)
  with Cons show ?case
    by (simp only: hex_bytes_Cons list.inject) (blast intro: hex_pair_inject)
qed

end
