(* ===== verification/Hashchain.thy ===== *)
theory Hashchain
  imports Json_Laws Utf8 Sha256
begin

text \<open>
  \<open>src/sentinel_core/hashchain.py\<close>: canonical JSON, the prefixed SHA-256 digest, and the chain
  link of an evidence record, which leaves out the signature value. The lemmas say what a link
  binds: equal canonical texts mean equal records up to key order and the signature value.
\<close>

section \<open>The code\<close>

definition ZERO_HASH :: pystr where
  "ZERO_HASH = u ''sha256:'' @ replicate 64 48"

record chain_link =
  canonical_json :: pystr
  digest :: pystr

definition canonicalize_json :: "pydict \<Rightarrow> pystr" where
  "canonicalize_json value = json_encode (sort_keys (PDict value))"

datatype str_or_bytes = Text pystr | Raw bytes

definition sha256_prefixed :: "str_or_bytes \<Rightarrow> exc + pystr" where
  "sha256_prefixed data =
     bindR (case data of Text s \<Rightarrow> encode_utf8 s | Raw b \<Rightarrow> Inr b)
       (\<lambda>b. Inr (u ''sha256:'' @ hex_bytes (sha256 b)))"

text \<open>The copy of the record that is hashed: the signature value is blanked.\<close>

definition unsigned_record :: "pydict \<Rightarrow> pydict" where
  "unsigned_record record =
     (case dget record (u ''signature'') of
        PDict signature \<Rightarrow>
          dset record (u ''signature'') (PDict (dset signature (u ''value'') (PStr [])))
      | _ \<Rightarrow> record)"

definition compute_chain_link :: "pydict \<Rightarrow> exc + chain_link" where
  "compute_chain_link record =
     (let canonical = canonicalize_json (unsigned_record record)
      in bindR (sha256_prefixed (Text canonical))
           (\<lambda>d. Inr \<lparr>canonical_json = canonical, digest = d\<rparr>))"

definition verify_previous_hash :: "pydict \<Rightarrow> pystr \<Rightarrow> bool" where
  "verify_previous_hash record expected_previous_hash \<longleftrightarrow>
     dget record (u ''previous_hash'') = PStr expected_previous_hash"

section \<open>The prefixed digest\<close>

text \<open>\<open>sha256:\<close> and 64 lower-case hexadecimal digits.\<close>

definition sha256_urn :: "pystr \<Rightarrow> bool" where
  "sha256_urn s \<longleftrightarrow> take 7 s = u ''sha256:'' \<and> length s = 71 \<and> (\<forall>c \<in> set (drop 7 s). is_lower_hex c)"

lemma sha256_urn_digest [simp]: "sha256_urn (u ''sha256:'' @ hex_bytes (sha256 b))"
  using hex_bytes_lower [of _ "sha256 b"] by (simp add: sha256_urn_def)

lemma sha256_prefixed_urn: "sha256_prefixed data = Inr d \<Longrightarrow> sha256_urn d"
  by (auto simp: sha256_prefixed_def result_simps)

lemma sha256_urn_ZERO_HASH: "sha256_urn ZERO_HASH"
  by (simp add: sha256_urn_def ZERO_HASH_def is_lower_hex_def)

lemma sha256_prefixed_Text:
  "encodable s \<Longrightarrow> sha256_prefixed (Text s) = Inr (u ''sha256:'' @ hex_bytes (sha256 (utf8_bytes s)))"
  by (simp add: sha256_prefixed_def encode_utf8_def)

lemma sha256_prefixed_Text_Inr:
  "sha256_prefixed (Text s) = Inr d \<longleftrightarrow>
     encodable s \<and> d = u ''sha256:'' @ hex_bytes (sha256 (utf8_bytes s))"
  by (auto simp: sha256_prefixed_def result_simps)

lemma sha256_prefixed_error: "sha256_prefixed data = Inl e \<Longrightarrow> e = UnicodeEncodeError"
  by (auto simp: sha256_prefixed_def result_simps encode_utf8_def split: str_or_bytes.splits if_splits)

text \<open>Two byte strings collide if they differ and have the same digest.\<close>

definition collision :: "bytes \<Rightarrow> bytes \<Rightarrow> bool" where
  "collision a b \<longleftrightarrow> a \<noteq> b \<and> sha256 a = sha256 b"

lemma sha256_prefixed_binds:
  assumes "sha256_prefixed (Text s) = Inr d" and "sha256_prefixed (Text t) = Inr d"
  shows "s = t \<or> collision (utf8_bytes s) (utf8_bytes t)"
  using assms
  by (auto simp: sha256_prefixed_Text_Inr collision_def utf8.enc_inject dest: hex_bytes_inject)

section \<open>Canonical JSON\<close>

text \<open>
  Python's \<open>==\<close> on JSON values looks past the order of a dictionary's keys; here it is
  equality after sorting them.
\<close>

definition same_value :: "pyval \<Rightarrow> pyval \<Rightarrow> bool" where
  "same_value v w \<longleftrightarrow> sort_keys v = sort_keys w"

lemma same_value_refl [simp]: "same_value v v"
  by (simp add: same_value_def)

lemma sort_keys_PStr_iff [simp]: "sort_keys v = PStr s \<longleftrightarrow> v = PStr s"
  by (cases v) auto

lemma same_value_PStr [simp]: "same_value (PStr s) v \<longleftrightarrow> v = PStr s"
  by (cases v) (auto simp: same_value_def)

lemma map_of_set_eq:
  assumes "distinct (map fst d)" and "distinct (map fst e)" and "set d = set e"
  shows "map_of d = map_of e"
proof
  fix k
  have "map_of d k = Some v \<longleftrightarrow> map_of e k = Some v" for v using assms by simp
  then show "map_of d k = map_of e k" by (metis not_None_eq)
qed

lemma map_of_sort_key: "distinct (map fst d) \<Longrightarrow> map_of (sort_key fst d) = map_of d"
  by (rule map_of_set_eq) (simp_all add: distinct_map_sort_key)

lemma sort_keys_PDict_lookup:
  assumes "sort_keys (PDict d) = sort_keys (PDict e)"
    and "distinct (map fst d)" and "distinct (map fst e)"
  shows "map_option sort_keys (map_of d k) = map_option sort_keys (map_of e k)"
proof -
  let ?f = "\<lambda>p. (fst p, sort_keys (snd p))"
  have sorted: "map_of (sort_key fst (map ?f c)) = map_option sort_keys \<circ> map_of c"
    if "distinct (map fst c)" for c
    using that map_of_map [of sort_keys c]
    by (simp add: map_of_sort_key comp_def case_prod_unfold)
  have "sort_key fst (map ?f d) = sort_key fst (map ?f e)" using assms(1) by simp
  with sorted [OF assms(2)] sorted [OF assms(3)]
  have "map_option sort_keys \<circ> map_of d = map_option sort_keys \<circ> map_of e" by simp
  then show ?thesis by (metis comp_apply)
qed

lemma same_value_PDict:
  assumes "same_value (PDict d) (PDict e)" and "distinct (map fst d)" and "distinct (map fst e)"
  shows "dhas d k \<longleftrightarrow> dhas e k" and "same_value (dget d k) (dget e k)"
  using sort_keys_PDict_lookup [OF assms(1) [unfolded same_value_def] assms(2,3), of k]
  by (cases "map_of d k"; cases "map_of e k"; simp add: dhas_def dget_def same_value_def)+

lemma sort_keys_cong_dset:
  "dset (dset d k v) k w = dset d k w"
  by (induction d) auto

lemma canonicalize_json_binds:
  assumes "json_ok (PDict d)" and "json_ok (PDict e)"
    and "canonicalize_json d = canonicalize_json e"
  shows "same_value (PDict d) (PDict e)"
  using sorted_encode_inject [OF assms(1,2)] assms(3)
  by (simp add: canonicalize_json_def same_value_def)

lemma set_dset: "set (dset d k v) \<subseteq> insert (k, v) (set d)"
  by (induction d) auto

lemma json_ok_dset: "json_ok (PDict d) \<Longrightarrow> json_ok v \<Longrightarrow> json_ok (PDict (dset d k v))"
  using set_dset [of d k v] by (auto simp: distinct_dset)

lemma json_ok_dget: "json_ok (PDict d) \<Longrightarrow> json_ok (dget d k)"
  by (auto simp: dget_def dest: map_of_SomeD split: option.splits)

section \<open>What a chain link binds\<close>

lemma json_ok_unsigned: "json_ok (PDict r) \<Longrightarrow> json_ok (PDict (unsigned_record r))"
  using json_ok_dget [of r "u ''signature''"]
  by (auto simp: unsigned_record_def intro!: json_ok_dset split: pyval.splits
      simp del: json_ok.simps(4))

lemma dget_unsigned_record:
  "dget (unsigned_record r) k =
     (if k = u ''signature''
      then (case dget r k of PDict s \<Rightarrow> PDict (dset s (u ''value'') (PStr [])) | v \<Rightarrow> v)
      else dget r k)"
  by (auto simp: unsigned_record_def dget_dset split: pyval.splits)

lemma compute_chain_link_Inr:
  "compute_chain_link r = Inr l \<longleftrightarrow>
     canonical_json l = canonicalize_json (unsigned_record r) \<and>
     sha256_prefixed (Text (canonical_json l)) = Inr (digest l)"
  by (cases l) (auto simp: compute_chain_link_def Let_def result_simps)

lemma compute_chain_link_error: "compute_chain_link r = Inl e \<Longrightarrow> e = UnicodeEncodeError"
  by (auto simp: compute_chain_link_def Let_def result_simps dest: sha256_prefixed_error)

text \<open>The chain link of a record does not depend on the value of its signature.\<close>

theorem chain_link_ignores_signature_value:
  fixes r sig :: pydict
  shows "compute_chain_link (dset r (u ''signature'') (PDict (dset sig (u ''value'') v))) =
     compute_chain_link (dset r (u ''signature'') (PDict (dset sig (u ''value'') w)))"
proof -
  have "unsigned_record (dset r (u ''signature'') (PDict (dset sig (u ''value'') v))) =
      dset r (u ''signature'') (PDict (dset sig (u ''value'') (PStr [])))" for v
    by (simp add: unsigned_record_def dget_dset sort_keys_cong_dset)
  then show ?thesis by (simp add: compute_chain_link_def)
qed

text \<open>
  C3 Two JSON records with the same chain digest are the same record, up to the order of keys and
  the signature value, unless their canonical texts are a SHA-256 collision.
\<close>

theorem chain_link_binds_record:
  assumes "compute_chain_link r = Inr l" and "compute_chain_link r' = Inr l'"
    and "digest l = digest l'" and "json_ok (PDict r)" and "json_ok (PDict r')"
  shows "same_value (PDict (unsigned_record r)) (PDict (unsigned_record r')) \<or>
     collision (utf8_bytes (canonical_json l)) (utf8_bytes (canonical_json l'))"
proof (cases "canonical_json l = canonical_json l'")
  case True
  then have "canonicalize_json (unsigned_record r) = canonicalize_json (unsigned_record r')"
    using assms(1,2) by (simp add: compute_chain_link_Inr)
  then show ?thesis using assms(4,5) by (blast intro: canonicalize_json_binds json_ok_unsigned)
next
  case False
  moreover have "sha256_prefixed (Text (canonical_json l)) = Inr (digest l)"
    "sha256_prefixed (Text (canonical_json l')) = Inr (digest l)"
    using assms(1-3) unfolding compute_chain_link_Inr by metis+
  ultimately show ?thesis by (blast dest: sha256_prefixed_binds)
qed

definition sample_record :: "pystr \<Rightarrow> pydict" where
  "sample_record v =
     [(u ''source'', PStr (u ''ci'')),
      (u ''signature'', PDict [(u ''alg'', PStr (u ''EdDSA'')), (u ''value'', PStr v)])]"

lemma sample_record_ok: "json_ok (PDict (sample_record v))"
  by (simp add: sample_record_def)

lemma unsigned_sample_record: "unsigned_record (sample_record v) = sample_record []"
  by (simp add: sample_record_def unsigned_record_def)

lemma sample_record_encodable: "encodable (canonicalize_json (sample_record []))"
  by (simp add: sample_record_def canonicalize_json_def json_str_def json_escape_def u_def
      encodable_def is_scalar_def is_surrogate_def insort_key_def)

theorem chain_link_binds_record_witness:
  "same_value (PDict (sample_record [])) (PDict (sample_record [])) \<or>
   collision (utf8_bytes (canonicalize_json (sample_record [])))
     (utf8_bytes (canonicalize_json (sample_record [])))"
proof -
  have link: "\<exists>l. compute_chain_link (sample_record v) = Inr l" for v
    using sample_record_encodable
    by (simp add: compute_chain_link_def unsigned_sample_record sha256_prefixed_Text Let_def)
  obtain l where l: "compute_chain_link (sample_record (u ''aa'')) = Inr l" using link by blast
  obtain l' where l': "compute_chain_link (sample_record (u ''bb'')) = Inr l'" using link by blast
  have eq: "canonical_json l = canonical_json l'" "digest l = digest l'"
    using l l' by (auto simp: compute_chain_link_Inr unsigned_sample_record)
  have "canonical_json l' = canonicalize_json (sample_record [])"
    using l' by (simp add: compute_chain_link_Inr unsigned_sample_record)
  with chain_link_binds_record [OF l l' eq(2) sample_record_ok sample_record_ok]
  show ?thesis by (simp only: unsigned_sample_record eq(1))
qed

end
