(* ===== verification/Base64.thy ===== *)
theory Base64
  imports Utf8
begin

text \<open>
  Python's \<open>base64\<close> module as the repository uses it: \<open>b64encode\<close>, the URL-safe alphabet,
  and \<open>binascii.a2b_base64\<close> in its lax mode (which skips every character outside the alphabet
  and stops at the padding) and its strict mode. The helper \<open>_b64url_encode\<close> of
  \<open>receipt.py\<close>, \<open>external_signing.py\<close> and \<open>pilot.py\<close> and the lax \<open>_b64url_decode\<close> of
  \<open>receipt.py\<close> (\<open>decode_urlsafe\<close> in \<open>crypto.py\<close>) are here; decoding inverts encoding.
\<close>

section \<open>Alphabet\<close>

definition b64_char :: "nat \<Rightarrow> nat" where
  "b64_char n = (if n < 26 then n + 65 else if n < 52 then n + 71 else if n < 62 then n - 4
                 else if n = 62 then 43 else 47)"

definition b64_val :: "nat \<Rightarrow> nat option" where
  "b64_val c = (if 65 \<le> c \<and> c \<le> 90 then Some (c - 65)
                else if 97 \<le> c \<and> c \<le> 122 then Some (c - 71)
                else if 48 \<le> c \<and> c \<le> 57 then Some (c + 4)
                else if c = 43 then Some 62 else if c = 47 then Some 63 else None)"

lemma b64_val_char [simp]: "n < 64 \<Longrightarrow> b64_val (b64_char n) = Some n"
  by (auto simp: b64_val_def b64_char_def)

lemma b64_char_not_pad [simp]: "b64_char n \<noteq> 61"
  by (auto simp: b64_char_def)

lemma b64_char_less [simp]: "n < 64 \<Longrightarrow> b64_char n < 256"
  by (auto simp: b64_char_def)

section \<open>Encoding\<close>

fun b64encode :: "bytes \<Rightarrow> pystr" where
  "b64encode [] = []"
| "b64encode [a] = [b64_char (unat a div 4), b64_char (unat a mod 4 * 16), 61, 61]"
| "b64encode [a, b] =
     [b64_char (unat a div 4), b64_char (unat a mod 4 * 16 + unat b div 16),
      b64_char (unat b mod 16 * 4), 61]"
| "b64encode (a # b # c # bs) =
     [b64_char (unat a div 4), b64_char (unat a mod 4 * 16 + unat b div 16),
      b64_char (unat b mod 16 * 4 + unat c div 64), b64_char (unat c mod 64)] @ b64encode bs"

definition to_urlsafe :: "nat \<Rightarrow> nat" where
  "to_urlsafe c = (if c = 43 then 45 else if c = 47 then 95 else c)"

definition from_urlsafe :: "nat \<Rightarrow> nat" where
  "from_urlsafe c = (if c = 45 then 43 else if c = 95 then 47 else c)"

text \<open>\<open>s.rstrip("=")\<close>, and the padding \<open>"=" * (-len(s) % 4)\<close>.\<close>

definition rstrip_pad :: "pystr \<Rightarrow> pystr" where
  "rstrip_pad s = rev (dropWhile (\<lambda>c. c = 61) (rev s))"

definition b64_padding :: "pystr \<Rightarrow> pystr" where
  "b64_padding s = replicate (nat (- int (length s) mod 4)) 61"

definition b64url_encode :: "bytes \<Rightarrow> pystr" where
  "b64url_encode b = rstrip_pad (map to_urlsafe (b64encode b))"

section \<open>Decoding\<close>

text \<open>
  The loop of \<open>a2b_base64\<close>: the position in the current quad, the bits left over from the last
  character, the padding characters seen in a row, and whether padding has started.
\<close>

fun a2b_loop :: "bool \<Rightarrow> nat \<Rightarrow> nat \<Rightarrow> nat \<Rightarrow> bool \<Rightarrow> nat list \<Rightarrow> exc + bytes" where
  "a2b_loop strict quad left pads started [] = (if quad = 0 then Inr [] else Inl BinasciiError)"
| "a2b_loop strict quad left pads started (c # cs) =
     (if c = 61 then
        (if 2 \<le> quad \<and> 4 \<le> quad + pads + 1
         then (if strict \<and> cs \<noteq> [] then Inl BinasciiError else Inr [])
         else a2b_loop strict quad left (if 2 \<le> quad then pads + 1 else pads) True cs)
      else (case b64_val c of
          None \<Rightarrow> if strict then Inl BinasciiError else a2b_loop strict quad left pads started cs
        | Some v \<Rightarrow>
            if strict \<and> started then Inl BinasciiError
            else if quad = 0 then a2b_loop strict 1 v 0 started cs
            else if quad = 1 then
              bindR (a2b_loop strict 2 (v mod 16) 0 started cs)
                (\<lambda>r. Inr (byte (left * 4 + v div 16) # r))
            else if quad = 2 then
              bindR (a2b_loop strict 3 (v mod 4) 0 started cs)
                (\<lambda>r. Inr (byte (left * 16 + v div 4) # r))
            else
              bindR (a2b_loop strict 0 0 0 started cs) (\<lambda>r. Inr (byte (left * 64 + v) # r))))"

definition a2b_base64 :: "bool \<Rightarrow> bytes \<Rightarrow> exc + bytes" where
  "a2b_base64 strict s =
     (if strict \<and> s \<noteq> [] \<and> unat (hd s) = 61 then Inl BinasciiError
      else a2b_loop strict 0 0 0 False (map unat s))"

text \<open>\<open>base64.b64decode(s, altchars=b"-_", validate=strict)\<close>; lax, it is \<open>urlsafe_b64decode(s)\<close>.\<close>

definition urlsafe_b64decode :: "bool \<Rightarrow> bytes \<Rightarrow> exc + bytes" where
  "urlsafe_b64decode strict s = a2b_base64 strict (map (\<lambda>b. byte (from_urlsafe (unat b))) s)"

definition b64url_decode :: "pystr \<Rightarrow> exc + bytes" where
  "b64url_decode v = bindR (encode_ascii (v @ b64_padding v)) (urlsafe_b64decode False)"

section \<open>Decoding inverts encoding\<close>

lemma byte_split_4 [simp]: "byte (unat a div 4 * 4 + unat a mod 4) = a"
  by (simp del: byte_unat add: byte_eqI)

lemma byte_split_16 [simp]: "byte (unat a div 16 * 16 + unat a mod 16) = a"
  by (simp del: byte_unat add: byte_eqI)

lemma byte_split_16' [simp]: "byte (unat a mod 16 + unat a div 16 * 16) = a"
  by (simp add: byte_eqI)

lemma sextet_bounds [simp]:
  "unat (a :: 8 word) div 4 < 64"
  "unat (a :: 8 word) mod 4 * 16 + unat (b :: 8 word) div 16 < 64"
  "unat (a :: 8 word) mod 4 * 16 < 64"
  "unat (a :: 8 word) mod 16 * 4 + unat (b :: 8 word) div 64 < 64"
  "unat (a :: 8 word) mod 16 * 4 < 64"
proof -
  have a: "unat a < 256" and b: "unat b < 256" by simp_all
  show "unat a div 4 < 64" using a by (simp add: less_mult_imp_div_less)
  have "unat b div 16 < 16" "unat b div 64 < 4" using b by (simp_all add: less_mult_imp_div_less)
  moreover have "unat a mod 4 \<le> 3" "unat a mod 16 \<le> 15" by (simp_all add: mod_le_divisor less_Suc_eq_le [symmetric])
  ultimately show "unat a mod 4 * 16 + unat b div 16 < 64" "unat a mod 4 * 16 < 64"
    "unat a mod 16 * 4 + unat b div 64 < 64" "unat a mod 16 * 4 < 64" by linarith+
qed

lemma octet_div [simp]: "unat (a :: 8 word) div 16 < 16" "unat (a :: 8 word) div 64 < 4"
  using unat_less_256 [of a] by (simp_all add: less_mult_imp_div_less)

lemma a2b_loop_b64encode: "a2b_loop strict 0 0 0 False (b64encode bs) = Inr bs"
  by (induction bs rule: b64encode.induct) simp_all

text \<open>The unpadded encoding, and how the padding completes it.\<close>

fun b64raw :: "bytes \<Rightarrow> pystr" where
  "b64raw [] = []"
| "b64raw [a] = [b64_char (unat a div 4), b64_char (unat a mod 4 * 16)]"
| "b64raw [a, b] =
     [b64_char (unat a div 4), b64_char (unat a mod 4 * 16 + unat b div 16),
      b64_char (unat b mod 16 * 4)]"
| "b64raw (a # b # c # bs) =
     [b64_char (unat a div 4), b64_char (unat a mod 4 * 16 + unat b div 16),
      b64_char (unat b mod 16 * 4 + unat c div 64), b64_char (unat c mod 64)] @ b64raw bs"

definition url_char :: "nat \<Rightarrow> bool" where
  "url_char c \<longleftrightarrow> 65 \<le> c \<and> c \<le> 90 \<or> 97 \<le> c \<and> c \<le> 122 \<or> 48 \<le> c \<and> c \<le> 57 \<or> c = 45 \<or> c = 95"

lemma padding_plus_4: "nat (- int (4 + n) mod 4) = nat (- int n mod 4)"
  by (simp add: algebra_simps)

lemma b64_padding_quad: "b64_padding (a # b # c # d # s) = b64_padding s"
  using padding_plus_4 [of "length s"] by (simp add: b64_padding_def)

lemma b64_padding_simps [simp]:
  "b64_padding [] = []" "b64_padding [a, b] = [61, 61]" "b64_padding [a, b, c] = [61]"
  by (simp_all add: b64_padding_def numeral_2_eq_2 [symmetric]) (simp_all add: numeral_2_eq_2)

lemma b64_padding_map [simp]: "b64_padding (map f s) = b64_padding s"
  by (simp add: b64_padding_def)

lemma b64encode_raw: "b64encode bs = b64raw bs @ b64_padding (b64raw bs)"
proof (induction bs rule: b64raw.induct)
  case (4 a b c bs)
  then show ?case by (simp add: b64_padding_quad)
qed simp_all

lemma url_char_to_urlsafe [simp]: "n < 64 \<Longrightarrow> url_char (to_urlsafe (b64_char n))"
proof -
  assume "n < 64"
  then consider "n < 26" | "26 \<le> n" "n < 52" | "52 \<le> n" "n < 62" | "n = 62" | "n = 63"
    by linarith
  then show ?thesis
  proof cases
    case 1
    then show ?thesis by (simp add: url_char_def to_urlsafe_def b64_char_def)
  next
    case 2
    then show ?thesis by (simp add: url_char_def to_urlsafe_def b64_char_def)
  next
    case 3
    then obtain k where "n = 52 + k" "k < 10" by (metis add_less_cancel_left le_Suc_ex numeral_plus_numeral add_num_simps)
    then show ?thesis by (simp add: url_char_def to_urlsafe_def b64_char_def)
  qed (simp_all add: url_char_def to_urlsafe_def b64_char_def)
qed

lemma b64_char_in: "n < 64 \<Longrightarrow> b64_char n \<in> b64_char ` {..<64}"
  by blast

lemma b64raw_subset: "set (b64raw bs) \<subseteq> b64_char ` {..<64}"
  by (induction bs rule: b64raw.induct) (simp_all add: b64_char_in)

lemma b64raw_chars: "c \<in> set (b64raw bs) \<Longrightarrow> \<exists>n < 64. c = b64_char n"
  using b64raw_subset [of bs] by auto

lemma rstrip_pad_append: "\<forall>c \<in> set s. c \<noteq> 61 \<Longrightarrow> rstrip_pad (s @ replicate n 61) = s"
proof -
  assume s: "\<forall>c \<in> set s. c \<noteq> 61"
  have "dropWhile (\<lambda>c. c = 61) (replicate n 61 @ rev s) = dropWhile (\<lambda>c. c = 61) (rev s)"
    by (induction n) auto
  also have "\<dots> = rev s"
    using s by (cases "rev s") (auto dest!: arg_cong [where f = set])
  finally show ?thesis by (simp add: rstrip_pad_def)
qed

lemma rstrip_pad_padding: "\<forall>c \<in> set s. c \<noteq> 61 \<Longrightarrow> rstrip_pad (s @ b64_padding t) = s"
  by (simp add: b64_padding_def rstrip_pad_append)

lemma to_urlsafe_pad: "map to_urlsafe (b64_padding s) = b64_padding s"
  by (simp add: b64_padding_def to_urlsafe_def)

lemma to_urlsafe_not_pad: "c \<in> set (b64raw bs) \<Longrightarrow> to_urlsafe c \<noteq> 61"
  using b64raw_chars [of c bs] by (auto simp: to_urlsafe_def)

lemma b64url_encode_raw: "b64url_encode bs = map to_urlsafe (b64raw bs)"
  by (simp add: b64url_encode_def b64encode_raw to_urlsafe_pad rstrip_pad_padding to_urlsafe_not_pad)

lemma b64url_encode_chars: "c \<in> set (b64url_encode bs) \<Longrightarrow> url_char c"
  by (auto simp: b64url_encode_raw dest!: b64raw_chars)

lemma b64url_encode_Nil_iff: "b64url_encode bs = [] \<longleftrightarrow> bs = []"
  by (cases bs rule: b64raw.cases) (simp_all add: b64url_encode_raw)

lemma from_to_urlsafe: "c \<in> set (b64encode bs) \<Longrightarrow> from_urlsafe (to_urlsafe c) = c \<and> to_urlsafe c < 128"
  by (auto simp: b64encode_raw b64_padding_def from_urlsafe_def to_urlsafe_def b64_char_def
      dest!: b64raw_chars split: if_splits)

lemma urlsafe_b64decode_encode:
  "urlsafe_b64decode strict (map byte (b64url_encode bs @ b64_padding (b64url_encode bs))) = Inr bs"
proof -
  let ?t = "map to_urlsafe (b64encode bs)"
  have t: "b64url_encode bs @ b64_padding (b64url_encode bs) = ?t"
    by (simp add: b64url_encode_raw b64encode_raw to_urlsafe_pad)
  have "map (\<lambda>c. byte (from_urlsafe (unat (byte c)))) ?t = map byte (b64encode bs)"
    using from_to_urlsafe [of _ bs] by (fastforce intro!: arg_cong [where f = byte])
  then have inverse: "map (\<lambda>b. byte (from_urlsafe (unat b))) (map byte ?t) = map byte (b64encode bs)"
    by (simp add: comp_def)
  have same: "map unat (map byte (b64encode bs)) = b64encode bs"
  proof (simp add: comp_def, rule map_idI)
    fix c assume c: "c \<in> set (b64encode bs)"
    from from_to_urlsafe [OF c] have "c < 128" by (auto simp: to_urlsafe_def split: if_splits)
    then show "unat (byte c) = c" by simp
  qed
  have first: "map byte (b64encode bs) \<noteq> [] \<longrightarrow> unat (hd (map byte (b64encode bs))) \<noteq> 61"
    by (cases bs rule: b64encode.cases) simp_all
  show ?thesis
    unfolding t urlsafe_b64decode_def inverse a2b_base64_def same a2b_loop_b64encode
    using first by auto
qed

lemma is_ascii_b64url: "is_ascii (b64url_encode bs @ b64_padding (b64url_encode bs))"
  using b64url_encode_chars [of _ bs] by (force simp: is_ascii_def b64_padding_def url_char_def)

lemma b64url_decode_encode: "b64url_decode (b64url_encode bs) = Inr bs"
  by (simp add: b64url_decode_def encode_ascii_def is_ascii_b64url urlsafe_b64decode_encode
      del: map_append)

interpretation b64: codec b64url_encode b64url_decode "\<lambda>_. True"
  by unfold_locales (simp add: b64url_decode_encode)

lemma b64url_encode_inject [simp]: "b64url_encode a = b64url_encode b \<longleftrightarrow> a = b"
  by (rule b64.enc_inject) simp_all

lemma is_ascii_b64url_encode: "is_ascii (b64url_encode bs)"
  using is_ascii_b64url [of bs] by (simp add: is_ascii_def)

lemma length_b64raw: "length (b64raw bs) = (length bs * 4 + 2) div 3"
  by (induction bs rule: b64raw.induct) simp_all

lemma length_b64url_encode: "length (b64url_encode bs) = (length bs * 4 + 2) div 3"
  by (simp add: b64url_encode_raw length_b64raw)

lemma a2b_loop_error: "a2b_loop strict q l p st cs = Inl e \<Longrightarrow> e = BinasciiError"
  by (induction strict q l p st cs rule: a2b_loop.induct)
    (auto simp: result_simps split: if_splits option.splits)

lemma b64url_decode_error: "b64url_decode v = Inl e \<Longrightarrow> is_ValueError e"
  by (auto simp: b64url_decode_def result_simps encode_ascii_def urlsafe_b64decode_def a2b_base64_def
      dest: a2b_loop_error split: if_splits)

end
