(* ===== verification/Crypto.thy ===== *)
theory Crypto
  imports Hashchain Base64
begin

text \<open>
  \<open>src/sentinel_core/crypto.py\<close>: verification of an EdDSA evidence record. The package
  \<open>cryptography\<close> is a record of parameters, shared with the receipt verifier: which byte strings
  are Ed25519 public keys (\<open>from_public_bytes\<close> raises \<open>ValueError\<close> for the others), and which
  signatures verify (\<open>verify\<close> raises \<open>InvalidSignature\<close> for the others); the points of P-256,
  the DER encoding of a signature and the ECDSA verification; and \<open>str()\<close> of a list or a
  dictionary, which depends on the tables of the Unicode database.
\<close>

record crypto_lib =
  ed25519_key_ok :: "bytes \<Rightarrow> bool"
  ed25519_verify :: "bytes \<Rightarrow> bytes \<Rightarrow> bytes \<Rightarrow> bool"
  p256_point_ok :: "nat \<Rightarrow> nat \<Rightarrow> bool"
  encode_dss_signature :: "nat \<Rightarrow> nat \<Rightarrow> bytes"
  ecdsa_sha256_verify :: "nat \<times> nat \<Rightarrow> bytes \<Rightarrow> bytes \<Rightarrow> bool"
  container_str :: "pyval \<Rightarrow> pystr"

section \<open>The code\<close>

definition decode_urlsafe :: "pystr \<Rightarrow> exc + bytes" where
  "decode_urlsafe value =
     bindR (encode_ascii (value @ b64_padding value)) (urlsafe_b64decode False)"

text \<open>The body of the \<open>try\<close>: load the key, build the payload, decode and verify the signature.\<close>

definition eddsa_check :: "crypto_lib \<Rightarrow> pydict \<Rightarrow> pystr \<Rightarrow> pystr \<Rightarrow> exc + unit" where
  "eddsa_check lib record public_key value =
     bindR (decode_urlsafe public_key) (\<lambda>key.
     if \<not> ed25519_key_ok lib key then Inl ValueError
     else
       bindR (compute_chain_link record) (\<lambda>link.
       bindR (encode_utf8 (canonical_json link)) (\<lambda>payload.
       bindR (decode_urlsafe value) (\<lambda>sig.
         if ed25519_verify lib key sig payload then Inr () else Inl InvalidSignature))))"

definition verify_eddsa_record :: "crypto_lib \<Rightarrow> pydict \<Rightarrow> pystr \<Rightarrow> exc + unit" where
  "verify_eddsa_record lib record public_key =
     (case dget record (u ''signature'') of
        PDict sig \<Rightarrow>
          if dget sig (u ''alg'') \<noteq> PStr (u ''EdDSA'')
          then Inl (CryptoVerificationError [Txt ''unsupported signature algorithm''])
          else (case dget sig (u ''value'') of
              PStr value \<Rightarrow>
                if value = [] then Inl (CryptoVerificationError [Txt ''missing signature value''])
                else (case eddsa_check lib record public_key value of
                    Inr _ \<Rightarrow> Inr ()
                  | Inl e \<Rightarrow>
                      if e = InvalidSignature \<or> is_ValueError e \<or> e = TypeError
                      then Inl (CryptoVerificationError [Txt ''signature verification failed''])
                      else Inl e)
            | _ \<Rightarrow> Inl (CryptoVerificationError [Txt ''missing signature value'']))
      | _ \<Rightarrow> Inl (CryptoVerificationError [Txt ''missing signature object'']))"

section \<open>When a record verifies\<close>

text \<open>
  The record carries an EdDSA signature value that, decoded, the library accepts for the decoded
  public key over the record's canonical text.
\<close>

definition eddsa_valid :: "crypto_lib \<Rightarrow> pydict \<Rightarrow> pystr \<Rightarrow> bool" where
  "eddsa_valid lib record public_key \<longleftrightarrow>
     (\<exists>sig value key bs.
        dget record (u ''signature'') = PDict sig \<and>
        dget sig (u ''alg'') = PStr (u ''EdDSA'') \<and>
        dget sig (u ''value'') = PStr value \<and> value \<noteq> [] \<and>
        decode_urlsafe public_key = Inr key \<and> ed25519_key_ok lib key \<and>
        decode_urlsafe value = Inr bs \<and>
        encodable (canonicalize_json (unsigned_record record)) \<and>
        ed25519_verify lib key bs (utf8_bytes (canonicalize_json (unsigned_record record))))"

lemma compute_chain_link_ok:
  "(\<exists>l. compute_chain_link record = Inr l \<and> P l) \<longleftrightarrow>
     encodable (canonicalize_json (unsigned_record record)) \<and>
     P \<lparr>canonical_json = canonicalize_json (unsigned_record record),
        digest = u ''sha256:'' @ hex_bytes (sha256 (utf8_bytes (canonicalize_json (unsigned_record record))))\<rparr>"
  by (auto simp: compute_chain_link_def Let_def result_simps sha256_prefixed_Text_Inr)

lemma eddsa_check_Inr:
  "eddsa_check lib record public_key value = Inr () \<longleftrightarrow>
     (\<exists>key bs. decode_urlsafe public_key = Inr key \<and> ed25519_key_ok lib key \<and>
        decode_urlsafe value = Inr bs \<and> encodable (canonicalize_json (unsigned_record record)) \<and>
        ed25519_verify lib key bs (utf8_bytes (canonicalize_json (unsigned_record record))))"
  by (auto simp: eddsa_check_def result_simps compute_chain_link_ok)

lemma verify_eddsa_record_check:
  "verify_eddsa_record lib record public_key = Inr () \<longleftrightarrow>
     (\<exists>sig value. dget record (u ''signature'') = PDict sig \<and> dget sig (u ''alg'') = PStr (u ''EdDSA'') \<and>
        dget sig (u ''value'') = PStr value \<and> value \<noteq> [] \<and>
        eddsa_check lib record public_key value = Inr ())"
  by (auto simp: verify_eddsa_record_def split: pyval.splits sum.splits if_splits)

lemma verify_eddsa_record_Inr:
  "verify_eddsa_record lib record public_key = Inr () \<longleftrightarrow> eddsa_valid lib record public_key"
  unfolding verify_eddsa_record_check eddsa_check_Inr eddsa_valid_def by blast

text \<open>Every failure is a \<open>CryptoVerificationError\<close>: the boundary is closed.\<close>

lemma decode_urlsafe_error: "decode_urlsafe v = Inl e \<Longrightarrow> is_ValueError e"
  using b64url_decode_error [of v e] by (simp add: decode_urlsafe_def b64url_decode_def)

lemma eddsa_check_error:
  "eddsa_check lib record public_key value = Inl e \<Longrightarrow> is_ValueError e \<or> e = InvalidSignature"
  by (auto simp: eddsa_check_def result_simps encode_utf8_def
      dest: decode_urlsafe_error compute_chain_link_error split: if_splits)

lemma verify_eddsa_record_error:
  "verify_eddsa_record lib record public_key = Inl e \<Longrightarrow> \<exists>m. e = CryptoVerificationError m"
  by (auto simp: verify_eddsa_record_def dest: eddsa_check_error
      split: pyval.splits sum.splits if_splits)

text \<open>
  A library that accepts every signature, for witnesses only.
\<close>

definition permissive_lib :: crypto_lib where
  "permissive_lib = \<lparr>ed25519_key_ok = (\<lambda>_. True), ed25519_verify = (\<lambda>_ _ _. True),
     p256_point_ok = (\<lambda>_ _. True), encode_dss_signature = (\<lambda>_ _. []),
     ecdsa_sha256_verify = (\<lambda>_ _ _. True), container_str = (\<lambda>_. [])\<rparr>"

lemma decode_AA: "decode_urlsafe (u ''AA'') = Inr [0]"
  by code_simp

lemma decode_AAAA: "decode_urlsafe (u ''AAAA'') = Inr [0, 0, 0]"
  by code_simp

end
