(* ===== verification/Datetime.thy ===== *)
theory Datetime
  imports Utf8
begin

text \<open>
  \<open>datetime.fromisoformat\<close> of CPython 3.11 (the version the repository's workflows run) and
  \<open>astimezone(UTC)\<close>. The parser works on the UTF-8 bytes of the text with positions, as the C
  code does with pointers into a NUL-terminated string: reading at the end gives 0. A timestamp in
  UTC is its instant, the microseconds since the day before 1 January of year 1; \<open>astimezone\<close>
  raises \<open>OverflowError\<close> for an instant outside the years 1 to 9999.
\<close>

section \<open>Calendar\<close>

definition is_leap :: "nat \<Rightarrow> bool" where
  "is_leap y \<longleftrightarrow> y mod 4 = 0 \<and> (y mod 100 \<noteq> 0 \<or> y mod 400 = 0)"

definition days_in_month :: "nat \<Rightarrow> nat \<Rightarrow> nat" where
  "days_in_month y m =
     (if m = 2 then (if is_leap y then 29 else 28)
      else if m = 4 \<or> m = 6 \<or> m = 9 \<or> m = 11 then 30 else 31)"

definition days_before_year :: "nat \<Rightarrow> nat" where
  "days_before_year y = (y - 1) * 365 + (y - 1) div 4 - (y - 1) div 100 + (y - 1) div 400"

definition days_before_month :: "nat \<Rightarrow> nat \<Rightarrow> nat" where
  "days_before_month y m = (\<Sum>k \<leftarrow> [1..<m]. days_in_month y k)"

definition ymd2ord :: "nat \<Rightarrow> nat \<Rightarrow> nat \<Rightarrow> nat" where
  "ymd2ord y m d = days_before_year y + days_before_month y m + d"

definition max_ordinal :: int where
  "max_ordinal = 3652059"

definition valid_date :: "nat \<Rightarrow> nat \<Rightarrow> nat \<Rightarrow> bool" where
  "valid_date y m d \<longleftrightarrow>
     1 \<le> y \<and> y \<le> 9999 \<and> 1 \<le> m \<and> m \<le> 12 \<and> 1 \<le> d \<and> d \<le> days_in_month y m"

text \<open>The ordinal of a day given by ISO year, week and weekday.\<close>

definition iso_to_ord :: "nat \<Rightarrow> nat \<Rightarrow> nat \<Rightarrow> int option" where
  "iso_to_ord y w d =
     (let first = ymd2ord y 1 1; weekday = (first + 6) mod 7;
          monday = int first - int weekday + (if 3 < weekday then 7 else 0);
          ordinal = monday + (int w - 1) * 7 + int d - 1
      in if \<not> (1 \<le> y \<and> y \<le> 9999) then None
         else if \<not> (1 \<le> w \<and> w \<le> 52 \<or> w = 53 \<and> (weekday = 3 \<or> weekday = 2 \<and> is_leap y)) then None
         else if \<not> (1 \<le> d \<and> d \<le> 7) then None
         else if ordinal < 1 \<or> max_ordinal < ordinal then None
         else Some ordinal)"

section \<open>Parsing\<close>

definition char_at :: "nat list \<Rightarrow> nat \<Rightarrow> nat" where
  "char_at s i = (if i < length s then s ! i else 0)"

definition is_dec :: "nat \<Rightarrow> bool" where
  "is_dec c \<longleftrightarrow> 48 \<le> c \<and> c \<le> 57"

fun parse_digits :: "nat list \<Rightarrow> nat \<Rightarrow> nat \<Rightarrow> nat \<Rightarrow> nat option" where
  "parse_digits s p 0 v = Some v"
| "parse_digits s p (Suc k) v =
     (if is_dec (char_at s p) then parse_digits s (p + 1) k (v * 10 + (char_at s p - 48)) else None)"

fun skip_digits :: "nat list \<Rightarrow> nat \<Rightarrow> nat \<Rightarrow> nat" where
  "skip_digits s p 0 = p"
| "skip_digits s p (Suc k) = (if is_dec (char_at s p) then skip_digits s (p + 1) k else p)"

lemma is_dec_numeral [simp]: "is_dec (numeral k) \<longleftrightarrow> 48 \<le> (numeral k :: nat) \<and> (numeral k :: nat) \<le> 57"
  by (simp add: is_dec_def)

lemma parse_digits_numeral [simp]:
  "parse_digits s p (numeral k) v =
     (if is_dec (char_at s p)
      then parse_digits s (p + 1) (pred_numeral k) (v * 10 + (char_at s p - 48)) else None)"
  by (simp add: numeral_eq_Suc)

lemma skip_digits_numeral [simp]:
  "skip_digits s p (numeral k) =
     (if is_dec (char_at s p) then skip_digits s (p + 1) (pred_numeral k) else p)"
  by (simp add: numeral_eq_Suc)

text \<open>Where the date ends: \<open>_find_isoformat_datetime_separator\<close>.\<close>

definition find_separator :: "nat list \<Rightarrow> nat option" where
  "find_separator s =
     (let n = length s in
      if n = 7 then Some 7
      else if char_at s 4 = 45 then
        (if char_at s 5 = 87 then
           (if n < 8 then None
            else if 8 < n \<and> char_at s 8 = 45 then
              (if n = 9 then None
               else if 10 < n \<and> is_dec (char_at s 10) then Some 8 else Some 10)
            else Some 8)
         else Some 10)
      else if char_at s 4 = 87 then
        (let p = skip_digits s 7 (n - 7)
         in if p < 9 then Some p else if even p then Some 7 else Some 8)
      else Some 8)"

definition parse_date :: "nat list \<Rightarrow> nat \<Rightarrow> int option" where
  "parse_date s n =
     Option.bind (parse_digits s 0 4 0) (\<lambda>y.
       let sep = (char_at s 4 = 45); p = (if sep then 5 else 4) in
       if char_at s p = 87 then
         Option.bind (parse_digits s (p + 1) 2 0) (\<lambda>w.
           if p + 3 < n then
             (if sep \<and> char_at s (p + 3) \<noteq> 45 then None
              else Option.bind (parse_digits s (if sep then p + 4 else p + 3) 1 0) (iso_to_ord y w))
           else iso_to_ord y w 1)
       else
         Option.bind (parse_digits s p 2 0) (\<lambda>m.
           if sep \<and> char_at s (p + 2) \<noteq> 45 then None
           else let q = (if sep then p + 3 else p + 2) in
             Option.bind (parse_digits s q 2 0) (\<lambda>d.
               if q + 2 = n \<and> valid_date y m d then Some (int (ymd2ord y m d)) else None)))"

text \<open>
  \<open>HH[:?MM[:?SS[{.,}f+]]]\<close> between two positions. The flag says that something was left over.
\<close>

definition parse_fraction :: "nat list \<Rightarrow> nat \<Rightarrow> nat \<Rightarrow> (nat \<times> bool) option" where
  "parse_fraction s p e =
     (let k = min (e - p) 6 in
      Option.bind (parse_digits s p k 0) (\<lambda>v.
        Some (v * 10 ^ (6 - k), char_at s (skip_digits s (p + k) (length s)) \<noteq> 0)))"

fun parse_hms :: "nat \<Rightarrow> bool \<Rightarrow> nat list \<Rightarrow> nat \<Rightarrow> nat \<Rightarrow> nat list \<Rightarrow> (nat list \<times> nat \<times> bool) option"
where
  "parse_hms 0 sep s p e vs =
     Option.bind (parse_fraction s p e) (\<lambda>(us, rest). Some (rev vs, us, rest))"
| "parse_hms (Suc k) sep s p e vs =
     Option.bind (parse_digits s p 2 0) (\<lambda>v.
       let c = char_at s (p + 2); sep' = (if vs = [] then c = 58 else sep) in
       if e \<le> p + 3 then Some (rev (v # vs), 0, c \<noteq> 0)
       else if sep' \<and> c = 58 then parse_hms k sep' s (p + 3) e (v # vs)
       else if c = 46 \<or> c = 44 then
         Option.bind (parse_fraction s (p + 3) e) (\<lambda>(us, rest). Some (rev (v # vs), us, rest))
       else if \<not> sep' then parse_hms k sep' s (p + 2) e (v # vs)
       else None)"

lemma parse_hms_numeral [simp]:
  "parse_hms (numeral k) sep s p e vs =
     Option.bind (parse_digits s p 2 0) (\<lambda>v.
       let c = char_at s (p + 2); sep' = (if vs = [] then c = 58 else sep) in
       if e \<le> p + 3 then Some (rev (v # vs), 0, c \<noteq> 0)
       else if sep' \<and> c = 58 then parse_hms (pred_numeral k) sep' s (p + 3) e (v # vs)
       else if c = 46 \<or> c = 44 then
         Option.bind (parse_fraction s (p + 3) e) (\<lambda>(us, rest). Some (rev (v # vs), us, rest))
       else if \<not> sep' then parse_hms (pred_numeral k) sep' s (p + 2) e (v # vs)
       else None)"
  by (simp add: numeral_eq_Suc)

definition hms_seconds :: "nat list \<Rightarrow> nat" where
  "hms_seconds vs =
     (case vs of [h] \<Rightarrow> h * 3600 | [h, m] \<Rightarrow> h * 3600 + m * 60
               | h # m # t # _ \<Rightarrow> h * 3600 + m * 60 + t | [] \<Rightarrow> 0)"

definition hms_in_range :: "nat list \<Rightarrow> bool" where
  "hms_in_range vs \<longleftrightarrow> vs \<noteq> [] \<and> hd vs < 24 \<and> (\<forall>v \<in> set (tl vs). v < 60)"

fun find_zone :: "nat list \<Rightarrow> nat \<Rightarrow> nat \<Rightarrow> nat" where
  "find_zone s p 0 = p"
| "find_zone s p (Suc k) =
     (if char_at s p = 43 \<or> char_at s p = 45 \<or> char_at s p = 90 then p else find_zone s (p + 1) k)"

lemma find_zone_numeral [simp]:
  "find_zone s p (numeral k) =
     (if char_at s p = 43 \<or> char_at s p = 45 \<or> char_at s p = 90 then p
      else find_zone s (p + 1) (pred_numeral k))"
  by (simp add: numeral_eq_Suc)

definition day_micros :: int where
  "day_micros = 86400000000"

text \<open>The time of day in microseconds, and the offset from UTC if the text has one.\<close>

definition parse_time :: "nat list \<Rightarrow> nat \<Rightarrow> (int \<times> int option) option" where
  "parse_time s p =
     (let n = length s; z = find_zone s p (max 1 (n - p)) in
      Option.bind (parse_hms 3 True s p z []) (\<lambda>(vs, us, rest).
        let micros = int (hms_seconds vs) * 1000000 + int us in
        if \<not> hms_in_range vs then None
        else if n \<le> z then (if rest then None else Some (micros, None))
        else if char_at s z = 90 then (if char_at s (z + 1) \<noteq> 0 then None else Some (micros, Some 0))
        else Option.bind (parse_hms 3 True s (z + 1) n []) (\<lambda>(zs, zus, zrest).
          let secs = int (hms_seconds zs);
              off = (if secs = 0 then 0 else secs * 1000000 + int zus) in
          if zrest \<or> day_micros \<le> off then None
          else Some (micros, Some (if char_at s z = 45 then - off else off)))))"

record parsed_datetime =
  pd_ordinal :: int
  pd_micros :: int
  pd_offset :: "int option"

text \<open>A surrogate in the place of the separator is read as \<open>T\<close>.\<close>

definition sanitize :: "pystr \<Rightarrow> pystr" where
  "sanitize s =
     (if 7 < length s \<and> is_surrogate (s ! 7) then s[7 := 84]
      else if 8 < length s \<and> is_surrogate (s ! 8) then s[8 := 84]
      else if 10 < length s \<and> is_surrogate (s ! 10) then s[10 := 84] else s)"

definition separator_width :: "nat \<Rightarrow> nat" where
  "separator_width b = (if b < 128 then 1 else if b < 224 then 2 else if b < 240 then 3 else 4)"

definition fromisoformat :: "pystr \<Rightarrow> exc + parsed_datetime" where
  "fromisoformat text =
     (if length text < 7 then Inl ValueError
      else case encode_utf8 (sanitize text) of
        Inl _ \<Rightarrow> Inl ValueError
      | Inr bs \<Rightarrow>
          let s = map unat bs in
          (case find_separator s of
             None \<Rightarrow> Inl ValueError
           | Some sep \<Rightarrow>
               (case parse_date s sep of
                  None \<Rightarrow> Inl ValueError
                | Some ord \<Rightarrow>
                    if length s \<le> sep
                    then Inr \<lparr>pd_ordinal = ord, pd_micros = 0, pd_offset = None\<rparr>
                    else (case parse_time s (sep + separator_width (char_at s sep)) of
                        None \<Rightarrow> Inl ValueError
                      | Some (micros, off) \<Rightarrow>
                          Inr \<lparr>pd_ordinal = ord, pd_micros = micros, pd_offset = off\<rparr>))))"

section \<open>Instants\<close>

type_synonym instant = int

definition valid_instant :: "instant \<Rightarrow> bool" where
  "valid_instant t \<longleftrightarrow> day_micros \<le> t \<and> t < (max_ordinal + 1) * day_micros"

text \<open>\<open>dt.astimezone(UTC)\<close> for an aware \<open>dt\<close> with the given offset.\<close>

definition astimezone_utc :: "parsed_datetime \<Rightarrow> int \<Rightarrow> exc + instant" where
  "astimezone_utc dt off =
     (let t = pd_ordinal dt * day_micros + pd_micros dt - off
      in if off \<noteq> 0 \<and> \<not> valid_instant t then Inl OverflowError else Inr t)"


lemma fromisoformat_error: "fromisoformat text = Inl e \<Longrightarrow> e = ValueError"
  by (auto simp: fromisoformat_def Let_def split: if_splits sum.splits option.splits)

end
