(* ===== verification/Keyed_Registry.thy ===== *)
theory Keyed_Registry
  imports Prelude
begin

text \<open>
  The interface of the in-memory registries: built from a list of entries, extended by \<open>add\<close>,
  searched by key. The trust registry and the policy registry are its two instances; what both
  promise (the latest entry with a key wins, every entry found was put there under its own key)
  is proved once here.
\<close>

locale keyed_registry =
  fixes key_of :: "'v \<Rightarrow> 'k"
    and build :: "'v list \<Rightarrow> 'r"
    and add :: "'r \<Rightarrow> 'v \<Rightarrow> 'r"
    and lookup :: "'r \<Rightarrow> 'k \<Rightarrow> 'v option"
  assumes build_Nil: "lookup (build []) k = None"
    and build_snoc: "lookup (build (vs @ [v])) k = lookup (add (build vs) v) k"
    and lookup_add: "lookup (add r v) k = (if key_of v = k then Some v else lookup r k)"
begin

lemma lookup_build: "lookup (build vs) k = List.find (\<lambda>v. key_of v = k) (rev vs)"
  by (induction vs rule: rev_induct) (simp_all add: build_Nil build_snoc lookup_add)

lemma lookup_build_Some: "lookup (build vs) k = Some v \<Longrightarrow> v \<in> set vs \<and> key_of v = k"
  by (auto simp: lookup_build find_Some_iff rev_nth)

lemma lookup_build_None: "lookup (build vs) k = None \<longleftrightarrow> k \<notin> key_of ` set vs"
  by (auto simp: lookup_build find_None_iff)

lemma lookup_build_distinct:
  assumes "distinct (map key_of vs)"
  shows "lookup (build vs) k = Some v \<longleftrightarrow> v \<in> set vs \<and> key_of v = k"
proof
  assume v: "v \<in> set vs \<and> key_of v = k"
  then obtain w where w: "lookup (build vs) k = Some w"
    using lookup_build_None [of vs k] by (cases "lookup (build vs) k") auto
  with lookup_build_Some [OF w] v assms show "lookup (build vs) k = Some v"
    by (auto simp: distinct_map inj_on_def)
qed (rule lookup_build_Some)

lemma lookup_add_same: "lookup (add r v) (key_of v) = Some v"
  by (simp add: lookup_add)

lemma lookup_add_other: "key_of v \<noteq> k \<Longrightarrow> lookup (add r v) k = lookup r k"
  by (simp add: lookup_add)

end

text \<open>Building from a dictionary comprehension \<open>{key(v): v for v in vs}\<close>.\<close>

lemma dict_of_snoc: "dict_of d (ps @ [p]) = dset (dict_of d ps) (fst p) (snd p)"
  by (induction d ps rule: dict_of.induct) simp_all

end
