(* ===== verification/Trust.thy ===== *)
theory Trust
  imports Datetime Keyed_Registry
begin

text \<open>
  \<open>src/sentinel_core/trust.py\<close>: public trust keys, the in-memory trust registry, timestamps in
  UTC, and the resolution of an active key with its validity window. The lemmas characterise
  exactly when a key resolves and which timestamps parse to which instant.
\<close>

section \<open>The code\<close>

record trust_key =
  key_id :: pystr
  key_alg :: pystr
  public_key :: pystr
  key_role :: pystr
  key_status :: pystr
  not_before :: "pystr option"
  not_after :: "pystr option"

text \<open>\<open>value.replace("Z", "+00:00") if value.endswith("Z") else value\<close>\<close>

definition normalize_zulu :: "pystr \<Rightarrow> pystr" where
  "normalize_zulu value =
     (if value \<noteq> [] \<and> last value = 90
      then concat (map (\<lambda>c. if c = 90 then u ''+00:00'' else [c]) value) else value)"

definition parse_rfc3339_utc :: "pystr \<Rightarrow> exc + instant" where
  "parse_rfc3339_utc value =
     (case fromisoformat (normalize_zulu value) of
        Inl e \<Rightarrow> Inl (TrustRegistryError [Txt ''invalid RFC3339 timestamp: '', Str value])
      | Inr parsed \<Rightarrow>
          (case pd_offset parsed of
             None \<Rightarrow> Inl (TrustRegistryError [Txt ''timestamp must include timezone: '', Str value])
           | Some off \<Rightarrow> astimezone_utc parsed off))"

type_synonym trust_registry = "(pystr \<times> trust_key) list"

definition trust_registry_init :: "trust_key list \<Rightarrow> trust_registry" where
  "trust_registry_init keys = dict_of [] (map (\<lambda>key. (key_id key, key)) keys)"

definition trust_registry_add :: "trust_registry \<Rightarrow> trust_key \<Rightarrow> trust_registry" where
  "trust_registry_add reg key = dset reg (key_id key) key"

definition resolve_active_key :: "trust_registry \<Rightarrow> pystr \<Rightarrow> pystr \<Rightarrow> exc + trust_key" where
  "resolve_active_key reg kid alg =
     (case map_of reg kid of
        None \<Rightarrow> Inl (TrustRegistryError [Txt ''unknown key_id: '', Str kid])
      | Some key \<Rightarrow>
          if key_alg key \<noteq> alg then
            Inl (TrustRegistryError [Txt ''algorithm mismatch for '', Str kid, Txt '': expected '',
              Str (key_alg key), Txt '', got '', Str alg])
          else if key_status key \<noteq> u ''active'' then
            Inl (TrustRegistryError [Txt ''key_id '', Str kid, Txt '' is not active: '',
              Str (key_status key)])
          else Inr key)"

definition check_not_before :: "trust_key \<Rightarrow> pystr \<Rightarrow> pystr \<Rightarrow> instant \<Rightarrow> exc + unit" where
  "check_not_before key kid issued_at issued =
     (case not_before key of
        None \<Rightarrow> Inr ()
      | Some nb \<Rightarrow> bindR (parse_rfc3339_utc nb) (\<lambda>t.
          if issued < t then
            Inl (TrustRegistryError [Txt ''key_id '', Str kid, Txt '' is not valid before '', Str nb,
              Txt '': issued_at '', Str issued_at])
          else Inr ()))"

definition check_not_after :: "trust_key \<Rightarrow> pystr \<Rightarrow> pystr \<Rightarrow> instant \<Rightarrow> exc + unit" where
  "check_not_after key kid issued_at issued =
     (case not_after key of
        None \<Rightarrow> Inr ()
      | Some na \<Rightarrow> bindR (parse_rfc3339_utc na) (\<lambda>t.
          if t < issued then
            Inl (TrustRegistryError [Txt ''key_id '', Str kid, Txt '' is not valid after '', Str na,
              Txt '': issued_at '', Str issued_at])
          else Inr ()))"

definition resolve_active_key_at ::
    "trust_registry \<Rightarrow> pystr \<Rightarrow> pystr \<Rightarrow> pystr \<Rightarrow> exc + trust_key" where
  "resolve_active_key_at reg kid alg issued_at =
     bindR (resolve_active_key reg kid alg) (\<lambda>key.
     bindR (parse_rfc3339_utc issued_at) (\<lambda>issued.
     bindR (check_not_before key kid issued_at issued) (\<lambda>_.
     bindR (check_not_after key kid issued_at issued) (\<lambda>_.
     Inr key))))"

section \<open>The registry\<close>

interpretation trust_reg: keyed_registry key_id trust_registry_init trust_registry_add map_of
  by unfold_locales
    (simp_all add: trust_registry_init_def trust_registry_add_def dict_of_snoc map_of_dset)

lemma resolve_active_key_Inr [result_simps]:
  "resolve_active_key reg kid alg = Inr key \<longleftrightarrow>
     map_of reg kid = Some key \<and> key_alg key = alg \<and> key_status key = u ''active''"
  by (auto simp: resolve_active_key_def split: option.splits)

text \<open>A bound of the validity window, when there is one, parses and is respected.\<close>

definition window_contains :: "trust_key \<Rightarrow> instant \<Rightarrow> bool" where
  "window_contains key t \<longleftrightarrow>
     (\<forall>nb. not_before key = Some nb \<longrightarrow> (\<exists>b. parse_rfc3339_utc nb = Inr b \<and> b \<le> t)) \<and>
     (\<forall>na. not_after key = Some na \<longrightarrow> (\<exists>a. parse_rfc3339_utc na = Inr a \<and> t \<le> a))"

lemma check_window_Inr:
  "check_not_before key kid at t = Inr () \<and> check_not_after key kid at t = Inr () \<longleftrightarrow>
     window_contains key t"
  by (cases "not_before key"; cases "not_after key")
    (auto simp: check_not_before_def check_not_after_def window_contains_def result_simps)

lemma resolve_at_Inr_iff:
  "resolve_active_key_at reg kid alg at = Inr key \<longleftrightarrow>
     map_of reg kid = Some key \<and> key_alg key = alg \<and> key_status key = u ''active'' \<and>
     (\<exists>t. parse_rfc3339_utc at = Inr t \<and> window_contains key t)"
  using check_window_Inr [of key kid at]
  by (auto simp: resolve_active_key_at_def result_simps)

section \<open>Timestamps\<close>

text \<open>The canonical text of an instant in UTC to the second.\<close>

definition two_digits :: "nat \<Rightarrow> pystr" where
  "two_digits n = [48 + n div 10, 48 + n mod 10]"

definition zulu_text :: "nat \<Rightarrow> nat \<Rightarrow> nat \<Rightarrow> nat \<Rightarrow> nat \<Rightarrow> nat \<Rightarrow> pystr" where
  "zulu_text y mo d h mi s =
     two_digits (y div 100) @ two_digits (y mod 100) @ [45] @ two_digits mo @ [45] @ two_digits d @
     [84] @ two_digits h @ [58] @ two_digits mi @ [58] @ two_digits s @ [90]"

definition instant_of :: "nat \<Rightarrow> nat \<Rightarrow> nat \<Rightarrow> nat \<Rightarrow> nat \<Rightarrow> nat \<Rightarrow> instant" where
  "instant_of y mo d h mi s =
     int (ymd2ord y mo d) * day_micros + int (h * 3600 + mi * 60 + s) * 1000000"

text \<open>The 25 bytes the parser sees, with the digits as variables.\<close>

abbreviation stamp :: "nat \<Rightarrow> nat \<Rightarrow> nat \<Rightarrow> nat \<Rightarrow> nat \<Rightarrow> nat \<Rightarrow> nat \<Rightarrow> nat \<Rightarrow> nat \<Rightarrow> nat \<Rightarrow> nat \<Rightarrow> nat
    \<Rightarrow> nat \<Rightarrow> nat \<Rightarrow> nat list" where
  "stamp a b c d e f g h i j k l m n \<equiv>
     [48 + a, 48 + b, 48 + c, 48 + d, 45, 48 + e, 48 + f, 45, 48 + g, 48 + h, 84,
      48 + i, 48 + j, 58, 48 + k, 48 + l, 58, 48 + m, 48 + n, 43, 48, 48, 58, 48, 48]"

lemma is_dec_digit [simp]: "is_dec (48 + a) \<longleftrightarrow> a < 10"
  by (auto simp: is_dec_def)

lemma stamp_separator:
  "e < 10 \<Longrightarrow> find_separator (stamp a b c d e f g h i j k l m n) = Some 10"
  by (simp add: find_separator_def char_at_def)

lemma stamp_date:
  assumes "a < 10" "b < 10" "c < 10" "d < 10" "e < 10" "f < 10" "g < 10" "h < 10"
    and "valid_date (((a * 10 + b) * 10 + c) * 10 + d) (e * 10 + f) (g * 10 + h)"
  shows "parse_date (stamp a b c d e f g h i j k l m n) 10 =
     Some (int (ymd2ord (((a * 10 + b) * 10 + c) * 10 + d) (e * 10 + f) (g * 10 + h)))"
  using assms by (simp add: parse_date_def char_at_def)

lemma stamp_time:
  assumes "i < 10" "j < 10" "k < 10" "l < 10" "m < 10" "n < 10"
    and "i * 10 + j < 24" "k * 10 + l < 60" "m * 10 + n < 60"
  shows "parse_time (stamp a b c d e f g h i j k l m n) 11 =
     Some (int ((i * 10 + j) * 3600 + (k * 10 + l) * 60 + (m * 10 + n)) * 1000000, Some 0)"
proof -
  let ?s = "stamp a b c d e f g h i j k l m n"
  have zone: "find_zone ?s 11 (max 1 (length ?s - 11)) = 19"
    using assms by (simp add: char_at_def)
  have hms: "parse_hms 3 True ?s 11 19 [] = Some ([i * 10 + j, k * 10 + l, m * 10 + n], 0, True)"
    using assms by (simp add: char_at_def)
  have off: "parse_hms 3 True ?s 20 25 [] = Some ([0, 0], 0, False)"
    by (simp add: char_at_def)
  show ?thesis
    unfolding parse_time_def Let_def zone hms using assms off
    by (simp add: char_at_def hms_seconds_def hms_in_range_def day_micros_def)
qed

lemma stamp_ascii:
  assumes "a < 10" "b < 10" "c < 10" "d < 10" "e < 10" "f < 10" "g < 10" "h < 10"
    "i < 10" "j < 10" "k < 10" "l < 10" "m < 10" "n < 10"
  shows "\<forall>x \<in> set (stamp a b c d e f g h i j k l m n). x < 128"
  using assms by simp

lemma fromisoformat_stamp:
  assumes "a < 10" "b < 10" "c < 10" "d < 10" "e < 10" "f < 10" "g < 10" "h < 10"
    "i < 10" "j < 10" "k < 10" "l < 10" "m < 10" "n < 10"
    and "valid_date (((a * 10 + b) * 10 + c) * 10 + d) (e * 10 + f) (g * 10 + h)"
    and "i * 10 + j < 24" "k * 10 + l < 60" "m * 10 + n < 60"
  shows "fromisoformat (stamp a b c d e f g h i j k l m n) =
     Inr \<lparr>pd_ordinal = int (ymd2ord (((a * 10 + b) * 10 + c) * 10 + d) (e * 10 + f) (g * 10 + h)),
          pd_micros = int ((i * 10 + j) * 3600 + (k * 10 + l) * 60 + (m * 10 + n)) * 1000000,
          pd_offset = Some 0\<rparr>"
proof -
  let ?s = "stamp a b c d e f g h i j k l m n"
  have small: "\<forall>x \<in> set ?s. x < 128" by (rule stamp_ascii) (use assms in auto)
  then have ascii: "is_ascii ?s" by (simp only: is_ascii_def)
  have clean: "sanitize ?s = ?s"
    using assms by (simp add: sanitize_def is_surrogate_def)
  have bytes: "encode_utf8 ?s = Inr (map byte ?s)"
    by (simp only: encode_utf8_def is_ascii_encodable [OF ascii] utf8_bytes_ascii [OF ascii] if_True)
  have unbyte: "map unat (map byte ?s) = ?s"
    unfolding map_map by (rule map_idI) (use small in \<open>auto simp del: list.set\<close>)
  have width: "separator_width (char_at ?s 10) = 1" "length ?s = 25"
    by (simp_all add: separator_width_def char_at_def)
  have date: "parse_date ?s 10 = Some (int (ymd2ord (((a * 10 + b) * 10 + c) * 10 + d) (e * 10 + f) (g * 10 + h)))"
    by (rule stamp_date) (use assms in simp_all)
  have time: "parse_time ?s (10 + 1) =
      Some (int ((i * 10 + j) * 3600 + (k * 10 + l) * 60 + (m * 10 + n)) * 1000000, Some 0)"
    using stamp_time [of i j k l m n a b c d e f g h] assms by simp
  show ?thesis
    unfolding fromisoformat_def clean bytes sum.case Let_def unbyte
      stamp_separator [OF assms(5), of a b c d f g h i j k l m n] option.case date width time
    by simp
qed

lemma normalize_stamp:
  assumes "a < 10" "b < 10" "c < 10" "d < 10" "e < 10" "f < 10" "g < 10" "h < 10"
    "i < 10" "j < 10" "k < 10" "l < 10" "m < 10" "n < 10"
  shows "normalize_zulu
     [48 + a, 48 + b, 48 + c, 48 + d, 45, 48 + e, 48 + f, 45, 48 + g, 48 + h, 84,
      48 + i, 48 + j, 58, 48 + k, 48 + l, 58, 48 + m, 48 + n, 90] = stamp a b c d e f g h i j k l m n"
  using assms by (simp add: normalize_zulu_def u_def)

lemma four_digits: "(y div 100 * 10 + y mod 100 div 10) * 10 + y mod 100 mod 10 = (y :: nat)"
proof -
  have "(q * 10 + r div 10) * 10 + r mod 10 = q * 100 + r" for q r :: nat
    using div_mult_mod_eq [of r 10] by (simp add: algebra_simps)
  then show ?thesis by (simp only: div_mult_mod_eq)
qed

definition valid_stamp :: "nat \<Rightarrow> nat \<Rightarrow> nat \<Rightarrow> nat \<Rightarrow> nat \<Rightarrow> nat \<Rightarrow> bool" where
  "valid_stamp y mo d h mi s \<longleftrightarrow> valid_date y mo d \<and> h < 24 \<and> mi < 60 \<and> s < 60"

lemma days_in_month_le: "days_in_month y m \<le> 31"
  by (simp add: days_in_month_def)

lemma parse_stamp:
  assumes "valid_stamp y mo d h mi s"
  shows "parse_rfc3339_utc (zulu_text y mo d h mi s) = Inr (instant_of y mo d h mi s)"
proof -
  have r: "y < 10000" "mo < 100" "d < 100" "h < 100" "mi < 100" "s < 100"
    using assms days_in_month_le [of y mo] by (auto simp: valid_stamp_def valid_date_def)
  then have digits: "y div 100 div 10 < 10" "y div 100 mod 10 < 10" "y mod 100 div 10 < 10"
    "y mod 100 mod 10 < 10" "mo div 10 < 10" "mo mod 10 < 10" "d div 10 < 10" "d mod 10 < 10"
    "h div 10 < 10" "h mod 10 < 10" "mi div 10 < 10" "mi mod 10 < 10" "s div 10 < 10" "s mod 10 < 10"
    by (simp_all add: less_mult_imp_div_less)
  let ?s = "stamp (y div 100 div 10) (y div 100 mod 10) (y mod 100 div 10) (y mod 100 mod 10)
    (mo div 10) (mo mod 10) (d div 10) (d mod 10) (h div 10) (h mod 10) (mi div 10) (mi mod 10)
    (s div 10) (s mod 10)"
  have "normalize_zulu (zulu_text y mo d h mi s) = ?s"
    using normalize_stamp [OF digits] by (simp only: zulu_text_def two_digits_def append.simps)
  moreover have "fromisoformat ?s =
     Inr \<lparr>pd_ordinal = int (ymd2ord y mo d),
          pd_micros = int (h * 3600 + mi * 60 + s) * 1000000, pd_offset = Some 0\<rparr>"
    by (rule fromisoformat_stamp [OF digits, unfolded four_digits div_mult_mod_eq])
      (use assms in \<open>simp_all add: valid_stamp_def\<close>)
  ultimately show ?thesis
    by (simp add: parse_rfc3339_utc_def astimezone_utc_def instant_of_def)
qed

text \<open>
  Every calendar date and time of day, written as \<open>YYYY-MM-DDTHH:MM:SSZ\<close>, parses to its instant.
\<close>

theorem parse_rfc3339_zulu:
  assumes "valid_stamp y mo d h mi s"
  shows "parse_rfc3339_utc (zulu_text y mo d h mi s) = Inr (instant_of y mo d h mi s)"
  using assms by (rule parse_stamp)

theorem parse_rfc3339_zulu_witness:
  "parse_rfc3339_utc (zulu_text 2026 7 9 8 0 0) = Inr (instant_of 2026 7 9 8 0 0)"
  by (rule parse_rfc3339_zulu) (simp add: valid_stamp_def valid_date_def days_in_month_def)

section \<open>Resolution\<close>

text \<open>
  C8 A key resolves at a time exactly if it is the latest key registered under its id, has the
  requested algorithm, is active, and the time parses to an instant inside its validity window.
\<close>

theorem resolve_active_key_at_iff:
  "resolve_active_key_at (trust_registry_init keys) kid alg at = Inr key \<longleftrightarrow>
     List.find (\<lambda>k. key_id k = kid) (rev keys) = Some key \<and> key_alg key = alg \<and>
     key_status key = u ''active'' \<and>
     (\<exists>t. parse_rfc3339_utc at = Inr t \<and> window_contains key t)"
  by (simp add: resolve_at_Inr_iff trust_reg.lookup_build)

text \<open>
  A timestamp of the first day of year 1 east of Greenwich is well formed, but its instant is
  before the calendar: the conversion to UTC raises \<open>OverflowError\<close>, which is no \<open>ValueError\<close>.
\<close>

definition overflow_stamp :: pystr where
  "overflow_stamp = u ''0001-01-01T00:00:00+00:01''"

lemma fromisoformat_overflow_stamp:
  "fromisoformat overflow_stamp = Inr \<lparr>pd_ordinal = 1, pd_micros = 0, pd_offset = Some 60000000\<rparr>"
proof -
  let ?s = "[48, 48, 48, 49, 45, 48, 49, 45, 48, 49, 84, 48, 48, 58, 48, 48, 58, 48, 48, 43, 48, 48,
    58, 48, 49] :: nat list"
  have s: "overflow_stamp = ?s" by (simp add: overflow_stamp_def u_def)
  have ascii: "is_ascii ?s" by (simp add: is_ascii_def)
  have clean: "sanitize ?s = ?s" by (simp add: sanitize_def is_surrogate_def)
  have bytes: "encode_utf8 ?s = Inr (map byte ?s)"
    by (simp only: encode_utf8_def is_ascii_encodable [OF ascii] utf8_bytes_ascii [OF ascii] if_True)
  have unbyte: "map unat (map byte ?s) = ?s" by simp
  have width: "separator_width (char_at ?s 10) = 1" "length ?s = 25"
    by (simp_all add: separator_width_def char_at_def)
  have sep: "find_separator ?s = Some 10" by (simp add: find_separator_def char_at_def)
  have date: "parse_date ?s 10 = Some 1"
    by (simp add: parse_date_def char_at_def valid_date_def days_in_month_def ymd2ord_def
        days_before_year_def days_before_month_def)
  have zone: "find_zone ?s 11 (max 1 (length ?s - 11)) = 19" by (simp add: char_at_def)
  have hms: "parse_hms 3 True ?s 11 19 [] = Some ([0, 0, 0], 0, True)" by (simp add: char_at_def)
  have off: "parse_hms 3 True ?s 20 25 [] = Some ([0, 1], 0, False)" by (simp add: char_at_def)
  have time: "parse_time ?s (10 + 1) = Some (0, Some 60000000)"
    using zone hms off
    by (simp add: parse_time_def char_at_def hms_seconds_def hms_in_range_def day_micros_def)
  show ?thesis
    unfolding fromisoformat_def s clean bytes sum.case Let_def unbyte sep option.case date width time
    by simp
qed

lemma parse_overflow_stamp: "parse_rfc3339_utc overflow_stamp = Inl OverflowError"
proof -
  have "normalize_zulu overflow_stamp = overflow_stamp"
    by (simp add: normalize_zulu_def overflow_stamp_def u_def)
  then show ?thesis
    by (simp add: parse_rfc3339_utc_def fromisoformat_overflow_stamp astimezone_utc_def
        valid_instant_def day_micros_def)
qed

text \<open>
  The resolution of a trusted key raises \<open>OverflowError\<close>, not \<open>TrustRegistryError\<close>, for a
  well-formed timestamp whose UTC instant lies before year 1.
\<close>

theorem resolve_active_key_at_overflow:
  assumes "resolve_active_key reg kid alg = Inr key"
  shows "resolve_active_key_at reg kid alg overflow_stamp = Inl OverflowError"
  by (simp add: resolve_active_key_at_def assms parse_overflow_stamp)

definition sample_key :: trust_key where
  "sample_key = \<lparr>key_id = u ''k1'', key_alg = u ''EdDSA'', public_key = u ''AA'', key_role = u ''auditor'',
     key_status = u ''active'', not_before = None, not_after = None\<rparr>"

theorem resolve_active_key_at_overflow_witness:
  "resolve_active_key_at (trust_registry_init [sample_key]) (u ''k1'') (u ''EdDSA'') overflow_stamp
     = Inl OverflowError"
  by (rule resolve_active_key_at_overflow [of _ _ _ sample_key])
    (simp add: resolve_active_key_Inr trust_registry_init_def sample_key_def)

end
