(* ===== verification/Policy.thy ===== *)
theory Policy
  imports Keyed_Registry
begin

text \<open>
  \<open>src/sentinel_core/policy.py\<close>: role-to-decision rules, policy versions, the policy registry, the
  built-in bootstrap policy and the authorization of a record under the policy it names. The lemmas
  say exactly when a record is authorized, and what the bootstrap policy lets each role decide.
\<close>

section \<open>The code\<close>

record policy_rule =
  rule_role :: pystr
  allowed_decisions :: "pystr set"
  allowed_sources :: "pystr set"

definition rule_allows :: "policy_rule \<Rightarrow> pystr \<Rightarrow> pystr \<Rightarrow> bool" where
  "rule_allows rule decision source \<longleftrightarrow>
     decision \<in> allowed_decisions rule \<and>
     (allowed_sources rule = {} \<or> source \<in> allowed_sources rule)"

record policy_version =
  policy_id :: pystr
  policy_number :: pystr
  rules :: "policy_rule list"

fun find_rule :: "policy_rule list \<Rightarrow> pystr \<Rightarrow> policy_rule option" where
  "find_rule [] role = None"
| "find_rule (rule # rs) role = (if rule_role rule = role then Some rule else find_rule rs role)"

definition rule_for_role :: "policy_version \<Rightarrow> pystr \<Rightarrow> exc + policy_rule" where
  "rule_for_role policy role =
     (case find_rule (rules policy) role of
        Some rule \<Rightarrow> Inr rule
      | None \<Rightarrow> Inl (PolicyError [Txt ''role is not authorized by policy '', Str (policy_id policy),
                  Txt '': '', Str role]))"

type_synonym policy_registry = "(pystr \<times> policy_version) list"

definition policy_registry_init :: "policy_version list \<Rightarrow> policy_registry" where
  "policy_registry_init policies = dict_of [] (map (\<lambda>policy. (policy_id policy, policy)) policies)"

definition policy_registry_add :: "policy_registry \<Rightarrow> policy_version \<Rightarrow> policy_registry" where
  "policy_registry_add reg policy = dset reg (policy_id policy) policy"

definition resolve_policy :: "policy_registry \<Rightarrow> pystr \<Rightarrow> exc + policy_version" where
  "resolve_policy reg pid =
     (case map_of reg pid of
        None \<Rightarrow> Inl (PolicyError [Txt ''unknown policy_id: '', Str pid])
      | Some policy \<Rightarrow> Inr policy)"

definition default_bootstrap_policy :: policy_version where
  "default_bootstrap_policy =
     \<lparr>policy_id = u ''policy.bootstrap'', policy_number = u ''0.1.0'',
      rules =
        [\<lparr>rule_role = u ''sensor'', allowed_decisions = {u ''review'', u ''quarantine''},
          allowed_sources = {}\<rparr>,
         \<lparr>rule_role = u ''auditor'', allowed_decisions = {u ''review'', u ''allow'', u ''deny''},
          allowed_sources = {}\<rparr>,
         \<lparr>rule_role = u ''authority'',
          allowed_decisions = {u ''review'', u ''allow'', u ''deny'', u ''quarantine''},
          allowed_sources = {}\<rparr>,
         \<lparr>rule_role = u ''admin'',
          allowed_decisions = {u ''review'', u ''allow'', u ''deny'', u ''quarantine''},
          allowed_sources = {}\<rparr>]\<rparr>"

text \<open>\<open>isinstance(value, str) and value\<close>, as a required field of a record.\<close>

definition required_field :: "pydict \<Rightarrow> string \<Rightarrow> msg \<Rightarrow> exc + pystr" where
  "required_field record field message =
     (case dget record (u field) of
        PStr s \<Rightarrow> if s = [] then Inl (PolicyError message) else Inr s
      | _ \<Rightarrow> Inl (PolicyError message))"

definition authorize_record :: "pydict \<Rightarrow> pystr \<Rightarrow> policy_registry \<Rightarrow> exc + unit" where
  "authorize_record record role registry =
     bindR (required_field record ''policy_id'' [Txt ''record.policy_id is required'']) (\<lambda>pid.
     bindR (required_field record ''decision'' [Txt ''record.decision is required'']) (\<lambda>decision.
     bindR (required_field record ''source'' [Txt ''record.source is required'']) (\<lambda>source.
     bindR (resolve_policy registry pid) (\<lambda>policy.
     bindR (rule_for_role policy role) (\<lambda>rule.
       if rule_allows rule decision source then Inr ()
       else Inl (PolicyError [Txt ''role '', Str role, Txt '' is not allowed to issue decision '',
              Str decision, Txt '' under '', Str pid]))))))"

section \<open>The registry\<close>

interpretation policy_reg: keyed_registry policy_id policy_registry_init policy_registry_add map_of
  by unfold_locales
    (simp_all add: policy_registry_init_def policy_registry_add_def dict_of_snoc map_of_dset)

section \<open>Authorization\<close>

lemma required_field_Inr [result_simps]:
  "required_field record field message = Inr s \<longleftrightarrow> dget record (u field) = PStr s \<and> s \<noteq> []"
  by (auto simp: required_field_def split: pyval.splits if_splits)

lemma resolve_policy_Inr [result_simps]: "resolve_policy reg pid = Inr policy \<longleftrightarrow> map_of reg pid = Some policy"
  by (auto simp: resolve_policy_def split: option.splits)

lemma rule_for_role_Inr [result_simps]:
  "rule_for_role policy role = Inr rule \<longleftrightarrow> find_rule (rules policy) role = Some rule"
  by (auto simp: rule_for_role_def split: option.splits)

lemma find_rule_Some: "find_rule rs role = Some rule \<Longrightarrow> rule \<in> set rs \<and> rule_role rule = role"
  by (induction rs) (auto split: if_splits)

lemma authorize_record_error: "authorize_record record role registry = Inl e \<Longrightarrow> \<exists>m. e = PolicyError m"
  by (auto simp: authorize_record_def result_simps required_field_def resolve_policy_def
      rule_for_role_def split: pyval.splits if_splits option.splits)

text \<open>What authorization requires, stated on its own.\<close>

definition authorized :: "pydict \<Rightarrow> pystr \<Rightarrow> policy_registry \<Rightarrow> bool" where
  "authorized record role registry \<longleftrightarrow>
     (\<exists>pid decision source policy rule.
        dget record (u ''policy_id'') = PStr pid \<and> pid \<noteq> [] \<and>
        dget record (u ''decision'') = PStr decision \<and> decision \<noteq> [] \<and>
        dget record (u ''source'') = PStr source \<and> source \<noteq> [] \<and>
        map_of registry pid = Some policy \<and> find_rule (rules policy) role = Some rule \<and>
        rule_allows rule decision source)"

lemma authorize_record_Inr: "authorize_record record role registry = Inr () \<longleftrightarrow> authorized record role registry"
  by (auto simp: authorize_record_def authorized_def result_simps)

definition bootstrap_decisions :: "pystr \<Rightarrow> pystr set" where
  "bootstrap_decisions role =
     (if role = u ''sensor'' then {u ''review'', u ''quarantine''}
      else if role = u ''auditor'' then {u ''review'', u ''allow'', u ''deny''}
      else if role \<in> {u ''authority'', u ''admin''}
      then {u ''review'', u ''allow'', u ''deny'', u ''quarantine''} else {})"

text \<open>
  Under the bootstrap policy a record that names it is authorized exactly if its decision is one
  of the role's: sensors may only ask for review or quarantine, auditors may not quarantine, and an
  unknown role may decide nothing.
\<close>

theorem bootstrap_authorization:
  assumes "dget record (u ''policy_id'') = PStr (u ''policy.bootstrap'')"
    and "dget record (u ''source'') = PStr source" and "source \<noteq> []"
    and "dget record (u ''decision'') = PStr decision"
  shows "authorize_record record role (policy_registry_init [default_bootstrap_policy]) = Inr () \<longleftrightarrow>
     decision \<in> bootstrap_decisions role"
proof -
  have policy: "map_of (policy_registry_init [default_bootstrap_policy]) (u ''policy.bootstrap'') =
      Some default_bootstrap_policy"
    by (simp add: policy_reg.lookup_build default_bootstrap_policy_def)
  have "authorized record role (policy_registry_init [default_bootstrap_policy]) \<longleftrightarrow>
      decision \<noteq> [] \<and> (\<exists>rule. find_rule (rules default_bootstrap_policy) role = Some rule \<and>
        rule_allows rule decision source)"
    using assms policy by (simp add: authorized_def)
  also have "\<dots> \<longleftrightarrow> decision \<in> bootstrap_decisions role"
    by (auto simp: default_bootstrap_policy_def rule_allows_def bootstrap_decisions_def split: if_splits)
  finally show ?thesis by (simp add: authorize_record_Inr)
qed

theorem bootstrap_authorization_witness:
  "authorize_record
     [(u ''policy_id'', PStr (u ''policy.bootstrap'')), (u ''source'', PStr (u ''ci'')),
      (u ''decision'', PStr (u ''allow''))]
     (u ''sensor'') (policy_registry_init [default_bootstrap_policy]) = Inr () \<longleftrightarrow>
   u ''allow'' \<in> bootstrap_decisions (u ''sensor'')"
  by (rule bootstrap_authorization [where source = "u ''ci''"]) simp_all

end
