(* ===== verification/Schema.thy ===== *)
theory Schema
  imports Prelude
begin

text \<open>
  \<open>src/sentinel_core/schema.py\<close>: the report of the first schema error of an evidence record. The
  JSON Schema engine (the package \<open>jsonschema\<close>) is a parameter: the errors its \<open>iter_errors\<close>
  yields for a record, each with the path of object keys it is at and its text. The evidence schema
  has no arrays, so the paths hold strings only.
\<close>

record schema_error =
  error_path :: "pystr list"
  error_message :: pystr

type_synonym schema_validator = "pydict \<Rightarrow> schema_error list"

definition validate_evidence_schema :: "schema_validator \<Rightarrow> pydict \<Rightarrow> exc + unit" where
  "validate_evidence_schema iter_errors record =
     (case sort_key error_path (iter_errors record) of
        [] \<Rightarrow> Inr ()
      | first # _ \<Rightarrow>
          let joined = join (u ''/'') (error_path first);
              location = (if joined = [] then u ''<root>'' else joined)
          in Inl (SchemaValidationError
               [Txt ''Schema validation failed at '', Str location, Txt '': '', Str (error_message first)]))"

lemma validate_evidence_schema_Inr [result_simps]:
  "validate_evidence_schema iter_errors record = Inr () \<longleftrightarrow> iter_errors record = []"
proof -
  have "sort_key error_path (iter_errors record) = [] \<longleftrightarrow> iter_errors record = []"
    by (metis length_0_conv length_sort)
  then show ?thesis by (auto simp: validate_evidence_schema_def Let_def split: list.splits)
qed

lemma validate_evidence_schema_error:
  "validate_evidence_schema iter_errors record = Inl e \<Longrightarrow> \<exists>m. e = SchemaValidationError m"
  by (auto simp: validate_evidence_schema_def Let_def split: list.splits)

text \<open>The error reported is one with the least path.\<close>

lemma validate_evidence_schema_first:
  assumes "validate_evidence_schema iter_errors record = Inl e"
  shows "\<exists>err \<in> set (iter_errors record). (\<forall>err' \<in> set (iter_errors record). error_path err \<le> error_path err') \<and>
     (\<exists>loc. e = SchemaValidationError
        [Txt ''Schema validation failed at '', Str loc, Txt '': '', Str (error_message err)])"
proof (cases "sort_key error_path (iter_errors record)")
  case Nil
  with assms show ?thesis by (simp add: validate_evidence_schema_def)
next
  case (Cons first rest)
  have set: "set (iter_errors record) = insert first (set rest)"
    using arg_cong [OF Cons, of set] by simp
  have "sorted (map error_path (first # rest))"
    using sorted_sort_key [of error_path "iter_errors record"] by (simp only: Cons)
  with set assms show ?thesis
    by (auto simp: validate_evidence_schema_def Cons Let_def)
qed

end
