(* ===== verification/Verifier.thy ===== *)
theory Verifier
  imports Crypto Trust Policy Schema
begin

text \<open>
  \<open>src/sentinel_core/verifier.py\<close>: the staged verification of one evidence record. Each stage of
  \<open>verify_evidence_record\<close> is a definition that yields the errors it appends; the whole runs them
  in the code's order. The record is acceptable (\<open>record_acceptable\<close>) is the specification the
  verifier is proved to decide.
\<close>

section \<open>The code\<close>

record verification_result =
  ok :: bool
  result_digest :: "pystr option"
  errors :: "msg list"
  warnings :: "msg list"
  actor_role :: "pystr option"
  result_key_id :: "pystr option"

text \<open>The keyword arguments, with the defaults of the signature.\<close>

record verify_options =
  expected_previous_hash :: pystr
  expected_digest :: "pystr option"
  require_signature_value :: bool
  opt_trust_registry :: "trust_registry option"
  require_trusted_signature :: bool
  opt_policy_registry :: "policy_registry option"
  opt_actor_role :: "pystr option"
  require_policy_authorization :: bool

definition default_options :: verify_options where
  "default_options =
     \<lparr>expected_previous_hash = ZERO_HASH, expected_digest = None, require_signature_value = True,
      opt_trust_registry = None, require_trusted_signature = False, opt_policy_registry = None,
      opt_actor_role = None, require_policy_authorization = False\<rparr>"

definition schema_stage :: "schema_validator \<Rightarrow> pydict \<Rightarrow> msg list" where
  "schema_stage iter_errors record =
     (case validate_evidence_schema iter_errors record of
        Inl (SchemaValidationError m) \<Rightarrow> [m]
      | _ \<Rightarrow> [])"

definition previous_hash_stage :: "verify_options \<Rightarrow> pydict \<Rightarrow> msg list" where
  "previous_hash_stage opts record =
     (let previous_hash = dget record (u ''previous_hash'') in
      if previous_hash \<noteq> PStr (expected_previous_hash opts)
      then [[Txt ''previous_hash mismatch: expected '', Str (expected_previous_hash opts),
             Txt '', got '', Val previous_hash]]
      else [])"

definition opt_val :: "pystr option \<Rightarrow> pyval" where
  "opt_val s = (case s of None \<Rightarrow> PNone | Some t \<Rightarrow> PStr t)"

definition digest_stage :: "verify_options \<Rightarrow> pydict \<Rightarrow> pystr option \<times> msg list" where
  "digest_stage opts record =
     (let (dig, errs) =
        (case compute_chain_link record of
           Inr link \<Rightarrow> (Some (digest link), [])
         | Inl e \<Rightarrow> (None, [[Txt ''digest computation failed: '', Exc e]]))
      in (dig, errs @
           (case expected_digest opts of
              None \<Rightarrow> []
            | Some expected \<Rightarrow>
                if dig \<noteq> Some expected
                then [[Txt ''digest mismatch: expected '', Str expected, Txt '', got '', Val (opt_val dig)]]
                else [])))"

definition signature_value_stage :: "verify_options \<Rightarrow> pydict \<Rightarrow> msg list" where
  "signature_value_stage opts record =
     (let signature_value =
        (case dget record (u ''signature'') of
           PDict signature \<Rightarrow> dget signature (u ''value'')
         | _ \<Rightarrow> PNone)
      in if require_signature_value opts \<and> \<not> truthy signature_value
         then [[Txt ''signature.value is required'']] else [])"

text \<open>
  The \<open>try\<close> of the trusted stage. The key counts as resolved even when the signature check that
  follows fails. Only registry and verification errors are caught; anything else escapes.
\<close>

definition verify_with_key :: "crypto_lib \<Rightarrow> trust_registry \<Rightarrow> pydict \<Rightarrow> pystr \<Rightarrow> pystr \<Rightarrow> pystr
    \<Rightarrow> exc + msg list \<times> trust_key option" where
  "verify_with_key lib registry record kid alg issued_at =
     (case resolve_active_key_at registry kid alg issued_at of
        Inl (TrustRegistryError m) \<Rightarrow> Inr ([m], None)
      | Inl e \<Rightarrow> Inl e
      | Inr key \<Rightarrow>
          if key_alg key = u ''EdDSA'' then
            (case verify_eddsa_record lib record (public_key key) of
               Inr _ \<Rightarrow> Inr ([], Some key)
             | Inl (CryptoVerificationError m) \<Rightarrow> Inr ([m], Some key)
             | Inl e \<Rightarrow> Inl e)
          else Inr ([[Txt ''unsupported trusted signature algorithm: '', Str (key_alg key)]], Some key))"

definition trusted_stage :: "crypto_lib \<Rightarrow> verify_options \<Rightarrow> pydict
    \<Rightarrow> exc + (msg list \<times> msg list) \<times> trust_key option" where
  "trusted_stage lib opts record =
     (case opt_trust_registry opts of
        None \<Rightarrow>
          if require_trusted_signature opts
          then Inr (([[Txt ''trusted signature verification requested without trust registry'']], []), None)
          else Inr (([], [[Txt ''cryptographic signature verification not requested'']]), None)
      | Some registry \<Rightarrow>
          (case dget record (u ''signature'') of
             PDict signature \<Rightarrow>
               (case (dget signature (u ''key_id''), dget signature (u ''alg'')) of
                  (PStr kid, PStr alg) \<Rightarrow>
                    (case dget record (u ''issued_at'') of
                       PStr issued_at \<Rightarrow>
                         bindR (verify_with_key lib registry record kid alg issued_at)
                           (\<lambda>(errs, key). Inr ((errs, []), key))
                     | _ \<Rightarrow> Inr (([[Txt ''record.issued_at is required for trusted verification'']], []), None))
                | _ \<Rightarrow> Inr (([[Txt ''signature.key_id and signature.alg are required'']], []), None))
           | _ \<Rightarrow> Inr (([[Txt ''signature object is required for trusted verification'']], []), None)))"

text \<open>The authorization stage, with the role of the resolved key or else the manual role.\<close>

definition policy_stage :: "verify_options \<Rightarrow> pydict \<Rightarrow> trust_key option
    \<Rightarrow> (msg list \<times> msg list) \<times> pystr option" where
  "policy_stage opts record resolved =
     (let resolved_role = map_option key_role resolved in
      case opt_policy_registry opts of
        None \<Rightarrow>
          if require_policy_authorization opts
          then (([[Txt ''policy authorization requested without policy registry'']], []), resolved_role)
          else (([], [[Txt ''policy authorization not requested'']]), resolved_role)
      | Some registry \<Rightarrow>
          (case (case resolved of Some key \<Rightarrow> Some (key_role key) | None \<Rightarrow> opt_actor_role opts) of
             None \<Rightarrow>
               (([[Txt ''trusted key role or actor_role is required for policy authorization'']], []),
                resolved_role)
           | Some policy_role \<Rightarrow>
               (case authorize_record record policy_role registry of
                  Inr _ \<Rightarrow> (([], []), Some policy_role)
                | Inl (PolicyError m) \<Rightarrow> (([m], []), resolved_role)
                | Inl _ \<Rightarrow> (([], []), resolved_role))))"

definition verify_evidence_record :: "crypto_lib \<Rightarrow> schema_validator \<Rightarrow> verify_options \<Rightarrow> pydict
    \<Rightarrow> exc + verification_result" where
  "verify_evidence_record lib iter_errors opts record =
     (let e1 = schema_stage iter_errors record;
          e2 = previous_hash_stage opts record;
          (dig, e3) = digest_stage opts record;
          e4 = signature_value_stage opts record
      in bindR (trusted_stage lib opts record) (\<lambda>((e5, w5), resolved).
         let ((e6, w6), role) = policy_stage opts record resolved;
             errs = e1 @ e2 @ e3 @ e4 @ e5 @ e6
         in Inr \<lparr>ok = (errs = []), result_digest = dig, errors = errs, warnings = w5 @ w6,
              actor_role = role, result_key_id = map_option key_id resolved\<rparr>))"

section \<open>The specification\<close>

text \<open>The key a trusted record is signed with: resolved at its time, and its signature verifies.\<close>

definition trusted_key :: "crypto_lib \<Rightarrow> trust_registry \<Rightarrow> pydict \<Rightarrow> trust_key \<Rightarrow> bool" where
  "trusted_key lib registry record key \<longleftrightarrow>
     (\<exists>signature kid at t.
        dget record (u ''signature'') = PDict signature \<and>
        dget signature (u ''key_id'') = PStr kid \<and>
        dget signature (u ''alg'') = PStr (u ''EdDSA'') \<and>
        dget record (u ''issued_at'') = PStr at \<and>
        map_of registry kid = Some key \<and> key_alg key = u ''EdDSA'' \<and> key_status key = u ''active'' \<and>
        parse_rfc3339_utc at = Inr t \<and> window_contains key t \<and>
        eddsa_valid lib record (public_key key))"

definition record_acceptable :: "crypto_lib \<Rightarrow> schema_validator \<Rightarrow> verify_options \<Rightarrow> pydict \<Rightarrow> bool" where
  "record_acceptable lib iter_errors opts record \<longleftrightarrow>
     iter_errors record = [] \<and>
     dget record (u ''previous_hash'') = PStr (expected_previous_hash opts) \<and>
     (\<exists>link. compute_chain_link record = Inr link \<and>
        (\<forall>d. expected_digest opts = Some d \<longrightarrow> digest link = d)) \<and>
     (require_signature_value opts \<longrightarrow>
        (\<exists>signature. dget record (u ''signature'') = PDict signature \<and>
           truthy (dget signature (u ''value'')))) \<and>
     (case opt_trust_registry opts of
        None \<Rightarrow> \<not> require_trusted_signature opts \<and>
          (case opt_policy_registry opts of
             None \<Rightarrow> \<not> require_policy_authorization opts
           | Some policies \<Rightarrow> (\<exists>role. opt_actor_role opts = Some role \<and> authorized record role policies))
      | Some registry \<Rightarrow>
          (\<exists>key. trusted_key lib registry record key \<and>
             (case opt_policy_registry opts of
                None \<Rightarrow> \<not> require_policy_authorization opts
              | Some policies \<Rightarrow> authorized record (key_role key) policies)))"

section \<open>The stages decide their part\<close>

lemma schema_stage_Nil: "schema_stage iter_errors record = [] \<longleftrightarrow> iter_errors record = []"
proof (cases "validate_evidence_schema iter_errors record")
  case (Inl e)
  then obtain m where "e = SchemaValidationError m" using validate_evidence_schema_error by blast
  with Inl validate_evidence_schema_Inr [of iter_errors "record"] show ?thesis
    by (simp add: schema_stage_def)
next
  case (Inr x)
  with validate_evidence_schema_Inr [of iter_errors "record"] show ?thesis by (simp add: schema_stage_def)
qed

lemma previous_hash_stage_Nil:
  "previous_hash_stage opts record = [] \<longleftrightarrow>
     dget record (u ''previous_hash'') = PStr (expected_previous_hash opts)"
  by (simp add: previous_hash_stage_def Let_def)

lemma digest_stage_Nil:
  "snd (digest_stage opts record) = [] \<longleftrightarrow>
     (\<exists>link. compute_chain_link record = Inr link \<and>
        (\<forall>d. expected_digest opts = Some d \<longrightarrow> digest link = d))"
  by (auto simp: digest_stage_def split: sum.splits option.splits)

lemma signature_value_stage_Nil:
  "signature_value_stage opts record = [] \<longleftrightarrow>
     (require_signature_value opts \<longrightarrow>
        (\<exists>signature. dget record (u ''signature'') = PDict signature \<and>
           truthy (dget signature (u ''value''))))"
  by (auto simp: signature_value_stage_def Let_def split: pyval.splits)

lemma verify_with_key_Nil:
  "verify_with_key lib registry record kid alg at = Inr ([], resolved) \<longleftrightarrow>
     (\<exists>key. resolved = Some key \<and> resolve_active_key_at registry kid alg at = Inr key \<and>
        key_alg key = u ''EdDSA'' \<and> verify_eddsa_record lib record (public_key key) = Inr ())"
  by (auto simp: verify_with_key_def split: sum.splits exc.splits if_splits)

lemma trusted_stage_None:
  "opt_trust_registry opts = None \<Longrightarrow>
     \<exists>e5 w5. trusted_stage lib opts record = Inr ((e5, w5), None) \<and>
       (e5 = [] \<longleftrightarrow> \<not> require_trusted_signature opts)"
  by (simp add: trusted_stage_def)

lemma trusted_stage_key:
  assumes "opt_trust_registry opts = Some registry"
  shows "(\<exists>w5. trusted_stage lib opts record = Inr (([], w5), resolved)) \<longleftrightarrow>
     (\<exists>key. resolved = Some key \<and> trusted_key lib registry record key)"
proof -
  have "(\<exists>w5. trusted_stage lib opts record = Inr (([], w5), resolved)) \<longleftrightarrow>
      (\<exists>signature kid alg at. dget record (u ''signature'') = PDict signature \<and>
        dget signature (u ''key_id'') = PStr kid \<and> dget signature (u ''alg'') = PStr alg \<and>
        dget record (u ''issued_at'') = PStr at \<and>
        verify_with_key lib registry record kid alg at = Inr ([], resolved))"
    using assms by (auto simp: trusted_stage_def result_simps split: pyval.splits)
  also have "\<dots> \<longleftrightarrow> (\<exists>key. resolved = Some key \<and> trusted_key lib registry record key)"
    by (auto simp: trusted_key_def verify_with_key_Nil resolve_at_Inr_iff verify_eddsa_record_Inr)
  finally show ?thesis .
qed

lemma policy_stage_Nil:
  "fst (fst (policy_stage opts record resolved)) = [] \<longleftrightarrow>
     (case opt_policy_registry opts of
        None \<Rightarrow> \<not> require_policy_authorization opts
      | Some policies \<Rightarrow>
          (\<exists>role. (case resolved of Some key \<Rightarrow> Some (key_role key) | None \<Rightarrow> opt_actor_role opts) = Some role \<and>
             authorized record role policies))"
proof (cases "opt_policy_registry opts")
  case None
  then show ?thesis by (simp add: policy_stage_def Let_def)
next
  case (Some policies)
  show ?thesis
  proof (cases "case resolved of Some key \<Rightarrow> Some (key_role key) | None \<Rightarrow> opt_actor_role opts")
    case None
    with Some show ?thesis by (simp add: policy_stage_def Let_def)
  next
    fix role
    assume role: "(case resolved of Some key \<Rightarrow> Some (key_role key) | None \<Rightarrow> opt_actor_role opts) = Some role"
    show ?thesis
    proof (cases "authorize_record record role policies")
      case (Inl e)
      then obtain m where "e = PolicyError m" using authorize_record_error by blast
      with Inl Some role authorize_record_Inr [of "record" role policies] show ?thesis
        by (simp add: policy_stage_def Let_def)
    next
      case (Inr x)
      with Some role authorize_record_Inr [of "record" role policies] show ?thesis
        by (simp add: policy_stage_def Let_def)
    qed
  qed
qed

lemma verify_ok:
  "(\<exists>res. verify_evidence_record lib iter_errors opts record = Inr res \<and> ok res) \<longleftrightarrow>
     schema_stage iter_errors record = [] \<and> previous_hash_stage opts record = [] \<and>
     snd (digest_stage opts record) = [] \<and> signature_value_stage opts record = [] \<and>
     (\<exists>w5 resolved. trusted_stage lib opts record = Inr (([], w5), resolved) \<and>
        fst (fst (policy_stage opts record resolved)) = [])"
  by (auto simp: verify_evidence_record_def Let_def result_simps case_prod_unfold)

section \<open>The verifier decides acceptability\<close>

lemma verify_decides:
  "(\<exists>res. verify_evidence_record lib iter_errors opts record = Inr res \<and> ok res) \<longleftrightarrow>
     record_acceptable lib iter_errors opts record"
proof (cases "opt_trust_registry opts")
  case None
  from trusted_stage_None [OF this, of lib "record"] obtain e5 w5 where
    "trusted_stage lib opts record = Inr ((e5, w5), None)" "e5 = [] \<longleftrightarrow> \<not> require_trusted_signature opts"
    by blast
  with None show ?thesis
    by (simp add: verify_ok record_acceptable_def schema_stage_Nil previous_hash_stage_Nil
        digest_stage_Nil signature_value_stage_Nil policy_stage_Nil cong: option.case_cong)
next
  case (Some registry)
  have "(\<exists>w5 resolved. trusted_stage lib opts record = Inr (([], w5), resolved) \<and>
        fst (fst (policy_stage opts record resolved)) = []) \<longleftrightarrow>
      (\<exists>resolved. (\<exists>w5. trusted_stage lib opts record = Inr (([], w5), resolved)) \<and>
        fst (fst (policy_stage opts record resolved)) = [])"
    by auto
  also have "\<dots> \<longleftrightarrow>
      (\<exists>key. trusted_key lib registry record key \<and> fst (fst (policy_stage opts record (Some key))) = [])"
    unfolding trusted_stage_key [OF Some] by auto
  finally show ?thesis using Some
    by (simp add: verify_ok record_acceptable_def schema_stage_Nil previous_hash_stage_Nil
        digest_stage_Nil signature_value_stage_Nil policy_stage_Nil cong: option.case_cong)
qed

text \<open>
  C2 The verifier returns an ok result exactly for acceptable records: schema-conforming, chained
  to the expected hash, with a digest (the expected one if given), a signature value if required,
  signed by an active key that is valid at the time of issue if there is a trust registry, and
  authorized by policy in the role of that key (in the manual role without a trust registry).
\<close>

theorem verify_evidence_record_iff:
  "(\<exists>res. verify_evidence_record lib iter_errors opts record = Inr res \<and> ok res) \<longleftrightarrow>
     record_acceptable lib iter_errors opts record"
  by (rule verify_decides)

section \<open>Roles and exceptions\<close>

lemma parse_rfc3339_error:
  "parse_rfc3339_utc v = Inl e \<Longrightarrow> e = OverflowError \<or> (\<exists>m. e = TrustRegistryError m)"
  by (auto simp: parse_rfc3339_utc_def astimezone_utc_def Let_def split: sum.splits option.splits if_splits)

lemma resolve_active_key_at_error:
  "resolve_active_key_at reg kid alg at = Inl e \<Longrightarrow> e = OverflowError \<or> (\<exists>m. e = TrustRegistryError m)"
  by (auto simp: resolve_active_key_at_def result_simps resolve_active_key_def check_not_before_def
      check_not_after_def dest: parse_rfc3339_error split: option.splits if_splits)

lemma verify_with_key_error: "verify_with_key lib registry record kid alg at = Inl e \<Longrightarrow> e = OverflowError"
  by (auto simp: verify_with_key_def dest: resolve_active_key_at_error verify_eddsa_record_error
      split: sum.splits exc.splits if_splits)


definition sample_evidence :: "pystr \<Rightarrow> pydict" where
  "sample_evidence issued_at =
     [(u ''issued_at'', PStr issued_at), (u ''policy_id'', PStr (u ''policy.bootstrap'')),
      (u ''source'', PStr (u ''ci'')), (u ''decision'', PStr (u ''allow'')),
      (u ''signature'', PDict [(u ''key_id'', PStr (u ''k1'')), (u ''alg'', PStr (u ''EdDSA'')),
        (u ''value'', PStr (u ''AAAA''))])]"

definition trusting :: "trust_key list \<Rightarrow> verify_options" where
  "trusting keys = default_options\<lparr>opt_trust_registry := Some (trust_registry_init keys)\<rparr>"

lemma resolve_sample_key:
  "resolve_active_key (trust_registry_init [sample_key]) (u ''k1'') (u ''EdDSA'') = Inr sample_key"
  by (simp add: resolve_active_key_Inr trust_registry_init_def sample_key_def)

lemma verify_sample_overflow:
  "verify_evidence_record lib iter_errors (trusting [sample_key]) (sample_evidence overflow_stamp)
     = Inl OverflowError"
  by (simp add: verify_evidence_record_def Let_def case_prod_unfold trusted_stage_def trusting_def
      sample_evidence_def verify_with_key_def resolve_active_key_at_def resolve_sample_key
      parse_overflow_stamp)


text \<open>
  With a trust registry, an ok result names the key that signed the record and the role bound to
  that key, whatever manual role was passed.
\<close>

theorem verified_role_is_key_role:
  assumes "verify_evidence_record lib iter_errors opts record = Inr res" and "ok res"
    and "opt_trust_registry opts = Some registry"
  shows "\<exists>key. trusted_key lib registry record key \<and> result_key_id res = Some (key_id key) \<and>
     actor_role res = Some (key_role key)"
proof -
  obtain e5 w5 resolved where stage: "trusted_stage lib opts record = Inr ((e5, w5), resolved)"
    and res: "result_key_id res = map_option key_id resolved"
      "actor_role res = snd (policy_stage opts record resolved)" "e5 = []"
    using assms(1,2) by (auto simp: verify_evidence_record_def Let_def result_simps case_prod_unfold)
  then obtain key where key: "resolved = Some key" "trusted_key lib registry record key"
    using trusted_stage_key [OF assms(3), of lib "record" resolved] by blast
  have "snd (policy_stage opts record (Some key)) = Some (key_role key)"
    by (simp add: policy_stage_def Let_def split: option.split sum.split exc.split)
  with res key show ?thesis by auto
qed

definition good_evidence :: pydict where
  "good_evidence = (u ''previous_hash'', PStr ZERO_HASH) # sample_evidence (zulu_text 2026 7 9 8 0 0)"

lemma good_evidence_encodable: "encodable (canonicalize_json (unsigned_record good_evidence))"
  by (simp add: good_evidence_def sample_evidence_def unsigned_record_def canonicalize_json_def
      json_str_def json_escape_def u_def encodable_def is_scalar_def is_surrogate_def insort_key_def
      ZERO_HASH_def zulu_text_def two_digits_def)

lemma parse_good_stamp: "\<exists>t. parse_rfc3339_utc (zulu_text 2026 7 9 8 0 0) = Inr t"
  using parse_stamp [of 2026 7 9 8 0 0] by (simp add: valid_stamp_def valid_date_def days_in_month_def)

lemma trusted_good_evidence:
  "trusted_key permissive_lib (trust_registry_init [sample_key]) good_evidence sample_key"
proof -
  have "\<exists>t. parse_rfc3339_utc (zulu_text 2026 7 9 8 0 0) = Inr t \<and> window_contains sample_key t"
    using parse_good_stamp by (simp add: window_contains_def sample_key_def)
  moreover have "eddsa_valid permissive_lib good_evidence (public_key sample_key)"
    using good_evidence_encodable
    by (simp add: eddsa_valid_def permissive_lib_def) (simp add: good_evidence_def sample_evidence_def
        sample_key_def decode_AA decode_AAAA)
  ultimately show ?thesis
    by (simp add: trusted_key_def) (simp add: good_evidence_def sample_evidence_def
        trust_registry_init_def sample_key_def)
qed

lemma good_evidence_acceptable:
  "record_acceptable permissive_lib (\<lambda>_. []) (trusting [sample_key]) good_evidence"
proof -
  have "\<exists>link. compute_chain_link good_evidence = Inr link"
    using good_evidence_encodable compute_chain_link_ok [of good_evidence "\<lambda>_. True"] by simp
  moreover have "truthy (PStr (u ''AAAA''))" by (simp add: u_def)
  ultimately show ?thesis using trusted_good_evidence
    by (simp add: record_acceptable_def trusting_def default_options_def)
      (auto simp: good_evidence_def sample_evidence_def)
qed

theorem verified_role_is_key_role_witness:
  "\<exists>res. verify_evidence_record permissive_lib (\<lambda>_. []) (trusting [sample_key]) good_evidence = Inr res \<and>
     actor_role res = Some (u ''auditor'')"
proof -
  obtain res where res: "ok res"
    "verify_evidence_record permissive_lib (\<lambda>_. []) (trusting [sample_key]) good_evidence = Inr res"
    using good_evidence_acceptable verify_decides by blast
  have reg: "opt_trust_registry (trusting [sample_key]) = Some (trust_registry_init [sample_key])"
    by (simp add: trusting_def)
  from verified_role_is_key_role [OF res(2,1) reg] obtain key where
    key: "trusted_key permissive_lib (trust_registry_init [sample_key]) good_evidence key"
      "actor_role res = Some (key_role key)" by blast
  then have "key = sample_key"
    by (auto simp: trusted_key_def trust_registry_init_def split: if_splits)
  with key res show ?thesis by (simp add: sample_key_def)
qed

text \<open>
  A manual role is not only used without a trust registry: when the registry does not know the
  key, the record is refused, but the result still names the manual role as the authorized actor.
\<close>

theorem manual_role_with_unknown_key:
  assumes "opt_trust_registry opts = Some registry" and "opt_policy_registry opts = Some policies"
    and "opt_actor_role opts = Some role" and "authorized record role policies"
    and "dget record (u ''signature'') = PDict signature"
    and "dget signature (u ''key_id'') = PStr kid" and "map_of registry kid = None"
  shows "\<exists>res. verify_evidence_record lib iter_errors opts record = Inr res \<and> \<not> ok res \<and>
     actor_role res = Some role \<and> result_key_id res = None"
proof -
  have "\<exists>e5. e5 \<noteq> [] \<and> trusted_stage lib opts record = Inr ((e5, []), None)"
    using assms(1,5-7)
    by (auto simp: trusted_stage_def verify_with_key_def resolve_active_key_at_def
        resolve_active_key_def result_simps split: pyval.split sum.splits)
  moreover have "policy_stage opts record None = (([], []), Some role)"
    using assms(2-4) authorize_record_Inr [of "record" role policies] by (simp add: policy_stage_def)
  ultimately show ?thesis
    by (auto simp: verify_evidence_record_def Let_def case_prod_unfold)
qed

definition role_claiming :: verify_options where
  "role_claiming = default_options\<lparr>opt_trust_registry := Some [],
     opt_policy_registry := Some (policy_registry_init [default_bootstrap_policy]),
     opt_actor_role := Some (u ''auditor'')\<rparr>"

lemma good_evidence_authorized:
  "authorized good_evidence (u ''auditor'') (policy_registry_init [default_bootstrap_policy])"
  by (simp add: authorized_def good_evidence_def sample_evidence_def policy_reg.lookup_build)
    (simp add: default_bootstrap_policy_def rule_allows_def)

theorem manual_role_with_unknown_key_witness:
  "\<exists>res. verify_evidence_record permissive_lib (\<lambda>_. []) role_claiming good_evidence = Inr res \<and>
     \<not> ok res \<and> actor_role res = Some (u ''auditor'') \<and> result_key_id res = None"
  by (rule manual_role_with_unknown_key [OF _ _ _ good_evidence_authorized,
        where registry = "[]" and kid = "u ''k1''"])
    ((simp_all add: role_claiming_def good_evidence_def sample_evidence_def)+)

end
