(* ===== verification/Receipt.thy ===== *)
theory Receipt
  imports Crypto Trust
begin

text \<open>
  \<open>src/sentinel_core/receipt.py\<close>: verification of a signed release receipt against a public trust
  registry. \<open>verify_receipt\<close> is cut at its comments into stages that yield the issues they append;
  the loop over the signatures is a fold over a tally. A \<open>continue\<close> of the loop is a rejection.
\<close>

section \<open>Issues and results\<close>

datatype issue_severity = Error | Warning | Info

record issue =
  severity :: issue_severity
  code :: string
  message :: msg

datatype receipt_status = RC_VERIFIED | NOT_VERIFIED | CONFIG_ERROR

record receipt_result =
  status :: receipt_status
  verified :: bool
  valid_signatures :: nat
  required_signatures :: int
  matched_roles :: "pystr list"
  result_receipt_hash :: "pystr option"
  issues :: "issue list"

definition error_issue :: "string \<Rightarrow> msg \<Rightarrow> issue" where
  "error_issue c m = \<lparr>severity = Error, code = c, message = m\<rparr>"

definition warning_issue :: "string \<Rightarrow> msg \<Rightarrow> issue" where
  "warning_issue c m = \<lparr>severity = Warning, code = c, message = m\<rparr>"

text \<open>An issue appended when a condition holds.\<close>

definition issue_if :: "bool \<Rightarrow> string \<Rightarrow> string \<Rightarrow> issue list" where
  "issue_if b c m = (if b then [error_issue c [Txt m]] else [])"

section \<open>Timestamps and the signed payload\<close>

text \<open>This module's own \<open>parse_rfc3339_utc\<close> raises \<open>ValueError\<close>.\<close>

definition receipt_parse_rfc3339_utc :: "pystr \<Rightarrow> exc + instant" where
  "receipt_parse_rfc3339_utc value =
     bindR (fromisoformat (normalize_zulu value)) (\<lambda>parsed.
       case pd_offset parsed of
         None \<Rightarrow> Inl ValueError
       | Some off \<Rightarrow> astimezone_utc parsed off)"

definition chain_of :: "pydict \<Rightarrow> pydict" where
  "chain_of receipt = (case dget receipt (u ''chain'') of PDict c \<Rightarrow> c | _ \<Rightarrow> [])"

definition signed_fields :: "string list" where
  "signed_fields = [''schema_version'', ''receipt_id'', ''receipt_type'', ''subject'', ''created_at'',
     ''release_class'', ''policy'', ''evidence'']"

definition unsigned_receipt :: "pydict \<Rightarrow> pydict" where
  "unsigned_receipt receipt =
     map (\<lambda>f. (u f, dget receipt (u f))) signed_fields @
     [(u ''chain'', PDict [(u ''sequence'', dget (chain_of receipt) (u ''sequence'')),
        (u ''previous_hash'', dget (chain_of receipt) (u ''previous_hash''))])]"

definition build_unsigned_receipt_payload :: "pydict \<Rightarrow> pystr" where
  "build_unsigned_receipt_payload receipt = canonicalize_json (unsigned_receipt receipt)"

definition receipt_hash :: "pydict \<Rightarrow> exc + pystr" where
  "receipt_hash receipt = sha256_prefixed (Text (build_unsigned_receipt_payload receipt))"

definition payload_b64 :: "pydict \<Rightarrow> exc + pystr" where
  "payload_b64 receipt =
     bindR (encode_utf8 (build_unsigned_receipt_payload receipt)) (\<lambda>b. Inr (b64url_encode b))"

section \<open>The ES256 check\<close>

text \<open>\<open>str(v)\<close>; of a float, the text of its \<open>repr\<close>.\<close>

definition py_str :: "crypto_lib \<Rightarrow> pyval \<Rightarrow> pystr" where
  "py_str lib v =
     (case v of
        PStr s \<Rightarrow> s | PNone \<Rightarrow> u ''None'' | PBool b \<Rightarrow> u (if b then ''True'' else ''False'')
      | PInt i \<Rightarrow> int_repr i | PFloat t \<Rightarrow> t | _ \<Rightarrow> container_str lib v)"

text \<open>\<open>int.from_bytes(_b64url_decode(str(jwk[name])), "big")\<close>.\<close>

definition jwk_coordinate :: "crypto_lib \<Rightarrow> pydict \<Rightarrow> string \<Rightarrow> exc + nat" where
  "jwk_coordinate lib jwk name =
     (case map_of jwk (u name) of
        None \<Rightarrow> Inl KeyError
      | Some v \<Rightarrow> bindR (b64url_decode (py_str lib v)) (\<lambda>b. Inr (be_nat b)))"

definition load_es256_public_key :: "crypto_lib \<Rightarrow> pyval \<Rightarrow> exc + nat \<times> nat" where
  "load_es256_public_key lib key =
     (case key of
        PDict jwk \<Rightarrow>
          if dget jwk (u ''kty'') \<noteq> PStr (u ''EC'') \<or> dget jwk (u ''crv'') \<noteq> PStr (u ''P-256'')
          then Inl ValueError
          else
            bindR (jwk_coordinate lib jwk ''x'') (\<lambda>x.
            bindR (jwk_coordinate lib jwk ''y'') (\<lambda>y.
              if p256_point_ok lib x y then Inr (x, y) else Inl ValueError))
      | _ \<Rightarrow> Inl AttributeError)"

definition raw_es256_to_der :: "crypto_lib \<Rightarrow> bytes \<Rightarrow> exc + bytes" where
  "raw_es256_to_der lib raw_signature =
     (if length raw_signature \<noteq> 64 then Inl ValueError
      else Inr (encode_dss_signature lib (be_nat (take 32 raw_signature)) (be_nat (drop 32 raw_signature))))"

definition verify_es256_jws_signature :: "crypto_lib \<Rightarrow> pyval \<Rightarrow> pystr \<Rightarrow> pystr \<Rightarrow> exc + bool" where
  "verify_es256_jws_signature lib public_jwk signing_input signature_b64 =
     bindR (load_es256_public_key lib public_jwk) (\<lambda>public_key.
     bindR (b64url_decode signature_b64) (\<lambda>raw_signature.
     bindR (raw_es256_to_der lib raw_signature) (\<lambda>der_signature.
     bindR (encode_utf8 signing_input) (\<lambda>input.
       Inr (ecdsa_sha256_verify lib public_key der_signature input)))))"

section \<open>The stages before the signatures\<close>

text \<open>\<open>value in {...}\<close> for a set of strings: a list or a dictionary is not hashable.\<close>

definition member_of :: "pyval \<Rightarrow> string list \<Rightarrow> exc + bool" where
  "member_of v names =
     (case v of
        PList _ \<Rightarrow> Inl TypeError
      | PDict _ \<Rightarrow> Inl TypeError
      | PStr s \<Rightarrow> Inr (s \<in> u ` set names)
      | _ \<Rightarrow> Inr False)"

definition policy_of :: "pydict \<Rightarrow> pydict" where
  "policy_of receipt = (case dget receipt (u ''policy'') of PDict p \<Rightarrow> p | _ \<Rightarrow> [])"

definition min_signatures_of :: "pydict \<Rightarrow> int option" where
  "min_signatures_of policy =
     (case dget policy (u ''min_signatures'') of
        PInt n \<Rightarrow> if n < 0 then None else Some n
      | _ \<Rightarrow> None)"

definition receipt_policy_stage :: "pydict \<Rightarrow> exc + issue list \<times> int" where
  "receipt_policy_stage receipt =
     (let policy = policy_of receipt;
          policy_is_object = (dget receipt (u ''policy'') = PDict policy);
          min_signatures = (case min_signatures_of policy of None \<Rightarrow> 0 | Some n \<Rightarrow> n)
      in bindR (member_of (dget receipt (u ''release_class'')) [''B'', ''C'']) (\<lambda>b_or_c.
         Inr
          (issue_if (\<not> policy_is_object) ''POLICY_INVALID'' ''Receipt policy must be an object.'' @
           issue_if (b_or_c \<and> (\<not> policy_is_object \<or> \<not> dhas policy (u ''min_signatures'')))
             ''RELEASE_POLICY_REQUIRED''
             ''Class B/C release receipts require an explicit signature policy.'' @
           issue_if (min_signatures_of policy = None) ''MIN_SIGNATURES_INVALID''
             ''policy.min_signatures must be a non-negative integer.'' @
           issue_if (b_or_c \<and> min_signatures < 1) ''RELEASE_POLICY_TOO_WEAK''
             ''Class B/C release receipts require at least one valid signature.'',
           min_signatures)))"

definition ends_with_Z :: "pystr \<Rightarrow> bool" where
  "ends_with_Z s \<longleftrightarrow> s \<noteq> [] \<and> last s = 90"

definition created_at_stage :: "pydict \<Rightarrow> exc + issue list \<times> instant option" where
  "created_at_stage receipt =
     (case dget receipt (u ''created_at'') of
        PStr created_at \<Rightarrow>
          if \<not> ends_with_Z created_at
          then Inr ([error_issue ''CREATED_AT_INVALID'' [Txt ''created_at must be RFC3339 UTC ending Z.'']], None)
          else (case receipt_parse_rfc3339_utc created_at of
              Inr t \<Rightarrow> Inr ([], Some t)
            | Inl e \<Rightarrow>
                if is_ValueError e then Inr ([error_issue ''CREATED_AT_INVALID'' [Exc e]], None)
                else Inl e)
      | _ \<Rightarrow>
          Inr ([error_issue ''CREATED_AT_INVALID'' [Txt ''created_at must be RFC3339 UTC ending Z.'']], None))"

definition is_py_int :: "pyval \<Rightarrow> bool" where
  "is_py_int v = (case v of PInt _ \<Rightarrow> True | _ \<Rightarrow> False)"

definition is_sha256_urn_value :: "pyval \<Rightarrow> bool" where
  "is_sha256_urn_value v = (case v of PStr s \<Rightarrow> sha256_urn s | _ \<Rightarrow> False)"

definition header_stage :: "pydict \<Rightarrow> exc + issue list \<times> instant option" where
  "header_stage receipt =
     bindR (created_at_stage receipt) (\<lambda>(created_issues, created).
     bindR (member_of (dget receipt (u ''release_class'')) [''A'', ''B'', ''C'']) (\<lambda>known_class.
       Inr
        (issue_if (dget receipt (u ''schema_version'') \<noteq> PStr (u ''sentinel.receipt.v1''))
           ''SCHEMA_VERSION_INVALID'' ''Unsupported receipt schema version.'' @
         created_issues @
         issue_if (\<not> known_class) ''RELEASE_CLASS_INVALID'' ''release_class must be A, B or C.'' @
         issue_if (\<not> is_py_int (dget (chain_of receipt) (u ''sequence''))) ''CHAIN_SEQUENCE_INVALID''
           ''chain.sequence must be an integer and must not be a boolean.'' @
         issue_if (\<not> is_sha256_urn_value (dget (chain_of receipt) (u ''previous_hash'')))
           ''PREVIOUS_HASH_INVALID''
           ''chain.previous_hash must be sha256: followed by exactly 64 lowercase hex characters.'',
         created)))"

definition hash_stage :: "pydict \<Rightarrow> exc + issue list \<times> pystr" where
  "hash_stage receipt =
     bindR (receipt_hash receipt) (\<lambda>expected_hash.
       Inr (issue_if (dget (chain_of receipt) (u ''receipt_hash'') \<noteq> PStr expected_hash)
              ''RECEIPT_HASH_MISMATCH''
              ''chain.receipt_hash does not match the canonical unsigned receipt payload.'',
            expected_hash))"

definition signatures_stage :: "pydict \<Rightarrow> issue list \<times> pyval list" where
  "signatures_stage receipt =
     (let signatures = (case dget receipt (u ''signatures'') of PList xs \<Rightarrow> xs | _ \<Rightarrow> [])
      in (issue_if (signatures = []) ''SIGNATURES_MISSING'' ''Receipt contains no signatures.'', signatures))"

text \<open>\<open>policy.get("required_roles", [])\<close>, if it is a list of strings.\<close>

definition role_names :: "pyval \<Rightarrow> pystr list option" where
  "role_names v =
     (case v of
        PList xs \<Rightarrow> if list_all (\<lambda>x. as_str x \<noteq> None) xs then Some (List.map_filter as_str xs) else None
      | _ \<Rightarrow> None)"

definition required_roles_of :: "pydict \<Rightarrow> pystr list option" where
  "required_roles_of policy =
     role_names (case map_of policy (u ''required_roles'') of None \<Rightarrow> PList [] | Some v \<Rightarrow> v)"

definition required_roles_stage :: "pydict \<Rightarrow> issue list \<times> pystr list" where
  "required_roles_stage receipt =
     (case required_roles_of (policy_of receipt) of
        Some roles \<Rightarrow> ([], roles)
      | None \<Rightarrow> (issue_if True ''REQUIRED_ROLES_INVALID''
                   ''policy.required_roles must be a list of role strings.'', []))"

definition min_signatures_stage :: "int \<Rightarrow> issue list \<times> int" where
  "min_signatures_stage n =
     (issue_if (n < 0) ''MIN_SIGNATURES_INVALID'' ''policy.min_signatures must be a non-negative integer.'',
      if n < 0 then 0 else n)"

section \<open>One signature\<close>

text \<open>A step of the loop stops with an exception or rejects the signature with an issue.\<close>

datatype stop = Raise exc | Reject issue

abbreviation reject :: "string \<Rightarrow> msg \<Rightarrow> stop + 'a" where
  "reject c m \<equiv> Inl (Reject (error_issue c m))"

abbreviation need :: "bool \<Rightarrow> string \<Rightarrow> msg \<Rightarrow> stop + unit" where
  "need b c m \<equiv> (if b then Inr () else Inl (Reject (error_issue c m)))"

definition signature_metadata :: "pydict \<Rightarrow> stop + pystr \<times> pystr" where
  "signature_metadata signature =
     (case (dget signature (u ''kid''), dget signature (u ''signer_role'')) of
        (PStr kid, PStr signer_role) \<Rightarrow>
          if dget signature (u ''alg'') \<noteq> PStr (u ''ES256'')
          then reject ''SIGNATURE_METADATA_INVALID'' [Txt ''Invalid signature metadata.'']
          else Inr (kid, signer_role)
      | _ \<Rightarrow> reject ''SIGNATURE_METADATA_INVALID'' [Txt ''Invalid signature metadata.''])"

type_synonym receipt_registry = "(pystr \<times> pydict) list"

definition receipt_trust_key :: "receipt_registry \<Rightarrow> pystr \<Rightarrow> pystr \<Rightarrow> stop + pydict" where
  "receipt_trust_key registry kid signer_role =
     (case map_of registry kid of
        None \<Rightarrow> reject ''UNKNOWN_KID'' [Txt ''Unknown signing key: '', Str kid]
      | Some trust_key \<Rightarrow>
          bindR (need (dget trust_key (u ''status'') = PStr (u ''active'')) ''KEY_NOT_ACTIVE''
            [Txt ''Signing key is not active: '', Str kid]) (\<lambda>_.
          bindR (need (dget trust_key (u ''alg'') = PStr (u ''ES256'')) ''ALG_INVALID''
            [Txt ''Unsupported algorithm for key: '', Str kid]) (\<lambda>_.
          bindR (need (dget trust_key (u ''role'') = PStr signer_role) ''ROLE_MISMATCH''
            [Txt ''Signer role does not match trust key: '', Str kid]) (\<lambda>_.
          Inr trust_key))))"

text \<open>One bound of the validity window, inside the \<open>try\<close>.\<close>

definition window_bound :: "pyval \<Rightarrow> (instant \<Rightarrow> bool) \<Rightarrow> string \<Rightarrow> msg \<Rightarrow> stop + unit" where
  "window_bound bound inside c m =
     (case bound of
        PStr s \<Rightarrow>
          (case receipt_parse_rfc3339_utc s of
             Inr t \<Rightarrow> need (inside t) c m
           | Inl e \<Rightarrow> if is_ValueError e then reject ''KEY_WINDOW_INVALID'' [Exc e] else Inl (Raise e))
      | _ \<Rightarrow> Inr ())"

definition key_window :: "instant option \<Rightarrow> pydict \<Rightarrow> pystr \<Rightarrow> stop + unit" where
  "key_window created_at trust_key kid =
     (case created_at of
        None \<Rightarrow> Inr ()
      | Some created \<Rightarrow>
          bindR (window_bound (dget trust_key (u ''not_before'')) (\<lambda>t. \<not> created < t)
            ''KEY_NOT_YET_VALID'' [Txt ''Key was not valid yet: '', Str kid]) (\<lambda>_.
          window_bound (dget trust_key (u ''not_after'')) (\<lambda>t. \<not> created > t)
            ''KEY_EXPIRED'' [Txt ''Key was expired: '', Str kid]))"

definition nonempty_str :: "pyval \<Rightarrow> pystr option" where
  "nonempty_str v = (case v of PStr s \<Rightarrow> if s = [] then None else Some s | _ \<Rightarrow> None)"

definition signature_parts :: "pydict \<Rightarrow> pystr \<Rightarrow> stop + pystr \<times> pystr \<times> pystr" where
  "signature_parts signature kid =
     (case (nonempty_str (dget signature (u ''protected'')), nonempty_str (dget signature (u ''payload'')),
            nonempty_str (dget signature (u ''signature''))) of
        (Some protected, Some payload, Some value) \<Rightarrow> Inr (protected, payload, value)
      | _ \<Rightarrow> reject ''SIGNATURE_PARTS_MISSING'' [Txt ''Signature parts missing: '', Str kid])"

definition decode_header :: "pystr \<Rightarrow> exc + pyval" where
  "decode_header protected = bindR (bindR (b64url_decode protected) decode_utf8) json_loads"

definition protected_header :: "pystr \<Rightarrow> pystr \<Rightarrow> stop + unit" where
  "protected_header protected kid =
     (case decode_header protected of
        Inl e \<Rightarrow>
          if is_ValueError e
          then reject ''PROTECTED_HEADER_INVALID'' [Txt ''Invalid protected header: '', Exc e]
          else Inl (Raise e)
      | Inr (PDict header) \<Rightarrow>
          bindR (need (dget header (u ''alg'') = PStr (u ''ES256'')) ''PROTECTED_HEADER_ALG_INVALID''
            [Txt ''Invalid header alg: '', Str kid]) (\<lambda>_.
          need (dget header (u ''kid'') = PStr kid) ''PROTECTED_HEADER_KID_MISMATCH''
            [Txt ''Header kid mismatch: '', Str kid])
      | Inr _ \<Rightarrow>
          reject ''PROTECTED_HEADER_INVALID'' [Txt ''Protected header must be a JSON object: '', Str kid])"

definition signature_check :: "crypto_lib \<Rightarrow> pydict \<Rightarrow> pystr \<Rightarrow> pystr \<Rightarrow> pystr \<Rightarrow> pystr \<Rightarrow> stop + unit" where
  "signature_check lib trust_key kid protected payload value =
     (case (case map_of trust_key (u ''jwk'') of
              None \<Rightarrow> Inl KeyError
            | Some jwk \<Rightarrow> verify_es256_jws_signature lib jwk (protected @ [46] @ payload) value) of
        Inl e \<Rightarrow>
          if e = KeyError \<or> is_ValueError e \<or> e = TypeError
          then reject ''SIGNATURE_PARSE_ERROR'' [Txt ''Could not verify '', Str kid, Txt '': '', Exc e]
          else Inl (Raise e)
      | Inr is_valid \<Rightarrow>
          need is_valid ''SIGNATURE_INVALID'' [Txt ''Invalid ES256 signature: '', Str kid])"

definition check_signature :: "crypto_lib \<Rightarrow> receipt_registry \<Rightarrow> instant option \<Rightarrow> pystr \<Rightarrow> pyval
    \<Rightarrow> stop + pystr \<times> pystr" where
  "check_signature lib registry created_at expected_payload entry =
     (case entry of
        PDict signature \<Rightarrow>
          bindR (signature_metadata signature) (\<lambda>(kid, signer_role).
          bindR (receipt_trust_key registry kid signer_role) (\<lambda>trust_key.
          bindR (key_window created_at trust_key kid) (\<lambda>_.
          bindR (signature_parts signature kid) (\<lambda>(protected, payload, value).
          bindR (protected_header protected kid) (\<lambda>_.
          bindR (need (payload = expected_payload) ''SIGNATURE_PAYLOAD_MISMATCH''
            [Txt ''Signature payload does not match canonical receipt payload: '', Str kid]) (\<lambda>_.
          bindR (signature_check lib trust_key kid protected payload value) (\<lambda>_.
          Inr (kid, signer_role))))))))
      | _ \<Rightarrow> reject ''SIGNATURE_INVALID'' [Txt ''Signature entry must be an object.''])"

section \<open>The loop and the result\<close>

text \<open>The accumulators of the loop: issues, the keys seen, the count and the roles matched.\<close>

record tally =
  tally_issues :: "issue list"
  seen_valid_kids :: "pystr list"
  valid_count :: nat
  roles_matched :: "pystr list"

definition empty_tally :: tally where
  "empty_tally = \<lparr>tally_issues = [], seen_valid_kids = [], valid_count = 0, roles_matched = []\<rparr>"

definition add_issue :: "issue \<Rightarrow> tally \<Rightarrow> tally" where
  "add_issue i t = t\<lparr>tally_issues := tally_issues t @ [i]\<rparr>"

definition count_signature :: "pystr \<times> pystr \<Rightarrow> tally \<Rightarrow> tally" where
  "count_signature signer t =
     (let (kid, signer_role) = signer in
      if kid \<in> set (seen_valid_kids t)
      then add_issue (warning_issue ''DUPLICATE_SIGNATURE_IGNORED''
             [Txt ''Duplicate signature ignored for signing key: '', Str kid]) t
      else t\<lparr>seen_valid_kids := kid # seen_valid_kids t, valid_count := valid_count t + 1,
             roles_matched := List.insert signer_role (roles_matched t)\<rparr>)"

fun tally_signatures :: "(pyval \<Rightarrow> stop + pystr \<times> pystr) \<Rightarrow> pyval list \<Rightarrow> tally \<Rightarrow> exc + tally" where
  "tally_signatures check [] t = Inr t"
| "tally_signatures check (entry # entries) t =
     (case check entry of
        Inl (Raise e) \<Rightarrow> Inl e
      | Inl (Reject i) \<Rightarrow> tally_signatures check entries (add_issue i t)
      | Inr signer \<Rightarrow> tally_signatures check entries (count_signature signer t))"

definition closing_stage :: "pydict \<Rightarrow> pystr list \<Rightarrow> int \<Rightarrow> tally \<Rightarrow> issue list" where
  "closing_stage receipt required_roles min_signatures t =
     map (\<lambda>role. error_issue ''REQUIRED_ROLE_MISSING'' [Txt ''Missing required role: '', Str role])
       (filter (\<lambda>role. role \<notin> set (roles_matched t)) required_roles) @
     (if int (valid_count t) < min_signatures
      then [error_issue ''MIN_SIGNATURES_NOT_MET''
              [Txt ''Only '', Num (int (valid_count t)), Txt '' valid signatures, required '',
               Num min_signatures, Txt ''.'']] else []) @
     issue_if (dget receipt (u ''release_class'') = PStr (u ''A'') \<and> min_signatures < 2)
       ''CLASS_A_POLICY_TOO_WEAK'' ''Release class A requires at least two valid signatures.''"

definition config_error :: "issue list \<Rightarrow> int \<Rightarrow> receipt_result" where
  "config_error policy_issues min_signatures =
     \<lparr>status = CONFIG_ERROR, verified = False, valid_signatures = 0,
      required_signatures = min_signatures, matched_roles = [], result_receipt_hash = None,
      issues = policy_issues @ [error_issue ''TRUST_REGISTRY_EMPTY''
        [Txt ''Trust registry is empty. Production verification is impossible.'']]\<rparr>"

definition receipt_outcome :: "issue list \<Rightarrow> int \<Rightarrow> pystr \<Rightarrow> tally \<Rightarrow> receipt_result" where
  "receipt_outcome all_issues min_signatures expected_hash t =
     (let has_errors = (\<exists>i \<in> set all_issues. severity i = Error) in
      \<lparr>status = (if has_errors then NOT_VERIFIED else RC_VERIFIED), verified = (\<not> has_errors),
       valid_signatures = valid_count t, required_signatures = min_signatures,
       matched_roles = sort (roles_matched t), result_receipt_hash = Some expected_hash,
       issues = all_issues\<rparr>)"

definition verify_receipt :: "crypto_lib \<Rightarrow> receipt_registry \<Rightarrow> pydict \<Rightarrow> exc + receipt_result" where
  "verify_receipt lib trust_registry receipt =
     bindR (receipt_policy_stage receipt) (\<lambda>(policy_issues, min_raw).
     if trust_registry = [] then Inr (config_error policy_issues min_raw)
     else
       bindR (header_stage receipt) (\<lambda>(header_issues, created_at).
       bindR (hash_stage receipt) (\<lambda>(hash_issues, expected_hash).
       bindR (payload_b64 receipt) (\<lambda>expected_payload.
       let (sig_issues, signatures) = signatures_stage receipt;
           (role_issues, required_roles) = required_roles_stage receipt;
           (min_issues, min_signatures) = min_signatures_stage min_raw
       in bindR (tally_signatures (check_signature lib trust_registry created_at expected_payload)
                   signatures empty_tally) (\<lambda>t.
          Inr (receipt_outcome
            (policy_issues @ header_issues @ hash_issues @ sig_issues @ role_issues @ min_issues @
             tally_issues t @ closing_stage receipt required_roles min_signatures t)
            min_signatures expected_hash t))))))"

section \<open>What a counted signature is\<close>

definition within_window :: "pydict \<Rightarrow> instant \<Rightarrow> bool" where
  "within_window trust_key t \<longleftrightarrow>
     (\<forall>s. dget trust_key (u ''not_before'') = PStr s \<longrightarrow>
        (\<exists>b. receipt_parse_rfc3339_utc s = Inr b \<and> b \<le> t)) \<and>
     (\<forall>s. dget trust_key (u ''not_after'') = PStr s \<longrightarrow>
        (\<exists>b. receipt_parse_rfc3339_utc s = Inr b \<and> t \<le> b))"

text \<open>The ECDSA signature of an input under the P-256 point of a JWK.\<close>

definition es256_valid :: "crypto_lib \<Rightarrow> pyval \<Rightarrow> pystr \<Rightarrow> pystr \<Rightarrow> bool" where
  "es256_valid lib key input value \<longleftrightarrow>
     (\<exists>jwk x y raw.
        key = PDict jwk \<and> dget jwk (u ''kty'') = PStr (u ''EC'') \<and> dget jwk (u ''crv'') = PStr (u ''P-256'') \<and>
        jwk_coordinate lib jwk ''x'' = Inr x \<and> jwk_coordinate lib jwk ''y'' = Inr y \<and>
        p256_point_ok lib x y \<and> b64url_decode value = Inr raw \<and> length raw = 64 \<and> encodable input \<and>
        ecdsa_sha256_verify lib (x, y)
          (encode_dss_signature lib (be_nat (take 32 raw)) (be_nat (drop 32 raw))) (utf8_bytes input))"

text \<open>
  An entry counts for a key and a role: the registry has the key, active, for ES256 and bound to
  that role, valid at the receipt's time; the payload is the receipt's; the protected header names
  the same key; and the signature verifies over header and payload.
\<close>

definition signed_by :: "crypto_lib \<Rightarrow> receipt_registry \<Rightarrow> instant option \<Rightarrow> pystr \<Rightarrow> pyval
    \<Rightarrow> pystr \<Rightarrow> pystr \<Rightarrow> bool" where
  "signed_by lib registry created_at payload entry kid role \<longleftrightarrow>
     (\<exists>signature trust_key protected header jwk value.
        entry = PDict signature \<and> dget signature (u ''kid'') = PStr kid \<and>
        dget signature (u ''signer_role'') = PStr role \<and> dget signature (u ''alg'') = PStr (u ''ES256'') \<and>
        map_of registry kid = Some trust_key \<and> dget trust_key (u ''status'') = PStr (u ''active'') \<and>
        dget trust_key (u ''alg'') = PStr (u ''ES256'') \<and> dget trust_key (u ''role'') = PStr role \<and>
        (\<forall>t. created_at = Some t \<longrightarrow> within_window trust_key t) \<and>
        dget signature (u ''protected'') = PStr protected \<and> protected \<noteq> [] \<and>
        dget signature (u ''payload'') = PStr payload \<and> payload \<noteq> [] \<and>
        dget signature (u ''signature'') = PStr value \<and> value \<noteq> [] \<and>
        decode_header protected = Inr (PDict header) \<and>
        dget header (u ''alg'') = PStr (u ''ES256'') \<and> dget header (u ''kid'') = PStr kid \<and>
        map_of trust_key (u ''jwk'') = Some jwk \<and>
        es256_valid lib jwk (protected @ [46] @ payload) value)"

lemma need_Inr [result_simps]: "need b c m = Inr x \<longleftrightarrow> b"
  by simp

lemma need_Inl [result_simps]: "need b c m = Inl s \<longleftrightarrow> \<not> b \<and> s = Reject (error_issue c m)"
  by auto

lemma load_es256_public_key_Inr:
  "load_es256_public_key lib key = Inr p \<longleftrightarrow>
     (\<exists>jwk x y. p = (x, y) \<and> key = PDict jwk \<and> dget jwk (u ''kty'') = PStr (u ''EC'') \<and>
        dget jwk (u ''crv'') = PStr (u ''P-256'') \<and> jwk_coordinate lib jwk ''x'' = Inr x \<and>
        jwk_coordinate lib jwk ''y'' = Inr y \<and> p256_point_ok lib x y)"
  by (auto simp: load_es256_public_key_def result_simps split: pyval.splits)

lemma verify_es256_True: "verify_es256_jws_signature lib key input value = Inr True \<longleftrightarrow> es256_valid lib key input value"
  by (auto simp: verify_es256_jws_signature_def load_es256_public_key_Inr raw_es256_to_der_def
      result_simps es256_valid_def)

lemma signature_metadata_Inr [result_simps]:
  "signature_metadata signature = Inr s \<longleftrightarrow>
     dget signature (u ''kid'') = PStr (fst s) \<and> dget signature (u ''signer_role'') = PStr (snd s) \<and>
     dget signature (u ''alg'') = PStr (u ''ES256'')"
  by (cases s) (auto simp: signature_metadata_def split: pyval.splits)

lemma receipt_trust_key_Inr [result_simps]:
  "receipt_trust_key registry kid role = Inr trust_key \<longleftrightarrow>
     map_of registry kid = Some trust_key \<and> dget trust_key (u ''status'') = PStr (u ''active'') \<and>
     dget trust_key (u ''alg'') = PStr (u ''ES256'') \<and> dget trust_key (u ''role'') = PStr role"
  by (auto simp: receipt_trust_key_def result_simps split: option.splits)

lemma window_bound_Inr:
  "window_bound bound inside c m = Inr x \<longleftrightarrow>
     (\<forall>s. bound = PStr s \<longrightarrow> (\<exists>t. receipt_parse_rfc3339_utc s = Inr t \<and> inside t))"
  by (auto simp: window_bound_def split: pyval.splits sum.splits if_splits)

lemma key_window_Inr [result_simps]:
  "key_window created_at trust_key kid = Inr x \<longleftrightarrow>
     (\<forall>t. created_at = Some t \<longrightarrow> within_window trust_key t)"
  by (auto simp: key_window_def result_simps window_bound_Inr within_window_def not_less
      split: option.splits)

lemma nonempty_str_Some: "nonempty_str v = Some s \<longleftrightarrow> v = PStr s \<and> s \<noteq> []"
  by (auto simp: nonempty_str_def split: pyval.splits if_splits)

lemma signature_parts_Inr [result_simps]:
  "signature_parts signature kid = Inr (protected, payload, value) \<longleftrightarrow>
     dget signature (u ''protected'') = PStr protected \<and> protected \<noteq> [] \<and>
     dget signature (u ''payload'') = PStr payload \<and> payload \<noteq> [] \<and>
     dget signature (u ''signature'') = PStr value \<and> value \<noteq> []"
  by (auto simp: signature_parts_def nonempty_str_Some split: option.splits)
    (auto simp: nonempty_str_def split: if_splits)

lemma protected_header_Inr [result_simps]:
  "protected_header protected kid = Inr x \<longleftrightarrow>
     (\<exists>header. decode_header protected = Inr (PDict header) \<and>
        dget header (u ''alg'') = PStr (u ''ES256'') \<and> dget header (u ''kid'') = PStr kid)"
  by (auto simp: protected_header_def result_simps split: sum.splits pyval.splits)

lemma signature_check_Inr [result_simps]:
  "signature_check lib trust_key kid protected payload value = Inr x \<longleftrightarrow>
     (\<exists>jwk. map_of trust_key (u ''jwk'') = Some jwk \<and>
        es256_valid lib jwk (protected @ [46] @ payload) value)"
  by (auto simp: signature_check_def verify_es256_True [symmetric] split: sum.splits option.splits if_splits)

lemma check_signature_Inr:
  "check_signature lib registry created_at payload entry = Inr (kid, role) \<longleftrightarrow>
     signed_by lib registry created_at payload entry kid role"
proof (cases entry)
  case (PDict signature)
  then show ?thesis
    by (simp add: check_signature_def result_simps signed_by_def) blast
qed (simp_all add: check_signature_def signed_by_def)

section \<open>The loop\<close>

text \<open>
  How a check can stop: it rejects with an error, it cannot convert a validity bound to UTC, or the
  key's JWK is not an object.
\<close>

definition stops_with :: "(stop \<Rightarrow> bool) \<Rightarrow> stop + 'a \<Rightarrow> bool" where
  "stops_with P m \<longleftrightarrow> (\<forall>s. m = Inl s \<longrightarrow> P s)"

fun allowed_stop :: "receipt_registry \<Rightarrow> stop \<Rightarrow> bool" where
  "allowed_stop registry (Reject i) = (severity i = Error)"
| "allowed_stop registry (Raise e) =
     (e = OverflowError \<or>
      e = AttributeError \<and> (\<exists>(kid, key) \<in> set registry. \<exists>jwk. map_of key (u ''jwk'') = Some jwk \<and> as_dict jwk = None))"

lemma severity_error_issue [simp]: "severity (error_issue c m) = Error"
  by (simp add: error_issue_def)

lemma stops_with_Inr [simp]: "stops_with P (Inr x)"
  by (simp add: stops_with_def)

lemma stops_with_Inl [simp]: "stops_with P (Inl s) \<longleftrightarrow> P s"
  by (simp add: stops_with_def)

lemma stops_with_bindR: "stops_with P m \<Longrightarrow> (\<And>x. m = Inr x \<Longrightarrow> stops_with P (f x)) \<Longrightarrow> stops_with P (bindR m f)"
  by (cases m) simp_all

lemma receipt_parse_error:
  "receipt_parse_rfc3339_utc s = Inl e \<Longrightarrow> is_ValueError e \<or> e = OverflowError"
  by (auto simp: receipt_parse_rfc3339_utc_def astimezone_utc_def Let_def result_simps
      dest!: fromisoformat_error split: option.splits if_splits)

lemma stops_window_bound: "stops_with (allowed_stop registry) (window_bound bound inside c m)"
  by (auto simp: window_bound_def dest: receipt_parse_error split: pyval.split sum.split)

lemma stops_key_window: "stops_with (allowed_stop registry) (key_window created_at trust_key kid)"
  by (auto simp: key_window_def intro!: stops_with_bindR stops_window_bound split: option.split)

lemma stops_signature_metadata: "stops_with (allowed_stop registry) (signature_metadata signature)"
  by (simp add: signature_metadata_def split: pyval.split)

lemma stops_receipt_trust_key: "stops_with (allowed_stop registry) (receipt_trust_key registry kid role)"
  by (simp add: receipt_trust_key_def split: option.split)

lemma stops_signature_parts: "stops_with (allowed_stop registry) (signature_parts signature kid)"
  by (simp add: signature_parts_def split: option.split)

lemma decode_header_error: "decode_header protected = Inl e \<Longrightarrow> is_ValueError e"
  by (auto simp: decode_header_def result_simps dest: b64url_decode_error decode_utf8_error json_loads_error)

lemma stops_protected_header: "stops_with (allowed_stop registry) (protected_header protected kid)"
  by (simp add: protected_header_def decode_header_error split: sum.split pyval.split)

lemma verify_es256_error:
  assumes "verify_es256_jws_signature lib jwk input value = Inl e"
  shows "is_ValueError e \<or> e = KeyError \<or> e = AttributeError \<and> as_dict jwk = None"
  using assms
  by (auto simp: verify_es256_jws_signature_def result_simps load_es256_public_key_def encode_utf8_def
      jwk_coordinate_def raw_es256_to_der_def dest: b64url_decode_error
      split: pyval.splits option.splits if_splits)

lemma stops_signature_check:
  assumes "map_of registry kid = Some trust_key"
  shows "stops_with (allowed_stop registry) (signature_check lib trust_key kid protected payload value)"
proof (cases "map_of trust_key (u ''jwk'')")
  case None
  then show ?thesis by (simp add: signature_check_def)
next
  case (Some jwk)
  have "(kid, trust_key) \<in> set registry" using assms by (rule map_of_SomeD)
  with Some show ?thesis
    by (auto simp: signature_check_def dest: verify_es256_error split: sum.split)
qed

lemma stops_check_signature:
  "stops_with (allowed_stop registry) (check_signature lib registry created_at payload entry)"
  by (auto simp: check_signature_def result_simps
      intro!: stops_with_bindR stops_signature_metadata stops_receipt_trust_key stops_key_window
        stops_signature_parts stops_protected_header stops_signature_check split: pyval.split)

lemma check_signature_Inl:
  "check_signature lib registry created_at payload entry = Inl s \<Longrightarrow> allowed_stop registry s"
  using stops_check_signature [of registry lib created_at payload entry] by (simp add: stops_with_def)

lemma signed_by_role:
  "signed_by lib registry c p e kid r \<Longrightarrow> signed_by lib registry c' p' e' kid r' \<Longrightarrow> r = r'"
  by (auto simp: signed_by_def)

text \<open>
  The loop needs two laws of the check of one entry: the key decides the role, and what is not
  counted is an error.
\<close>

definition signers :: "(pyval \<Rightarrow> stop + pystr \<times> pystr) \<Rightarrow> pyval list \<Rightarrow> (pystr \<times> pystr) set" where
  "signers check entries = {s. \<exists>entry \<in> set entries. check entry = Inr s}"

text \<open>A tally that has counted exactly the signers of a set.\<close>

definition counts :: "tally \<Rightarrow> (pystr \<times> pystr) set \<Rightarrow> bool" where
  "counts t S \<longleftrightarrow> set (seen_valid_kids t) = fst ` S \<and> valid_count t = card (fst ` S) \<and>
     set (roles_matched t) = snd ` S \<and> distinct (roles_matched t)"

definition no_errors :: "issue list \<Rightarrow> bool" where
  "no_errors is \<longleftrightarrow> (\<forall>i \<in> set is. severity i \<noteq> Error)"

lemma no_errors_simps [simp]:
  "no_errors []" "no_errors (is @ js) \<longleftrightarrow> no_errors is \<and> no_errors js"
  "no_errors (i # is) \<longleftrightarrow> severity i \<noteq> Error \<and> no_errors is"
  "no_errors (issue_if b c m) \<longleftrightarrow> \<not> b"
  by (auto simp: no_errors_def issue_if_def)

lemma add_issue_simps [simp]:
  "tally_issues (add_issue i t) = tally_issues t @ [i]"
  "seen_valid_kids (add_issue i t) = seen_valid_kids t"
  "valid_count (add_issue i t) = valid_count t" "roles_matched (add_issue i t) = roles_matched t"
  "counts (add_issue i t) S \<longleftrightarrow> counts t S"
  by (simp_all add: add_issue_def counts_def)

lemma signers_Nil [simp]: "signers check [] = {}"
  by (simp add: signers_def)

lemma signers_Cons:
  "signers check (entry # entries) =
     (case check entry of Inr s \<Rightarrow> insert s (signers check entries) | Inl _ \<Rightarrow> signers check entries)"
  by (auto simp: signers_def split: sum.split)

lemma no_errors_count [simp]:
  "no_errors (tally_issues (count_signature s t)) \<longleftrightarrow> no_errors (tally_issues t)"
  by (simp add: count_signature_def Let_def case_prod_unfold warning_issue_def)

locale signer_check =
  fixes check :: "pyval \<Rightarrow> stop + pystr \<times> pystr"
  assumes role_of_kid: "check e = Inr (kid, r) \<Longrightarrow> check e' = Inr (kid, r') \<Longrightarrow> r = r'"
    and reject_error: "check e = Inl (Reject i) \<Longrightarrow> severity i = Error"
begin

lemma count_signature_counts:
  assumes "counts t S" and "check e = Inr s" and S: "\<forall>s' \<in> S. \<exists>e'. check e' = Inr s'" and "finite S"
  shows "counts (count_signature s t) (insert s S)"
proof -
  obtain kid r where s: "s = (kid, r)" by (cases s)
  show ?thesis
  proof (cases "kid \<in> fst ` S")
    case True
    then obtain r' where "(kid, r') \<in> S" by auto
    moreover from this S assms(2) s have "r' = r" by (meson role_of_kid)
    ultimately have "insert s S = S" using s by auto
    with True s assms(1) show ?thesis by (simp add: count_signature_def counts_def)
  next
    case False
    with s assms(1,4) show ?thesis by (simp add: count_signature_def counts_def)
  qed
qed

lemma tally_counts:
  assumes "tally_signatures check es t = Inr t'" and "counts t S" and "finite S"
    and "\<forall>s \<in> S. \<exists>e. check e = Inr s"
  shows "counts t' (S \<union> signers check es)"
  using assms
proof (induction es arbitrary: t S)
  case (Cons e es)
  show ?case
  proof (cases "check e")
    case (Inl st)
    with Cons show ?thesis by (cases st) (auto simp: signers_Cons)
  next
    case (Inr s)
    have "counts (count_signature s t) (insert s S)"
      using Cons.prems Inr by (blast intro: count_signature_counts)
    with Cons.prems Inr have "counts t' (insert s S \<union> signers check es)"
      by (intro Cons.IH) auto
    with Inr show ?thesis by (simp add: signers_Cons)
  qed
qed simp

lemma tally_no_errors:
  "tally_signatures check es t = Inr t' \<Longrightarrow>
     no_errors (tally_issues t') \<longleftrightarrow> no_errors (tally_issues t) \<and> (\<forall>e \<in> set es. \<exists>s. check e = Inr s)"
  by (induction es arbitrary: t) (auto dest: reject_error split: sum.splits stop.splits)

lemma tally_all: "\<forall>e \<in> set es. \<exists>s. check e = Inr s \<Longrightarrow> \<exists>t'. tally_signatures check es t = Inr t'"
  by (induction es arbitrary: t) auto

lemma tally_raises:
  "tally_signatures check es t = Inl e \<Longrightarrow> \<exists>entry \<in> set es. check entry = Inl (Raise e)"
  by (induction es arbitrary: t) (auto split: sum.splits stop.splits)

lemma tally_empty_counts:
  "tally_signatures check es empty_tally = Inr t \<Longrightarrow> counts t (signers check es)"
  using tally_counts [of es empty_tally t "{}"] by (simp add: counts_def empty_tally_def)

end

interpretation receipt_check: signer_check "check_signature lib registry created_at payload"
  for lib registry created_at payload
  by unfold_locales (auto simp: check_signature_Inr dest: signed_by_role check_signature_Inl)

end
