(* ===== verification/Registry_Loader.thy ===== *)
theory Registry_Loader
  imports Trust Policy Json_Laws Utf8
begin

text \<open>
  \<open>src/sentinel_core/registry_loader.py\<close>: the trust and policy registries read from JSON files. The
  file system is left out: the loaders take the bytes of the file. Text mode decodes strictly and
  turns every line end into a newline.
\<close>

section \<open>Reading\<close>

definition ALLOWED_ROLES :: "pystr set" where
  "ALLOWED_ROLES = {u ''sensor'', u ''auditor'', u ''authority'', u ''admin''}"

definition ALLOWED_DECISIONS :: "pystr set" where
  "ALLOWED_DECISIONS = {u ''allow'', u ''deny'', u ''review'', u ''quarantine''}"

definition ALLOWED_KEY_STATUS :: "pystr set" where
  "ALLOWED_KEY_STATUS = {u ''active'', u ''revoked'', u ''expired''}"

definition ALLOWED_TRUST_ALGORITHMS :: "pystr set" where
  "ALLOWED_TRUST_ALGORITHMS = {u ''EdDSA''}"

fun universal_newlines :: "pystr \<Rightarrow> pystr" where
  "universal_newlines [] = []"
| "universal_newlines (c # s) =
     (if c = 13 then 10 # universal_newlines (if take 1 s = [10] then drop 1 s else s)
      else c # universal_newlines s)"

definition read_text :: "bytes \<Rightarrow> exc + pystr" where
  "read_text raw = bindR (decode_utf8 raw) (\<lambda>s. Inr (universal_newlines s))"

definition load_json_object :: "pystr \<Rightarrow> bytes \<Rightarrow> exc + pydict" where
  "load_json_object path raw =
     bindR (bindR (read_text raw) json_loads) (\<lambda>data.
       case data of
         PDict d \<Rightarrow> Inr d
       | _ \<Rightarrow> Inl (RegistryLoaderError [Txt ''registry root must be an object: '', Str path]))"

definition required_str :: "pyval \<Rightarrow> msg \<Rightarrow> exc + pystr" where
  "required_str value field =
     (case value of
        PStr s \<Rightarrow>
          if s = [] then Inl (RegistryLoaderError (field @ [Txt '' must be a non-empty string''])) else Inr s
      | _ \<Rightarrow> Inl (RegistryLoaderError (field @ [Txt '' must be a non-empty string''])))"

definition optional_time :: "pyval \<Rightarrow> string \<Rightarrow> exc + pystr option" where
  "optional_time value field =
     (case value of
        PNone \<Rightarrow> Inr None
      | PStr s \<Rightarrow>
          if s = [] then Inl (RegistryLoaderError [Txt field, Txt '' must be null or a non-empty RFC3339 string''])
          else (case parse_rfc3339_utc s of
              Inr _ \<Rightarrow> Inr (Some s)
            | Inl e \<Rightarrow> if is_ValueError e then Inl (RegistryLoaderError [Exc e]) else Inl e)
      | _ \<Rightarrow> Inl (RegistryLoaderError [Txt field, Txt '' must be null or a non-empty RFC3339 string'']))"

definition allowed_or :: "pystr set \<Rightarrow> string \<Rightarrow> pystr \<Rightarrow> exc + unit" where
  "allowed_or allowed what s =
     (if s \<in> allowed then Inr () else Inl (RegistryLoaderError [Txt what, Str s]))"

section \<open>The trust registry\<close>

definition key_field :: "nat \<Rightarrow> string \<Rightarrow> msg" where
  "key_field index name = [Txt ''keys['', Num (int index), Txt ''].'', Txt name]"

definition load_trust_key :: "nat \<Rightarrow> pyval \<Rightarrow> exc + trust_key" where
  "load_trust_key index raw =
     (case raw of
        PDict raw_key \<Rightarrow>
          bindR (required_str (dget raw_key (u ''key_id'')) (key_field index ''key_id'')) (\<lambda>kid.
          bindR (required_str (dget raw_key (u ''alg'')) (key_field index ''alg'')) (\<lambda>alg.
          bindR (required_str (dget raw_key (u ''public_key'')) (key_field index ''public_key'')) (\<lambda>public.
          bindR (required_str (dget raw_key (u ''role'')) (key_field index ''role'')) (\<lambda>role.
          bindR (required_str (case map_of raw_key (u ''status'') of None \<Rightarrow> PStr (u ''active'') | Some v \<Rightarrow> v)
                   (key_field index ''status'')) (\<lambda>status.
          bindR (allowed_or ALLOWED_TRUST_ALGORITHMS ''unsupported trust key algorithm: '' alg) (\<lambda>_.
          bindR (allowed_or ALLOWED_ROLES ''unsupported trust key role: '' role) (\<lambda>_.
          bindR (allowed_or ALLOWED_KEY_STATUS ''unsupported trust key status: '' status) (\<lambda>_.
          bindR (optional_time (dget raw_key (u ''not_before'')) ''not_before'') (\<lambda>nb.
          bindR (optional_time (dget raw_key (u ''not_after'')) ''not_after'') (\<lambda>na.
            Inr \<lparr>key_id = kid, key_alg = alg, public_key = public, key_role = role, key_status = status,
                 not_before = nb, not_after = na\<rparr>))))))))))
      | _ \<Rightarrow> Inl (RegistryLoaderError [Txt ''keys['', Num (int index), Txt ''] must be an object'']))"

text \<open>A loop over \<open>enumerate(xs)\<close> that appends what its body yields.\<close>

fun collect_from :: "nat \<Rightarrow> (nat \<Rightarrow> pyval \<Rightarrow> exc + 'a) \<Rightarrow> pyval list \<Rightarrow> exc + 'a list" where
  "collect_from i body [] = Inr []"
| "collect_from i body (x # xs) =
     bindR (body i x) (\<lambda>y. bindR (collect_from (Suc i) body xs) (\<lambda>ys. Inr (y # ys)))"

definition load_trust_registry :: "pystr \<Rightarrow> bytes \<Rightarrow> exc + trust_registry" where
  "load_trust_registry path raw =
     bindR (load_json_object path raw) (\<lambda>data.
       case dget data (u ''keys'') of
         PList keys_data \<Rightarrow> bindR (collect_from 0 load_trust_key keys_data) (\<lambda>keys. Inr (trust_registry_init keys))
       | _ \<Rightarrow> Inl (RegistryLoaderError [Txt ''trust registry requires a keys array'']))"

section \<open>The policy registry\<close>

definition string_list :: "pyval list \<Rightarrow> pystr list option" where
  "string_list xs =
     (if list_all (\<lambda>x. as_str x \<noteq> None) xs then Some (List.map_filter as_str xs) else None)"

definition load_decisions :: "pyval \<Rightarrow> exc + pystr set" where
  "load_decisions v =
     (case v of
        PList xs \<Rightarrow>
          if xs = [] then Inl (RegistryLoaderError [Txt ''allowed_decisions must be a non-empty array''])
          else (case string_list xs of
              None \<Rightarrow> Inl (RegistryLoaderError [Txt ''allowed_decisions must contain only strings''])
            | Some decisions \<Rightarrow>
                let invalid = filter (\<lambda>d. d \<notin> ALLOWED_DECISIONS) decisions in
                if invalid \<noteq> []
                then Inl (RegistryLoaderError [Txt ''unsupported policy decisions: '',
                       Val (PList (map PStr (sort (remdups invalid))))])
                else Inr (set decisions))
      | _ \<Rightarrow> Inl (RegistryLoaderError [Txt ''allowed_decisions must be a non-empty array'']))"

definition load_sources :: "pyval \<Rightarrow> exc + pystr set" where
  "load_sources v =
     (case v of
        PList xs \<Rightarrow>
          (case string_list xs of
             None \<Rightarrow> Inl (RegistryLoaderError [Txt ''allowed_sources must contain only strings''])
           | Some sources \<Rightarrow> Inr (set sources))
      | _ \<Rightarrow> Inl (RegistryLoaderError [Txt ''allowed_sources must be an array when provided'']))"

definition load_policy_rule :: "nat \<Rightarrow> pyval \<Rightarrow> exc + policy_rule" where
  "load_policy_rule index raw =
     (case raw of
        PDict raw_rule \<Rightarrow>
          bindR (required_str (dget raw_rule (u ''role''))
                   [Txt ''rules['', Num (int index), Txt ''].role'']) (\<lambda>role.
          bindR (allowed_or ALLOWED_ROLES ''unsupported policy role: '' role) (\<lambda>_.
          bindR (load_decisions (dget raw_rule (u ''allowed_decisions''))) (\<lambda>decisions.
          bindR (load_sources (case map_of raw_rule (u ''allowed_sources'') of None \<Rightarrow> PList [] | Some v \<Rightarrow> v))
            (\<lambda>sources.
            Inr \<lparr>rule_role = role, allowed_decisions = decisions, allowed_sources = sources\<rparr>))))
      | _ \<Rightarrow> Inl (RegistryLoaderError [Txt ''rules['', Num (int index), Txt ''] must be an object'']))"

definition load_policy_version :: "nat \<Rightarrow> pyval \<Rightarrow> exc + policy_version" where
  "load_policy_version index raw =
     (case raw of
        PDict raw_policy \<Rightarrow>
          bindR (required_str (dget raw_policy (u ''policy_id'')) [Txt ''policy_id'']) (\<lambda>pid.
          bindR (required_str (dget raw_policy (u ''version'')) [Txt ''version'']) (\<lambda>version.
          case dget raw_policy (u ''rules'') of
            PList rules_data \<Rightarrow>
              bindR (collect_from 0 load_policy_rule rules_data) (\<lambda>rs.
                Inr \<lparr>policy_id = pid, policy_number = version, rules = rs\<rparr>)
          | _ \<Rightarrow> Inl (RegistryLoaderError [Txt ''policy '', Str pid, Txt '' requires a rules array''])))
      | _ \<Rightarrow> Inl (RegistryLoaderError [Txt ''policies['', Num (int index), Txt ''] must be an object'']))"

definition load_policy_registry :: "pystr \<Rightarrow> bytes \<Rightarrow> exc + policy_registry" where
  "load_policy_registry path raw =
     bindR (load_json_object path raw) (\<lambda>data.
       case dget data (u ''policies'') of
         PList policies_data \<Rightarrow>
           bindR (collect_from 0 load_policy_version policies_data) (\<lambda>policies.
             Inr (policy_registry_init policies))
       | _ \<Rightarrow> Inl (RegistryLoaderError [Txt ''policy registry requires a policies array'']))"

end
