(* ===== verification/Json_Text.thy ===== *)
theory Json_Text
  imports Json_Laws Utf8
begin

text \<open>
  The characters of compact JSON text: it contains no carriage return, and it can be encoded in
  UTF-8 if the strings of the value can.
\<close>

lemma not_in_join: "x \<notin> set sep \<Longrightarrow> (\<And>s. s \<in> set ss \<Longrightarrow> x \<notin> set s) \<Longrightarrow> x \<notin> set (join sep ss)"
  by (induction sep ss rule: join.induct) auto

lemma encodable_join: "encodable sep \<Longrightarrow> (\<And>s. s \<in> set ss \<Longrightarrow> encodable s) \<Longrightarrow> encodable (join sep ss)"
  by (induction sep ss rule: join.induct) auto

lemma hex_digit_bounds: "48 \<le> hex_digit n \<and> hex_digit n \<le> 87 + n"
  by (simp add: hex_digit_def)

section \<open>Carriage returns\<close>

fun float_free :: "pyval \<Rightarrow> bool" where
  "float_free (PFloat t) = False"
| "float_free (PList xs) = (\<forall>x \<in> set xs. float_free x)"
| "float_free (PDict d) = (\<forall>p \<in> set d. float_free (snd p))"
| "float_free _ = True"

lemma json_escape_no_cr: "13 \<notin> set (json_escape c)"
  using hex_digit_bounds [of "c div 16"] hex_digit_bounds [of "c mod 16"]
  by (auto simp: json_escape_def simp del: One_nat_def)

lemma json_str_no_cr: "13 \<notin> set (json_str s)"
  by (auto simp: json_str_def json_escape_no_cr)

lemma int_repr_no_cr: "13 \<notin> set (int_repr i)"
  using nat_repr_digits [of 13] by (auto simp: int_repr_def is_digit_def)

lemma json_encode_no_cr: "float_free v \<Longrightarrow> 13 \<notin> set (json_encode v)"
proof (induction v)
  case (PList xs)
  then have "13 \<notin> set (join [44] (map json_encode xs))" by (intro not_in_join) auto
  then show ?case by simp
next
  case (PDict d)
  have "13 \<notin> set (json_encode (snd p))" if "p \<in> set d" for p
    using PDict that by (cases p) (auto simp: snds.simps)
  then have "13 \<notin> set (join [44] (map (\<lambda>p. json_str (fst p) @ [58] @ json_encode (snd p)) d))"
    by (intro not_in_join) (auto simp: json_str_no_cr)
  then show ?case by simp
qed (auto simp: json_str_no_cr int_repr_no_cr u_def)

section \<open>Encodable text\<close>

fun texts_encodable :: "pyval \<Rightarrow> bool" where
  "texts_encodable (PStr s) = encodable s"
| "texts_encodable (PFloat t) = encodable t"
| "texts_encodable (PList xs) = (\<forall>x \<in> set xs. texts_encodable x)"
| "texts_encodable (PDict d) = (\<forall>p \<in> set d. encodable (fst p) \<and> texts_encodable (snd p))"
| "texts_encodable _ = True"

lemma is_scalar_small: "c < 128 \<Longrightarrow> is_scalar c"
  by (simp add: is_scalar_def is_surrogate_def)

lemma json_escape_encodable: "is_scalar c \<Longrightarrow> encodable (json_escape c)"
  by (auto simp: json_escape_def encodable_Cons is_scalar_small hex_digit_def)

lemma json_str_encodable: "encodable s \<Longrightarrow> encodable (json_str s)"
  by (induction s) (auto simp: json_str_def encodable_Cons is_scalar_small json_escape_encodable)

lemma int_repr_encodable: "encodable (int_repr i)"
proof -
  have "encodable (nat_repr n)" for n
    by (auto simp: encodable_def is_digit_def intro!: is_scalar_small dest!: nat_repr_digits)
  then show ?thesis by (simp add: int_repr_def encodable_Cons is_scalar_small)
qed

lemma json_encode_encodable: "texts_encodable v \<Longrightarrow> encodable (json_encode v)"
proof (induction v)
  case (PList xs)
  then have "encodable (join [44] (map json_encode xs))"
    by (intro encodable_join) (auto simp: encodable_Cons is_scalar_small)
  then show ?case by (simp add: encodable_Cons is_scalar_small)
next
  case (PDict d)
  have "encodable (json_encode (snd p))" if "p \<in> set d" for p
    using PDict that by (cases p) (auto simp: snds.simps)
  with PDict.prems have "encodable (join [44] (map (\<lambda>p. json_str (fst p) @ [58] @ json_encode (snd p)) d))"
    by (intro encodable_join) (auto simp: encodable_Cons is_scalar_small json_str_encodable)
  then show ?case by (simp add: encodable_Cons is_scalar_small)
qed (simp_all add: json_str_encodable int_repr_encodable)

lemma texts_encodable_sort_keys: "texts_encodable v \<Longrightarrow> texts_encodable (sort_keys v)"
proof (induction v)
  case (PDict d)
  have "texts_encodable (sort_keys (snd p))" if "p \<in> set d" for p
    using PDict that by (cases p) (auto simp: snds.simps)
  with PDict.prems show ?case by auto
qed auto

end
