(* ===== verification/Registry_Laws.thy ===== *)
theory Registry_Laws
  imports Registry_Loader Verifier Json_Text
begin

text \<open>
  What the registry loaders guarantee: every loaded key, policy and rule is well formed, so loaded
  registries stay inside the four roles and decisions and their windows are readable; every
  well-formed trust registry is loadable; and the bootstrap file holds the built-in policy.
\<close>

section \<open>What was loaded is well formed\<close>

definition time_ok :: "pystr option \<Rightarrow> bool" where
  "time_ok bound \<longleftrightarrow> (\<forall>s. bound = Some s \<longrightarrow> s \<noteq> [] \<and> (\<exists>t. parse_rfc3339_utc s = Inr t))"

definition trust_key_ok :: "trust_key \<Rightarrow> bool" where
  "trust_key_ok key \<longleftrightarrow>
     key_id key \<noteq> [] \<and> key_alg key \<in> ALLOWED_TRUST_ALGORITHMS \<and> public_key key \<noteq> [] \<and>
     key_role key \<in> ALLOWED_ROLES \<and> key_status key \<in> ALLOWED_KEY_STATUS \<and>
     time_ok (not_before key) \<and> time_ok (not_after key)"

definition policy_rule_ok :: "policy_rule \<Rightarrow> bool" where
  "policy_rule_ok rule \<longleftrightarrow>
     rule_role rule \<in> ALLOWED_ROLES \<and> allowed_decisions rule \<noteq> {} \<and>
     allowed_decisions rule \<subseteq> ALLOWED_DECISIONS"

definition policy_version_ok :: "policy_version \<Rightarrow> bool" where
  "policy_version_ok policy \<longleftrightarrow>
     policy_id policy \<noteq> [] \<and> policy_number policy \<noteq> [] \<and> (\<forall>rule \<in> set (rules policy). policy_rule_ok rule)"

lemma required_str_Inr [result_simps]: "required_str v f = Inr s \<longleftrightarrow> v = PStr s \<and> s \<noteq> []"
  by (auto simp: required_str_def split: pyval.splits if_splits)

lemma allowed_or_Inr [result_simps]: "allowed_or A w s = Inr x \<longleftrightarrow> s \<in> A"
  by (simp add: allowed_or_def)

lemma optional_time_Inr:
  "optional_time v f = Inr b \<longleftrightarrow> time_ok b \<and> v = (case b of None \<Rightarrow> PNone | Some s \<Rightarrow> PStr s)"
  by (cases b) (auto simp: optional_time_def time_ok_def split: pyval.splits sum.splits if_splits)

lemma collect_from_all:
  "collect_from i body xs = Inr ys \<Longrightarrow> (\<And>i x y. body i x = Inr y \<Longrightarrow> P y) \<Longrightarrow> \<forall>y \<in> set ys. P y"
  by (induction xs arbitrary: i ys) (auto simp: result_simps)

lemma collect_from_error:
  "collect_from i body xs = Inl e \<Longrightarrow> \<exists>i x. body i x = Inl e"
  by (induction xs arbitrary: i) (auto simp: result_simps)

lemma collect_from_map:
  "(\<And>i x. x \<in> set xs \<Longrightarrow> body i (f x) = Inr x) \<Longrightarrow> collect_from i body (map f xs) = Inr xs"
  by (induction xs arbitrary: i) auto

lemma load_trust_key_ok: "load_trust_key i raw = Inr key \<Longrightarrow> trust_key_ok key"
  by (auto simp: load_trust_key_def result_simps optional_time_Inr trust_key_ok_def split: pyval.splits)

lemma map_PStr_eq [simp]: "map PStr xs = map PStr ys \<longleftrightarrow> xs = ys"
  by (rule inj_map_eq_map) (simp add: inj_def)

lemma string_list_map: "string_list (map PStr ss) = Some ss"
proof -
  have "List.map_filter as_str (map PStr ss) = ss" by (induction ss) (simp_all add: map_filter_simps)
  then show ?thesis by (simp add: string_list_def list_all_iff)
qed

lemma list_all_as_str: "list_all (\<lambda>x. as_str x \<noteq> None) xs \<Longrightarrow> \<exists>ss. xs = map PStr ss"
  by (induction xs) (auto simp: as_str_Some_iff Cons_eq_map_conv)

lemma string_list_Some: "string_list xs = Some ss \<longleftrightarrow> xs = map PStr ss"
proof
  assume s: "string_list xs = Some ss"
  then obtain ts where "xs = map PStr ts"
    using list_all_as_str [of xs] by (auto simp: string_list_def split: if_splits)
  with s show "xs = map PStr ss" by (simp add: string_list_map)
qed (simp add: string_list_map)

lemma case_PList_Inr [result_simps]:
  "(case v of PList xs \<Rightarrow> f xs | _ \<Rightarrow> Inl e) = Inr y \<longleftrightarrow> (\<exists>xs. v = PList xs \<and> f xs = Inr y)"
  by (cases v) auto

lemma case_PList_Inl [result_simps]:
  "(case v of PList xs \<Rightarrow> f xs | _ \<Rightarrow> Inl e) = Inl e' \<longleftrightarrow>
     (\<exists>xs. v = PList xs \<and> f xs = Inl e') \<or> (\<forall>xs. v \<noteq> PList xs) \<and> e' = e"
  by (cases v) auto

lemma load_decisions_Inr:
  "load_decisions v = Inr D \<longleftrightarrow> (\<exists>ss. v = PList (map PStr ss) \<and> ss \<noteq> [] \<and> D = set ss \<and> D \<subseteq> ALLOWED_DECISIONS)"
  by (auto simp: load_decisions_def string_list_Some string_list_map Let_def filter_empty_conv
      split: pyval.splits option.splits if_splits)

lemma load_policy_rule_ok: "load_policy_rule i raw = Inr rule \<Longrightarrow> policy_rule_ok rule"
  by (auto simp: load_policy_rule_def result_simps load_decisions_Inr policy_rule_ok_def split: pyval.splits)

lemma load_policy_version_ok: "load_policy_version i raw = Inr policy \<Longrightarrow> policy_version_ok policy"
  by (auto simp: load_policy_version_def result_simps policy_version_ok_def
      dest: collect_from_all [OF _ load_policy_rule_ok] split: pyval.splits)

lemma load_trust_registry_ok:
  "load_trust_registry path raw = Inr reg \<Longrightarrow>
     \<exists>keys. reg = trust_registry_init keys \<and> (\<forall>key \<in> set keys. trust_key_ok key)"
  by (auto simp: load_trust_registry_def result_simps dest: collect_from_all [OF _ load_trust_key_ok]
      split: pyval.splits)

lemma load_policy_registry_ok:
  "load_policy_registry path raw = Inr reg \<Longrightarrow>
     \<exists>policies. reg = policy_registry_init policies \<and> (\<forall>policy \<in> set policies. policy_version_ok policy)"
  by (auto simp: load_policy_registry_def result_simps dest: collect_from_all [OF _ load_policy_version_ok]
      split: pyval.splits)

section \<open>Loaded registries in use\<close>

lemma check_window_ok:
  "time_ok (not_before key) \<Longrightarrow> check_not_before key kid at t = Inl e \<Longrightarrow> \<exists>m. e = TrustRegistryError m"
  "time_ok (not_after key) \<Longrightarrow> check_not_after key kid at t = Inl e \<Longrightarrow> \<exists>m. e = TrustRegistryError m"
  by (auto simp: check_not_before_def check_not_after_def time_ok_def result_simps
      split: option.splits if_splits)

text \<open>
  Whatever trust registry was loaded from a file, a key it resolves is an active EdDSA key with one
  of the four roles, and the resolution raises nothing but \<open>TrustRegistryError\<close> for an issue time
  that parses: the windows of loaded keys are always readable.
\<close>

theorem loaded_trust_registry_safe:
  assumes "load_trust_registry path raw = Inr reg" and "parse_rfc3339_utc at = Inr t"
  shows "case resolve_active_key_at reg kid alg at of
       Inr key \<Rightarrow> trust_key_ok key \<and> key_status key = u ''active'' \<and> key_id key = kid
     | Inl e \<Rightarrow> \<exists>m. e = TrustRegistryError m"
proof -
  obtain keys where reg: "reg = trust_registry_init keys" and ok: "\<forall>key \<in> set keys. trust_key_ok key"
    using load_trust_registry_ok [OF assms(1)] by blast
  have found: "trust_key_ok key \<and> key_id key = kid" if "map_of reg kid = Some key" for key
    using trust_reg.lookup_build_Some [of keys kid key] that ok reg by blast
  show ?thesis
  proof (cases "resolve_active_key reg kid alg")
    case (Inl e)
    then have "\<exists>m. e = TrustRegistryError m"
      by (auto simp: resolve_active_key_def split: option.splits if_splits)
    with Inl show ?thesis by (simp add: resolve_active_key_at_def)
  next
    case (Inr key)
    then have key: "trust_key_ok key \<and> key_id key = kid" "key_status key = u ''active''"
      using found by (auto simp: resolve_active_key_Inr)
    with Inr assms(2) show ?thesis
      by (auto simp: resolve_active_key_at_def bindR_def trust_key_ok_def dest: check_window_ok split: sum.split)
  qed
qed

text \<open>
  A record is authorized under a policy registry loaded from a file only for one of the four roles
  and one of the four decisions.
\<close>

theorem loaded_policy_registry_closed:
  assumes "load_policy_registry path raw = Inr reg" and "authorize_record record role reg = Inr ()"
  shows "role \<in> ALLOWED_ROLES \<and> (\<exists>d \<in> ALLOWED_DECISIONS. dget record (u ''decision'') = PStr d)"
proof -
  obtain policies where reg: "reg = policy_registry_init policies"
    and ok: "\<forall>policy \<in> set policies. policy_version_ok policy"
    using load_policy_registry_ok [OF assms(1)] by blast
  from assms(2) obtain pid decision source policy rule where
    "dget record (u ''decision'') = PStr decision" "map_of reg pid = Some policy"
    "find_rule (rules policy) role = Some rule" "rule_allows rule decision source"
    unfolding authorize_record_Inr authorized_def by blast
  moreover from this reg have "policy \<in> set policies" using policy_reg.lookup_build_Some by blast
  ultimately show ?thesis using ok find_rule_Some [of "rules policy" role rule]
    by (auto simp: policy_version_ok_def policy_rule_ok_def rule_allows_def)
qed

section \<open>Errors\<close>

lemma optional_time_error: "optional_time v f = Inl e \<Longrightarrow> e = OverflowError \<or> (\<exists>m. e = RegistryLoaderError m)"
  by (auto simp: optional_time_def dest: parse_rfc3339_error split: pyval.splits sum.splits if_splits)

lemma required_str_error: "required_str v f = Inl e \<Longrightarrow> \<exists>m. e = RegistryLoaderError m"
  by (auto simp: required_str_def split: pyval.splits if_splits)

lemma allowed_or_error: "allowed_or A w s = Inl e \<Longrightarrow> \<exists>m. e = RegistryLoaderError m"
  by (auto simp: allowed_or_def split: if_splits)

lemma load_trust_key_error: "load_trust_key i raw = Inl e \<Longrightarrow> e = OverflowError \<or> (\<exists>m. e = RegistryLoaderError m)"
  by (auto simp: load_trust_key_def result_simps dest: optional_time_error required_str_error allowed_or_error
      split: pyval.splits)

lemma load_json_object_error:
  assumes "load_json_object path raw = Inl e" shows "is_ValueError e"
proof (cases "bindR (read_text raw) json_loads")
  case (Inl e')
  with assms show ?thesis
    by (auto simp: load_json_object_def read_text_def result_simps dest: decode_utf8_error json_loads_error)
next
  case (Inr v)
  with assms show ?thesis by (cases v) (auto simp: load_json_object_def)
qed

text \<open>
  Loading a trust registry fails only with a \<open>ValueError\<close> (a \<open>RegistryLoaderError\<close>, or the error of
  the UTF-8 or JSON decoder) or with the \<open>OverflowError\<close> of a validity bound outside the calendar.
\<close>

theorem load_trust_registry_error:
  assumes "load_trust_registry path raw = Inl e"
  shows "is_ValueError e \<or> e = OverflowError"
  using assms
  by (auto simp: load_trust_registry_def result_simps dest!: load_json_object_error collect_from_error
      load_trust_key_error split: pyval.splits)

lemma load_policy_error:
  "load_decisions v = Inl e \<Longrightarrow> \<exists>m. e = RegistryLoaderError m"
  "load_sources v = Inl e \<Longrightarrow> \<exists>m. e = RegistryLoaderError m"
  by (auto simp: load_decisions_def load_sources_def Let_def split: pyval.splits option.splits if_splits)

lemma load_policy_rule_error: "load_policy_rule i raw = Inl e \<Longrightarrow> \<exists>m. e = RegistryLoaderError m"
  by (auto simp: load_policy_rule_def result_simps dest: required_str_error allowed_or_error load_policy_error
      split: pyval.splits)

lemma load_policy_version_error: "load_policy_version i raw = Inl e \<Longrightarrow> \<exists>m. e = RegistryLoaderError m"
  by (auto simp: load_policy_version_def result_simps dest: required_str_error
      dest!: collect_from_error load_policy_rule_error split: pyval.splits)


section \<open>Registry files\<close>

text \<open>
  The JSON of a registry, in the shape the loaders read. Compact JSON text has no carriage return, so
  text mode leaves it alone.
\<close>

lemma universal_newlines_id: "13 \<notin> set s \<Longrightarrow> universal_newlines s = s"
  by (induction s rule: universal_newlines.induct) auto

lemma load_json_object_encode:
  assumes "json_ok (PDict d)" and "float_free (PDict d)" and "encodable (json_encode (PDict d))"
  shows "load_json_object path (utf8_bytes (json_encode (PDict d))) = Inr d"
proof -
  have "universal_newlines (json_encode (PDict d)) = json_encode (PDict d)"
    by (rule universal_newlines_id) (rule json_encode_no_cr [OF assms(2)])
  then show ?thesis
    using json.dec_enc [OF assms(1)] utf8.dec_enc [OF assms(3)]
    by (simp add: load_json_object_def read_text_def del: json_encode.simps)
qed

definition trust_key_json :: "trust_key \<Rightarrow> pyval" where
  "trust_key_json key = PDict
     [(u ''key_id'', PStr (key_id key)), (u ''alg'', PStr (key_alg key)),
      (u ''public_key'', PStr (public_key key)), (u ''role'', PStr (key_role key)),
      (u ''status'', PStr (key_status key)),
      (u ''not_before'', case not_before key of None \<Rightarrow> PNone | Some s \<Rightarrow> PStr s),
      (u ''not_after'', case not_after key of None \<Rightarrow> PNone | Some s \<Rightarrow> PStr s)]"

definition trust_registry_text :: "trust_key list \<Rightarrow> pystr" where
  "trust_registry_text keys = json_encode (PDict [(u ''keys'', PList (map trust_key_json keys))])"

lemma load_trust_text:
  assumes "\<forall>key \<in> set keys. trust_key_ok key" and "encodable (trust_registry_text keys)"
  shows "load_trust_registry path (utf8_bytes (trust_registry_text keys)) = Inr (trust_registry_init keys)"
proof -
  let ?d = "[(u ''keys'', PList (map trust_key_json keys))]"
  have "json_ok (PDict ?d)" "float_free (PDict ?d)"
    by (auto simp: trust_key_json_def split: option.split)
  from load_json_object_encode [OF this] assms(2)
  have load: "load_json_object path (utf8_bytes (trust_registry_text keys)) = Inr ?d"
    by (simp add: trust_registry_text_def)
  have "load_trust_key i (trust_key_json key) = Inr key" if "key \<in> set keys" for i key
  proof -
    have "trust_key_ok key" using assms(1) that by blast
    then have "optional_time (case not_before key of None \<Rightarrow> PNone | Some s \<Rightarrow> PStr s) f = Inr (not_before key)"
      "optional_time (case not_after key of None \<Rightarrow> PNone | Some s \<Rightarrow> PStr s) f = Inr (not_after key)" for f
      by (simp_all add: optional_time_Inr trust_key_ok_def)
    moreover have "key_alg key \<noteq> []" "key_role key \<noteq> []" "key_status key \<noteq> []"
      using \<open>trust_key_ok key\<close> by (auto simp: trust_key_ok_def ALLOWED_TRUST_ALGORITHMS_def
          ALLOWED_ROLES_def ALLOWED_KEY_STATUS_def)
    ultimately show ?thesis using \<open>trust_key_ok key\<close>
      by (simp add: load_trust_key_def trust_key_json_def required_str_def allowed_or_def trust_key_ok_def)
  qed
  then have "collect_from 0 load_trust_key (map trust_key_json keys) = Inr keys"
    by (rule collect_from_map)
  with load show ?thesis by (simp add: load_trust_registry_def)
qed

text \<open>The content of \<open>registries/policy-registry.bootstrap.json\<close>.\<close>

definition bootstrap_rule_json :: "string \<Rightarrow> string list \<Rightarrow> pyval" where
  "bootstrap_rule_json role decisions =
     PDict [(u ''role'', PStr (u role)), (u ''allowed_decisions'', PList (map (\<lambda>d. PStr (u d)) decisions))]"

definition bootstrap_policy_file :: pydict where
  "bootstrap_policy_file =
     [(u ''registry_id'', PStr (u ''policy.bootstrap.registry'')), (u ''version'', PStr (u ''0.1.0'')),
      (u ''policies'', PList [PDict
        [(u ''policy_id'', PStr (u ''policy.bootstrap'')), (u ''version'', PStr (u ''0.1.0'')),
         (u ''rules'', PList
           [bootstrap_rule_json ''sensor'' [''review'', ''quarantine''],
            bootstrap_rule_json ''auditor'' [''review'', ''allow'', ''deny''],
            bootstrap_rule_json ''authority'' [''review'', ''allow'', ''deny'', ''quarantine''],
            bootstrap_rule_json ''admin'' [''review'', ''allow'', ''deny'', ''quarantine'']])]])]"

lemma load_bootstrap_file:
  "load_policy_registry path (utf8_bytes (json_encode (PDict bootstrap_policy_file))) =
     Inr (policy_registry_init [default_bootstrap_policy])"
proof -
  have "json_ok (PDict bootstrap_policy_file)" "float_free (PDict bootstrap_policy_file)"
    by (simp_all add: bootstrap_policy_file_def bootstrap_rule_json_def)
  moreover have "encodable (json_encode (PDict bootstrap_policy_file))"
    by (rule json_encode_encodable) (simp add: bootstrap_policy_file_def bootstrap_rule_json_def)
  ultimately have load: "load_json_object path (utf8_bytes (json_encode (PDict bootstrap_policy_file))) =
      Inr bootstrap_policy_file" by (rule load_json_object_encode)
  have rule: "load_policy_rule i (bootstrap_rule_json role ds) =
      Inr \<lparr>rule_role = u role, allowed_decisions = set (map u ds), allowed_sources = {}\<rparr>"
    if "u role \<in> ALLOWED_ROLES" "set (map u ds) \<subseteq> ALLOWED_DECISIONS" "ds \<noteq> []" for i role ds
  proof -
    have "load_decisions (PList (map PStr (map u ds))) = Inr (set (map u ds))"
      using that by (simp add: load_decisions_Inr del: map_map)
    with that(1) show ?thesis
      by (simp add: load_policy_rule_def bootstrap_rule_json_def required_str_def allowed_or_def comp_def
          load_sources_def string_list_def ALLOWED_ROLES_def) (auto simp: map_filter_simps)
  qed
  show ?thesis
    unfolding load_policy_registry_def load bindR_simps
    by (simp add: bootstrap_policy_file_def load_policy_version_def
        required_str_def rule ALLOWED_ROLES_def ALLOWED_DECISIONS_def default_bootstrap_policy_def)
qed



text \<open>
  Every list of well-formed trust keys, written as a registry file, is loaded as the registry of
  these keys.
\<close>

theorem trust_registry_roundtrip:
  assumes "\<forall>key \<in> set keys. trust_key_ok key" and "encodable (trust_registry_text keys)"
  shows "load_trust_registry path (utf8_bytes (trust_registry_text keys)) = Inr (trust_registry_init keys)"
  using assms by (rule load_trust_text)

section \<open>Examples\<close>

lemma sample_key_ok: "trust_key_ok sample_key"
  by (simp add: trust_key_ok_def sample_key_def time_ok_def ALLOWED_TRUST_ALGORITHMS_def ALLOWED_ROLES_def
      ALLOWED_KEY_STATUS_def)

lemma sample_text_encodable: "encodable (trust_registry_text [sample_key])"
  unfolding trust_registry_text_def
  by (rule json_encode_encodable) (simp add: trust_key_json_def sample_key_def)

theorem trust_registry_roundtrip_witness:
  "load_trust_registry (u ''registry.json'') (utf8_bytes (trust_registry_text [sample_key])) = Inr (trust_registry_init [sample_key])"
  by (rule trust_registry_roundtrip) (simp_all add: sample_key_ok sample_text_encodable)

lemma bootstrap_loads:
  "\<exists>raw. load_policy_registry path raw = Inr (policy_registry_init [default_bootstrap_policy])"
  using load_bootstrap_file by blast

theorem loaded_trust_registry_safe_witness:
  "case resolve_active_key_at (trust_registry_init [sample_key]) (u ''k1'') (u ''EdDSA'') (zulu_text 2026 7 9 8 0 0) of
     Inr key \<Rightarrow> trust_key_ok key \<and> key_status key = u ''active'' \<and> key_id key = u ''k1''
   | Inl e \<Rightarrow> \<exists>m. e = TrustRegistryError m"
proof -
  have "load_trust_registry [] (utf8_bytes (trust_registry_text [sample_key])) = Inr (trust_registry_init [sample_key])"
    by (rule load_trust_text) (simp_all add: sample_key_ok sample_text_encodable)
  moreover obtain t where "parse_rfc3339_utc (zulu_text 2026 7 9 8 0 0) = Inr t"
    using parse_good_stamp by blast
  ultimately show ?thesis by (rule loaded_trust_registry_safe)
qed

theorem loaded_policy_registry_closed_witness:
  "u ''auditor'' \<in> ALLOWED_ROLES \<and>
     (\<exists>d \<in> ALLOWED_DECISIONS. dget good_evidence (u ''decision'') = PStr d)"
proof -
  obtain raw where "load_policy_registry [] raw = Inr (policy_registry_init [default_bootstrap_policy])"
    using bootstrap_loads by blast
  moreover have "authorize_record good_evidence (u ''auditor'')
      (policy_registry_init [default_bootstrap_policy]) = Inr ()"
    using good_evidence_authorized by (simp only: authorize_record_Inr)
  ultimately show ?thesis by (rule loaded_policy_registry_closed)
qed

text \<open>A key whose validity starts before the calendar makes the loader raise \<open>OverflowError\<close>.\<close>

lemma overflow_registry_raises:
  "\<exists>raw. load_trust_registry path raw = Inl OverflowError"
proof -
  let ?key = "sample_key\<lparr>not_before := Some overflow_stamp\<rparr>"
  let ?d = "[(u ''keys'', PList [trust_key_json ?key])]"
  have "load_json_object path (utf8_bytes (json_encode (PDict ?d))) = Inr ?d"
    by (rule load_json_object_encode)
      (simp_all add: trust_key_json_def sample_key_def overflow_stamp_def encodable_Cons is_scalar_small
        json_str_encodable)
  then have load: "load_trust_registry path (utf8_bytes (json_encode (PDict ?d))) =
      bindR (collect_from 0 load_trust_key [trust_key_json ?key]) (\<lambda>keys. Inr (trust_registry_init keys))"
    unfolding load_trust_registry_def by simp
  have "optional_time (PStr overflow_stamp) f = Inl OverflowError" for f
    by (simp add: optional_time_def parse_overflow_stamp) (simp add: overflow_stamp_def)
  then have "load_trust_key 0 (trust_key_json ?key) = Inl OverflowError"
    by (simp add: load_trust_key_def trust_key_json_def sample_key_def required_str_def allowed_or_def
        ALLOWED_TRUST_ALGORITHMS_def ALLOWED_ROLES_def ALLOWED_KEY_STATUS_def)
  with load show ?thesis by auto
qed

theorem load_trust_registry_error_witness:
  "is_ValueError OverflowError \<or> OverflowError = OverflowError"
proof -
  obtain raw where "load_trust_registry [] raw = Inl OverflowError" using overflow_registry_raises by blast
  then show ?thesis by (rule load_trust_registry_error)
qed

end
