(* ===== verification/Urlparse.thy ===== *)
theory Urlparse
  imports Utf8
begin

text \<open>
  \<open>urllib.parse.urlparse\<close> of Python 3.11, on strings, with the \<open>username\<close>, \<open>password\<close>, \<open>hostname\<close>
  and \<open>port\<close> of its result. The tables of the Unicode database and the parser of IP addresses are
  parameters: NFKC normalisation and the lower case of a non-ASCII host, and which hosts in
  brackets are addresses.
\<close>

section \<open>Pieces of text\<close>

text \<open>\<open>s.split(c)\<close> for one character.\<close>

fun split_on :: "nat \<Rightarrow> pystr \<Rightarrow> pystr list" where
  "split_on c [] = [[]]"
| "split_on c (x # s) =
     (if x = c then [] # split_on c s
      else (case split_on c s of [] \<Rightarrow> [[x]] | p # ps \<Rightarrow> (x # p) # ps))"

text \<open>\<open>s.partition(c)\<close>, without the middle part but with whether it was found.\<close>

definition partition :: "nat \<Rightarrow> pystr \<Rightarrow> pystr \<times> bool \<times> pystr" where
  "partition c s = (takeWhile (\<lambda>x. x \<noteq> c) s, c \<in> set s, drop 1 (dropWhile (\<lambda>x. x \<noteq> c) s))"

text \<open>\<open>s.rpartition(c)\<close>: around the last \<open>c\<close>; without one, everything is the right part.\<close>

definition rpartition :: "nat \<Rightarrow> pystr \<Rightarrow> pystr \<times> bool \<times> pystr" where
  "rpartition c s =
     (let r = rev (takeWhile (\<lambda>x. x \<noteq> c) (rev s)) in
      if c \<in> set s then (take (length s - length r - 1) s, True, r) else ([], False, s))"

definition is_letter :: "nat \<Rightarrow> bool" where
  "is_letter c \<longleftrightarrow> 65 \<le> c \<and> c \<le> 90 \<or> 97 \<le> c \<and> c \<le> 122"

definition is_ascii_digit :: "nat \<Rightarrow> bool" where
  "is_ascii_digit c \<longleftrightarrow> 48 \<le> c \<and> c \<le> 57"

definition is_alnum :: "nat \<Rightarrow> bool" where
  "is_alnum c \<longleftrightarrow> is_letter c \<or> is_ascii_digit c"

definition ascii_lower :: "pystr \<Rightarrow> pystr" where
  "ascii_lower s = map (\<lambda>c. if 65 \<le> c \<and> c \<le> 90 then c + 32 else c) s"

record url_lib =
  nfkc :: "pystr \<Rightarrow> pystr"
  unicode_lower :: "pystr \<Rightarrow> pystr"
  ip_literal_ok :: "pystr \<Rightarrow> bool"

section \<open>Splitting a URL\<close>

record parsed_url =
  scheme :: pystr
  netloc :: pystr
  url_path :: pystr
  params :: pystr
  query :: pystr
  fragment :: pystr

definition clean_url :: "pystr \<Rightarrow> pystr" where
  "clean_url url = filter (\<lambda>c. c \<noteq> 9 \<and> c \<noteq> 13 \<and> c \<noteq> 10) (dropWhile (\<lambda>c. c \<le> 32) url)"

definition split_scheme :: "pystr \<Rightarrow> pystr \<times> pystr" where
  "split_scheme url =
     (let (name, found, rest) = partition 58 url in
      if found \<and> name \<noteq> [] \<and> is_letter (hd name) \<and>
         (\<forall>c \<in> set name. is_alnum c \<or> c = 43 \<or> c = 45 \<or> c = 46)
      then (ascii_lower name, rest) else ([], url))"

definition bracketed_ok :: "url_lib \<Rightarrow> pystr \<Rightarrow> bool" where
  "bracketed_ok lib loc \<longleftrightarrow>
     (91 \<in> set loc \<longleftrightarrow> 93 \<in> set loc) \<and>
     (91 \<in> set loc \<longrightarrow>
        ip_literal_ok lib (takeWhile (\<lambda>c. c \<noteq> 93) (snd (snd (partition 91 loc)))))"

text \<open>\<open>_checknetloc\<close>: a host must not grow a delimiter under NFKC.\<close>

definition netloc_ok :: "url_lib \<Rightarrow> pystr \<Rightarrow> bool" where
  "netloc_ok lib loc \<longleftrightarrow>
     is_ascii loc \<or>
     (let n = filter (\<lambda>c. c \<notin> {64, 58, 35, 63}) loc in
      nfkc lib n = n \<or> \<not> (\<exists>c \<in> set (nfkc lib n). c \<in> {47, 63, 35, 64, 58}))"

definition split_netloc :: "pystr \<Rightarrow> pystr \<times> pystr" where
  "split_netloc url =
     (if take 2 url = [47, 47]
      then (takeWhile (\<lambda>c. c \<notin> {47, 63, 35}) (drop 2 url), dropWhile (\<lambda>c. c \<notin> {47, 63, 35}) (drop 2 url))
      else ([], url))"

text \<open>Parameters are split off the last segment of the path, for the schemes that have them.\<close>

definition uses_params :: "string list" where
  "uses_params = ['''', ''ftp'', ''hdl'', ''prospero'', ''http'', ''imap'', ''https'', ''shttp'', ''rtsp'',
     ''rtsps'', ''rtspu'', ''sip'', ''sips'', ''mms'', ''sftp'', ''tel'']"

definition split_params :: "pystr \<Rightarrow> pystr \<times> pystr" where
  "split_params path =
     (let segment = rev (takeWhile (\<lambda>c. c \<noteq> 47) (rev path));
          prefix = take (length path - length segment) path;
          (before, _, after) = partition 59 segment
      in (prefix @ before, after))"

definition urlparse :: "url_lib \<Rightarrow> pystr \<Rightarrow> exc + parsed_url" where
  "urlparse lib url0 =
     (let (sch, url1) = split_scheme (clean_url url0);
          (loc, url2) = split_netloc url1
      in if \<not> bracketed_ok lib loc then Inl ValueError
      else
        let (url3, _, frag) = partition 35 url2;
            (url4, _, q) = partition 63 url3
        in if \<not> netloc_ok lib loc then Inl ValueError
        else
          let (path, pars) = (if sch \<in> u ` set uses_params then split_params url4 else (url4, []))
          in Inr \<lparr>scheme = sch, netloc = loc, url_path = path, params = pars, query = q, fragment = frag\<rparr>)"

section \<open>The parts of the network location\<close>

definition username :: "parsed_url \<Rightarrow> pystr option" where
  "username p =
     (let (userinfo, found, _) = rpartition 64 (netloc p)
      in if found then Some (fst (partition 58 userinfo)) else None)"

definition password :: "parsed_url \<Rightarrow> pystr option" where
  "password p =
     (let (userinfo, found, _) = rpartition 64 (netloc p); (_, has_password, pw) = partition 58 userinfo
      in if found \<and> has_password then Some pw else None)"

definition hostinfo :: "parsed_url \<Rightarrow> pystr \<times> pystr" where
  "hostinfo p =
     (let (_, _, info) = rpartition 64 (netloc p); (_, open_br, bracketed) = partition 91 info in
      if open_br
      then (let (host, _, rest) = partition 93 bracketed in (host, snd (snd (partition 58 rest))))
      else (let (host, _, rest) = partition 58 info in (host, rest)))"

definition lower :: "url_lib \<Rightarrow> pystr \<Rightarrow> pystr" where
  "lower lib s = (if is_ascii s then ascii_lower s else unicode_lower lib s)"

definition hostname :: "url_lib \<Rightarrow> parsed_url \<Rightarrow> pystr option" where
  "hostname lib p =
     (let (host, percent, zone) = partition 37 (fst (hostinfo p)) in
      if fst (hostinfo p) = [] then None
      else Some (lower lib host @ (if percent then [37] else []) @ zone))"

definition port :: "parsed_url \<Rightarrow> exc + nat option" where
  "port p =
     (let text = snd (hostinfo p) in
      if text = [] then Inr None
      else if \<not> list_all is_ascii_digit text then Inl ValueError
      else (let n = foldl (\<lambda>n d. n * 10 + (d - 48)) 0 text in
            if 4300 < length text \<or> 65535 < n then Inl ValueError else Inr (Some n)))"

section \<open>Properties\<close>

lemma split_on_not_Nil [simp]: "split_on c s \<noteq> []"
  by (cases s) (auto split: list.split)

lemma split_on_absent: "c \<notin> set s \<Longrightarrow> split_on c s = [s]"
  by (induction s) auto

lemma split_on_append: "c \<notin> set s \<Longrightarrow> split_on c (s @ c # t) = s # split_on c t"
  by (induction s) auto

lemma partition_absent: "c \<notin> set s \<Longrightarrow> partition c s = (s, False, [])"
  by (induction s) (auto simp: partition_def)

lemma partition_append: "c \<notin> set s \<Longrightarrow> partition c (s @ c # t) = (s, True, t)"
  by (induction s) (auto simp: partition_def)

lemma rpartition_absent: "c \<notin> set s \<Longrightarrow> rpartition c s = ([], False, s)"
  by (simp add: rpartition_def)

end
