(* ===== verification/External_Signing.thy ===== *)
theory External_Signing
  imports Receipt Urlparse
begin

text \<open>
  \<open>src/sentinel_core/external_signing.py\<close>: the contract with an external ES256 signer. A receipt is
  prepared into a digest request, the signer sees that request only, and its answer is attached to
  a copy of the receipt. The helper \<open>_b64url_decode_strict\<close> is shared with the Azure adapter, which
  raises its own error.
\<close>

section \<open>Strict base64url\<close>

definition base64url_text :: "pystr \<Rightarrow> bool" where
  "base64url_text s \<longleftrightarrow> s \<noteq> [] \<and> (\<forall>c \<in> set s. is_alnum c \<or> c = 95 \<or> c = 45)"

definition b64url_decode_strict :: "exc \<Rightarrow> exc \<Rightarrow> exc \<Rightarrow> pystr \<Rightarrow> exc + bytes" where
  "b64url_decode_strict not_text not_valid not_canonical value =
     (if \<not> base64url_text value then Inl not_text
      else (case bindR (encode_ascii (value @ b64_padding value)) (urlsafe_b64decode True) of
          Inl e \<Rightarrow> if is_ValueError e then Inl not_valid else Inl e
        | Inr decoded \<Rightarrow> if b64url_encode decoded \<noteq> value then Inl not_canonical else Inr decoded))"

definition contract_decode :: "string \<Rightarrow> pystr \<Rightarrow> exc + bytes" where
  "contract_decode field = b64url_decode_strict
     (SigningContractError [Txt field, Txt '' must be unpadded base64url text''])
     (SigningContractError [Txt field, Txt '' is not valid base64url''])
     (SigningContractError [Txt field, Txt '' is not canonical base64url''])"

section \<open>Requests\<close>

record digest_request =
  request_algorithm :: pystr
  request_key_id :: pystr
  digest_b64url :: pystr

record signature_result =
  result_algorithm :: pystr
  result_key :: pystr
  signature_b64url :: pystr

record prepared_signature =
  request :: digest_request
  signer_role :: pystr
  prepared_hash :: pystr
  canonical_payload :: pystr
  protected_b64url :: pystr
  payload_b64url :: pystr
  signing_input :: pystr

definition P256_ORDER :: nat where
  "P256_ORDER = 0xffffffff00000000ffffffffffffffffbce6faada7179e84f3b9cac2fc632551"

section \<open>Validation\<close>

definition validate_versioned_key_id :: "url_lib \<Rightarrow> pystr \<Rightarrow> exc + unit" where
  "validate_versioned_key_id lib key =
     (if key = []
      then Inl (SigningContractError [Txt ''key_id must be a non-empty versioned HTTPS key identifier''])
      else
        bindR (urlparse lib key) (\<lambda>parsed.
          let path_parts = filter (\<lambda>part. part \<noteq> []) (split_on 47 (url_path parsed)) in
          if scheme parsed \<noteq> u ''https'' \<or> netloc parsed = [] \<or> params parsed \<noteq> [] \<or> query parsed \<noteq> [] \<or>
             fragment parsed \<noteq> [] \<or> length path_parts \<noteq> 3 \<or> hd path_parts \<noteq> u ''keys''
          then Inl (SigningContractError
            [Txt ''key_id must be a versioned HTTPS identifier ending in /keys/<name>/<version>''])
          else Inr ()))"

definition signer_role_text :: "pystr \<Rightarrow> bool" where
  "signer_role_text s \<longleftrightarrow>
     s \<noteq> [] \<and> length s \<le> 128 \<and> is_alnum (hd s) \<and>
     (\<forall>c \<in> set (tl s). is_alnum c \<or> c = 46 \<or> c = 95 \<or> c = 58 \<or> c = 45)"

definition validate_signer_role :: "pystr \<Rightarrow> exc + unit" where
  "validate_signer_role role =
     (if signer_role_text role then Inr ()
      else Inl (SigningContractError [Txt ''signer_role contains unsupported characters'']))"

definition validate_receipt_shape :: "pyval \<Rightarrow> exc + unit" where
  "validate_receipt_shape v =
     (case v of
        PDict receipt \<Rightarrow>
          if as_dict (dget receipt (u ''chain'')) = None
          then Inl (SigningContractError [Txt ''receipt.chain must be an object''])
          else (case dget receipt (u ''signatures'') of
              PList _ \<Rightarrow> Inr ()
            | _ \<Rightarrow> Inl (SigningContractError [Txt ''receipt.signatures must be a list'']))
      | _ \<Rightarrow> Inl (SigningContractError [Txt ''receipt must be an object'']))"

text \<open>\<open>hmac.compare_digest\<close> on strings refuses what is not ASCII.\<close>

definition compare_digest :: "pystr \<Rightarrow> pystr \<Rightarrow> exc + bool" where
  "compare_digest a b = (if is_ascii a \<and> is_ascii b then Inr (a = b) else Inl TypeError)"

definition require_equal :: "exc + bool \<Rightarrow> string \<Rightarrow> exc + unit" where
  "require_equal eq m = bindR eq (\<lambda>b. if b then Inr () else Inl (SigningContractError [Txt m]))"

definition require :: "bool \<Rightarrow> string \<Rightarrow> exc + unit" where
  "require b m = (if b then Inr () else Inl (SigningContractError [Txt m]))"

text \<open>The frozen profile of the protected header.\<close>

definition protected_profile :: "pystr \<Rightarrow> pydict" where
  "protected_profile key =
     [(u ''alg'', PStr (u ''ES256'')), (u ''kid'', PStr key), (u ''typ'', PStr (u ''SENTINEL-JWS''))]"

text \<open>\<open>==\<close> of a decoded object with a dictionary of strings: key order does not matter.\<close>

definition same_items :: "pyval \<Rightarrow> pydict \<Rightarrow> bool" where
  "same_items v d =
     (case v of
        PDict d' \<Rightarrow> length d' = length d \<and> (\<forall>(k, x) \<in> set d. map_of d' k = Some x)
      | _ \<Rightarrow> False)"

definition signing_digest :: "pystr \<Rightarrow> exc + pystr" where
  "signing_digest input = bindR (encode_ascii input) (\<lambda>b. Inr (b64url_encode (sha256 b)))"

definition decode_protected :: "bytes \<Rightarrow> exc + pyval" where
  "decode_protected b =
     (case bindR (decode_utf8 b) json_loads of
        Inr v \<Rightarrow> Inr v
      | Inl e \<Rightarrow>
          if is_ValueError e
          then Inl (SigningContractError [Txt ''prepared protected header is not valid JSON'']) else Inl e)"

definition decode_payload :: "bytes \<Rightarrow> exc + pystr" where
  "decode_payload b =
     (case decode_utf8 b of
        Inr s \<Rightarrow> Inr s
      | Inl _ \<Rightarrow> Inl (SigningContractError [Txt ''prepared payload is not valid UTF-8'']))"

definition check_profile :: "pystr \<Rightarrow> bytes \<Rightarrow> pyval \<Rightarrow> exc + unit" where
  "check_profile key protected_bytes header =
     (case header of
        PDict d \<Rightarrow>
          if \<not> same_items header (protected_profile key)
          then Inl (SigningContractError [Txt ''prepared protected header does not match the frozen profile''])
          else bindR (encode_utf8 (canonicalize_json d)) (\<lambda>b.
            require (b = protected_bytes) ''prepared protected header is not canonical'')
      | _ \<Rightarrow> Inl (SigningContractError [Txt ''prepared protected header does not match the frozen profile'']))"

definition validate_prepared :: "url_lib \<Rightarrow> prepared_signature \<Rightarrow> exc + unit" where
  "validate_prepared lib p =
     bindR (require (request_algorithm (request p) = u ''ES256'') ''prepared signing algorithm must be ES256'') (\<lambda>_.
     bindR (validate_versioned_key_id lib (request_key_id (request p))) (\<lambda>_.
     bindR (validate_signer_role (signer_role p)) (\<lambda>_.
     bindR (sha256_prefixed (Text (canonical_payload p))) (\<lambda>expected_hash.
     bindR (require_equal (compare_digest expected_hash (prepared_hash p)) ''prepared receipt hash is inconsistent'') (\<lambda>_.
     bindR (contract_decode ''prepared protected header'' (protected_b64url p)) (\<lambda>protected_bytes.
     bindR (contract_decode ''prepared payload'' (payload_b64url p)) (\<lambda>payload_bytes.
     bindR (decode_protected protected_bytes) (\<lambda>header.
     bindR (decode_payload payload_bytes) (\<lambda>payload_text.
     bindR (check_profile (request_key_id (request p)) protected_bytes header) (\<lambda>_.
     bindR (require (payload_text = canonical_payload p)
              ''prepared payload does not match the canonical receipt'') (\<lambda>_.
     bindR (require_equal (compare_digest (protected_b64url p @ [46] @ payload_b64url p) (signing_input p))
              ''prepared signing input is inconsistent'') (\<lambda>_.
     bindR (signing_digest (signing_input p)) (\<lambda>expected_digest.
     require_equal (compare_digest expected_digest (digest_b64url (request p)))
       ''prepared signing digest is inconsistent'')))))))))))))"

section \<open>Preparing\<close>

definition signature_entries :: "pydict \<Rightarrow> pyval list" where
  "signature_entries receipt = (case dget receipt (u ''signatures'') of PList xs \<Rightarrow> xs | _ \<Rightarrow> [])"

definition has_signature_of :: "pystr \<Rightarrow> pyval list \<Rightarrow> bool" where
  "has_signature_of key entries \<longleftrightarrow>
     (\<exists>item \<in> set entries. case item of PDict d \<Rightarrow> dget d (u ''kid'') = PStr key | _ \<Rightarrow> False)"

text \<open>\<open>existing not in (None, "", hash)\<close>\<close>

definition hash_conflicts :: "pydict \<Rightarrow> pystr \<Rightarrow> bool" where
  "hash_conflicts receipt h \<longleftrightarrow>
     dget (chain_of receipt) (u ''receipt_hash'') \<notin> {PNone, PStr [], PStr h}"

definition prepare_receipt_signature :: "url_lib \<Rightarrow> pyval \<Rightarrow> pystr \<Rightarrow> pystr \<Rightarrow> exc + prepared_signature" where
  "prepare_receipt_signature lib v key role =
     bindR (validate_receipt_shape v) (\<lambda>_.
     bindR (validate_versioned_key_id lib key) (\<lambda>_.
     bindR (validate_signer_role role) (\<lambda>_.
     let receipt = the (as_dict v) in
     if has_signature_of key (signature_entries receipt)
     then Inl (SigningContractError [Txt ''receipt already contains a signature for key_id: '', Str key])
     else
       let payload = build_unsigned_receipt_payload receipt in
       bindR (sha256_prefixed (Text payload)) (\<lambda>computed_hash.
       if hash_conflicts receipt computed_hash
       then Inl (SigningContractError [Txt ''receipt.chain.receipt_hash conflicts with the canonical payload''])
       else
         bindR (encode_utf8 (canonicalize_json (protected_profile key))) (\<lambda>protected_bytes.
         bindR (encode_utf8 payload) (\<lambda>payload_bytes.
         let input = b64url_encode protected_bytes @ [46] @ b64url_encode payload_bytes in
         bindR (signing_digest input) (\<lambda>digest.
         let p = \<lparr>request = \<lparr>request_algorithm = u ''ES256'', request_key_id = key, digest_b64url = digest\<rparr>,
                  signer_role = role, prepared_hash = computed_hash, canonical_payload = payload,
                  protected_b64url = b64url_encode protected_bytes,
                  payload_b64url = b64url_encode payload_bytes, signing_input = input\<rparr>
         in bindR (validate_prepared lib p) (\<lambda>_. Inr p))))))))"

section \<open>Finalizing\<close>

definition signature_fields :: "prepared_signature \<Rightarrow> signature_result \<Rightarrow> pydict" where
  "signature_fields p result =
     [(u ''kid'', PStr (request_key_id (request p))), (u ''alg'', PStr (u ''ES256'')),
      (u ''signer_role'', PStr (signer_role p)), (u ''protected'', PStr (protected_b64url p)),
      (u ''payload'', PStr (payload_b64url p)), (u ''signature'', PStr (signature_b64url result))]"

definition signature_entry :: "prepared_signature \<Rightarrow> signature_result \<Rightarrow> pyval" where
  "signature_entry p result = PDict (signature_fields p result)"

text \<open>The deep copy with the hash set and the entry appended.\<close>

definition attach_signature :: "pydict \<Rightarrow> pystr \<Rightarrow> pyval \<Rightarrow> pydict" where
  "attach_signature receipt h entry =
     dset (dset receipt (u ''chain'') (PDict (dset (chain_of receipt) (u ''receipt_hash'') (PStr h))))
       (u ''signatures'') (PList (signature_entries receipt @ [entry]))"

definition check_raw_signature :: "pystr \<Rightarrow> exc + unit" where
  "check_raw_signature s =
     bindR (contract_decode ''external signature'' s) (\<lambda>raw.
     bindR (require (length raw = 64) ''ES256 external signature must be exactly 64 raw bytes'') (\<lambda>_.
     require (1 \<le> be_nat (take 32 raw) \<and> be_nat (take 32 raw) < P256_ORDER \<and>
              1 \<le> be_nat (drop 32 raw) \<and> be_nat (drop 32 raw) < P256_ORDER)
       ''ES256 signature scalars must be in the P-256 group range''))"

definition finalize_receipt_signature ::
    "url_lib \<Rightarrow> pyval \<Rightarrow> prepared_signature \<Rightarrow> signature_result \<Rightarrow> exc + pydict" where
  "finalize_receipt_signature lib v p result =
     bindR (validate_receipt_shape v) (\<lambda>_.
     bindR (validate_prepared lib p) (\<lambda>_.
     bindR (require (result_algorithm result = u ''ES256'') ''external signature algorithm must be ES256'') (\<lambda>_.
     bindR (require (result_key result = request_key_id (request p))
              ''external signature key_id does not match the prepared request'') (\<lambda>_.
     let receipt = the (as_dict v); payload = build_unsigned_receipt_payload receipt in
     bindR (encode_utf8 payload) (\<lambda>payload_bytes.
     bindR (encode_utf8 (canonical_payload p)) (\<lambda>prepared_bytes.
     bindR (require (payload_bytes = prepared_bytes) ''receipt changed after signing preparation'') (\<lambda>_.
     bindR (sha256_prefixed (Text payload)) (\<lambda>current_hash.
     bindR (require_equal (compare_digest current_hash (prepared_hash p))
              ''receipt hash changed after signing preparation'') (\<lambda>_.
     bindR (require (\<not> hash_conflicts receipt (prepared_hash p))
              ''receipt.chain.receipt_hash changed after preparation'') (\<lambda>_.
     if has_signature_of (request_key_id (request p)) (signature_entries receipt)
     then Inl (SigningContractError [Txt ''receipt already contains a signature for key_id: '',
                 Str (request_key_id (request p))])
     else
       bindR (check_raw_signature (signature_b64url result)) (\<lambda>_.
       Inr (attach_signature receipt (prepared_hash p) (signature_entry p result)))))))))))))"

text \<open>The external signer is a parameter: what it answers, or raises, on a request.\<close>

type_synonym external_signer = "digest_request \<Rightarrow> exc + signature_result"

definition sign_receipt_with_external_digest_signer ::
    "url_lib \<Rightarrow> external_signer \<Rightarrow> pyval \<Rightarrow> pystr \<Rightarrow> pystr \<Rightarrow> exc + pydict" where
  "sign_receipt_with_external_digest_signer lib sign_digest v key role =
     bindR (prepare_receipt_signature lib v key role) (\<lambda>p.
     bindR (sign_digest (request p)) (\<lambda>result.
     finalize_receipt_signature lib v p result))"

end
