(* ===== verification/Signing_Laws.thy ===== *)
theory Signing_Laws
  imports External_Signing Receipt_Laws Json_Text
begin

text \<open>
  What the signing contract guarantees: strict base64url is a strict codec; validation accepts exactly
  the contexts that preparing builds; finalizing changes nothing that is signed and appends one entry;
  and the receipt it returns, with a good signature, passes the receipt verifier.
\<close>

section \<open>Strict base64url\<close>

lemma url_char_text: "url_char c \<Longrightarrow> is_alnum c \<or> c = 95 \<or> c = 45"
  by (auto simp: url_char_def is_alnum_def is_letter_def is_ascii_digit_def)

lemma base64url_text_encode: "b \<noteq> [] \<Longrightarrow> base64url_text (b64url_encode b)"
  using url_char_text [OF b64url_encode_chars] by (auto simp: base64url_text_def b64url_encode_Nil_iff)

lemma strict_decode_encode:
  "b \<noteq> [] \<Longrightarrow> b64url_decode_strict e1 e2 e3 (b64url_encode b) = Inr b"
  by (simp add: b64url_decode_strict_def base64url_text_encode encode_ascii_def is_ascii_b64url
      urlsafe_b64decode_encode del: map_append)

lemma strict_decode_Inr:
  assumes "b64url_decode_strict e1 e2 e3 s = Inr b"
  shows "b \<noteq> []" and "b64url_encode b = s"
  using assms
  by (auto simp: b64url_decode_strict_def base64url_text_def b64url_encode_Nil_iff split: if_splits sum.splits)

interpretation strict_b64: strict_codec b64url_encode "b64url_decode_strict e1 e2 e3" "\<lambda>b. b \<noteq> []"
  for e1 e2 e3
  by unfold_locales (simp_all add: strict_decode_encode strict_decode_Inr)

lemma contract_decode_Inr [result_simps]:
  "contract_decode f s = Inr b \<longleftrightarrow> b \<noteq> [] \<and> b64url_encode b = s"
  unfolding contract_decode_def by (rule strict_b64.dec_iff)

section \<open>Comparisons and requirements\<close>

lemma require_Inr [result_simps]: "require b m = Inr x \<longleftrightarrow> b"
  by (simp add: require_def)

lemma compare_digest_Inr [result_simps]:
  "compare_digest a b = Inr c \<longleftrightarrow> is_ascii a \<and> is_ascii b \<and> c = (a = b)"
  by (auto simp: compare_digest_def)

lemma require_equal_Inr [result_simps]:
  "require_equal (compare_digest a b) m = Inr x \<longleftrightarrow> is_ascii a \<and> a = b"
  by (auto simp: require_equal_def compare_digest_def split: if_splits)

lemma validate_signer_role_Inr [result_simps]: "validate_signer_role r = Inr x \<longleftrightarrow> signer_role_text r"
  by (simp add: validate_signer_role_def)

lemma signing_digest_Inr [result_simps]:
  "signing_digest s = Inr d \<longleftrightarrow> is_ascii s \<and> d = b64url_encode (sha256 (map byte s))"
  by (auto simp: signing_digest_def encode_ascii_def)

section \<open>The protected header\<close>

lemma sort_key_of_same_set:
  assumes "distinct (map fst d)" and "distinct (map fst e)" and "set d = set e"
  shows "sort_key fst d = sort_key fst (e :: (pystr \<times> 'a) list)"
proof (rule sort_key_inj_key_eq)
  have "distinct d" "distinct e" using assms(1,2) by (simp_all add: distinct_map)
  with assms(3) show "mset d = mset (sort_key fst e)" by (simp add: set_eq_iff_mset_eq_distinct)
  show "inj_on fst (set d)" using assms(1) by (simp add: distinct_map)
  show "sorted (map fst (sort_key fst e))" by (rule sorted_sort_key)
qed

lemma sort_keys_strings: "(\<And>p. p \<in> set d \<Longrightarrow> sort_keys (snd p) = snd p) \<Longrightarrow>
    sort_keys (PDict d) = PDict (sort_key fst d)"
proof -
  assume "\<And>p. p \<in> set d \<Longrightarrow> sort_keys (snd p) = snd p"
  then have "map (\<lambda>p. (fst p, sort_keys (snd p))) d = d" by (simp add: map_idI)
  then show ?thesis by simp
qed

lemma same_items_set:
  assumes "same_items (PDict d') d" and "distinct (map fst d)"
  shows "set d' = set d"
proof -
  have len: "length d' = length d" and sub: "set d \<subseteq> set d'"
    using assms(1) by (auto simp: same_items_def dest: map_of_SomeD)
  have "card (set d) = length d" using assms(2) by (simp add: distinct_map distinct_card)
  with len have "card (set d') \<le> card (set d)" using card_length [of d'] by simp
  with card_seteq [OF _ sub] show ?thesis by simp
qed

lemma profile_sorted: "sort_keys (PDict (protected_profile key)) = PDict (protected_profile key)"
  by (simp add: protected_profile_def insort_key_def) (simp add: u_def)

lemma profile_json_ok: "json_ok (PDict (protected_profile key))"
  by (simp add: protected_profile_def)

lemma canonicalize_profile: "canonicalize_json (protected_profile key) = json_encode (PDict (protected_profile key))"
  by (simp only: canonicalize_json_def profile_sorted)

lemma profile_encodable:
  "encodable key \<Longrightarrow> encodable (canonicalize_json (protected_profile key))"
  unfolding canonicalize_profile by (rule json_encode_encodable) (simp add: protected_profile_def)

lemma profile_decodes:
  "encodable key \<Longrightarrow> bindR (decode_utf8 (utf8_bytes (canonicalize_json (protected_profile key)))) json_loads =
     Inr (PDict (protected_profile key))"
  using utf8.dec_enc [OF profile_encodable] json.dec_enc [OF profile_json_ok]
  by (simp add: canonicalize_profile del: json_encode.simps)


lemma json_escape_scalar: "encodable (json_escape c) \<Longrightarrow> is_scalar c"
  by (auto simp: json_escape_def encodable_Cons is_scalar_small split: if_splits)

lemma json_str_encodable_iff: "encodable (json_str s) \<longleftrightarrow> encodable s"
  by (induction s) (auto simp: json_str_def encodable_Cons is_scalar_small json_escape_encodable
      dest: json_escape_scalar)

lemma profile_key_encodable: "encodable (canonicalize_json (protected_profile key)) \<Longrightarrow> encodable key"
  unfolding canonicalize_profile
  by (simp add: protected_profile_def encodable_Cons json_str_encodable_iff)

text \<open>An object that \<open>json.loads\<close> returns has no key twice.\<close>

lemma scan_constant_no_dict: "scan_constant cs s = Inr (PDict d, r) \<Longrightarrow> \<exists>c \<in> set cs. snd c = PDict d"
  by (induction cs s rule: scan_constant.induct)
    (auto simp: scan_number_def Let_def case_prod_unfold split: option.splits if_splits)

lemma json_loads_distinct:
  assumes "json_loads s = Inr (PDict d)" shows "distinct (map fst d)"
proof -
  obtain n t r where scan: "scan_once default_hook n t = Inr (PDict d, r)"
    using assms by (auto simp: json_loads_def json_loads_hook_def result_simps simp del: scan_once.simps
        split: if_splits)
  have "\<exists>c \<in> set json_constants. snd c = PDict d" if "scan_constant json_constants t = Inr (PDict d, r)"
    using scan_constant_no_dict [OF that] .
  then have no_constant: "scan_constant json_constants t \<noteq> Inr (PDict d, r)"
    by (auto simp: json_constants_def)
  from scan have "\<exists>ps. default_hook ps = Inr (PDict d)"
    using no_constant
    by (cases n; cases t) (auto simp: result_simps simp del: scan_constant.simps split: if_splits)
  then show ?thesis by (auto simp: default_hook_def distinct_dict_of)
qed

lemma check_profile_Inr:
  assumes "bindR (decode_utf8 b) json_loads = Inr header"
  shows "check_profile key b header = Inr x \<longleftrightarrow>
     encodable key \<and> b = utf8_bytes (canonicalize_json (protected_profile key))"
proof
  assume c: "check_profile key b header = Inr x"
  then obtain d where d: "header = PDict d" "same_items header (protected_profile key)"
    "encodable (canonicalize_json d)" "b = utf8_bytes (canonicalize_json d)"
    by (auto simp: check_profile_def result_simps split: pyval.splits if_splits)
  have distinct: "distinct (map fst (protected_profile key))" by (simp add: protected_profile_def)
  from assms d(1) have d_distinct: "distinct (map fst d)"
    by (auto simp: result_simps dest: json_loads_distinct)
  have set: "set d = set (protected_profile key)"
    using same_items_set [OF d(2) [unfolded d(1)] distinct] .
  have "sort_keys (PDict d) = PDict (sort_key fst d)"
    by (rule sort_keys_strings) (auto simp: set protected_profile_def)
  also have "sort_key fst d = sort_key fst (protected_profile key)"
    using d_distinct distinct set by (rule sort_key_of_same_set)
  also have "PDict \<dots> = sort_keys (PDict (protected_profile key))"
    by (rule sort_keys_strings [symmetric]) (auto simp: protected_profile_def)
  finally have same: "canonicalize_json d = canonicalize_json (protected_profile key)"
    by (simp only: canonicalize_json_def)
  show "encodable key \<and> b = utf8_bytes (canonicalize_json (protected_profile key))"
    using d(3,4) same profile_key_encodable by simp
next
  assume c: "encodable key \<and> b = utf8_bytes (canonicalize_json (protected_profile key))"
  with assms have "header = PDict (protected_profile key)" using profile_decodes [of key] by simp
  moreover have "same_items (PDict (protected_profile key)) (protected_profile key)"
    by (simp add: same_items_def protected_profile_def)
  ultimately show "check_profile key b header = Inr x"
    using c profile_encodable [of key] by (simp add: check_profile_def result_simps require_def)
qed


section \<open>Validation and preparation\<close>

text \<open>The one context that belongs to a key, a role and a canonical payload.\<close>

definition prepared_for :: "pystr \<Rightarrow> pystr \<Rightarrow> pystr \<Rightarrow> prepared_signature" where
  "prepared_for key role payload =
     (let protected = b64url_encode (utf8_bytes (canonicalize_json (protected_profile key)));
          body = b64url_encode (utf8_bytes payload);
          input = protected @ [46] @ body
      in \<lparr>request = \<lparr>request_algorithm = u ''ES256'', request_key_id = key,
            digest_b64url = b64url_encode (sha256 (map byte input))\<rparr>,
          signer_role = role, prepared_hash = text_digest payload, canonical_payload = payload,
          protected_b64url = protected, payload_b64url = body, signing_input = input\<rparr>)"

definition signable :: "url_lib \<Rightarrow> pystr \<Rightarrow> pystr \<Rightarrow> pystr \<Rightarrow> bool" where
  "signable lib key role payload \<longleftrightarrow>
     validate_versioned_key_id lib key = Inr () \<and> signer_role_text role \<and> encodable key \<and>
     encodable payload \<and> payload \<noteq> []"

lemma is_ascii_text_digest: "is_ascii (text_digest s)"
  using hex_bytes_lower by (fastforce simp: text_digest_def is_ascii_def is_lower_hex_def u_def)

lemma is_ascii_append [simp]: "is_ascii (s @ t) \<longleftrightarrow> is_ascii s \<and> is_ascii t"
  by (auto simp: is_ascii_def)

lemma is_ascii_Cons [simp]: "is_ascii (c # s) \<longleftrightarrow> c < 128 \<and> is_ascii s"
  by (auto simp: is_ascii_def)

lemma decode_protected_Inr [result_simps]:
  "decode_protected b = Inr v \<longleftrightarrow> bindR (decode_utf8 b) json_loads = Inr v"
  by (auto simp: decode_protected_def split: sum.splits if_splits)

lemma decode_payload_Inr [result_simps]: "decode_payload b = Inr s \<longleftrightarrow> decode_utf8 b = Inr s"
  by (auto simp: decode_payload_def split: sum.splits)

lemma utf8_bytes_not_Nil: "utf8_bytes s = [] \<longleftrightarrow> s = []"
  using length_utf8_bytes [of s] by (auto simp: utf8_bytes_def)

text \<open>The header and payload parts of a valid context, in the code's order.\<close>

lemma protected_part:
  "(\<exists>b header. b \<noteq> [] \<and> b64url_encode b = s \<and> bindR (decode_utf8 b) json_loads = Inr header \<and>
      check_profile key b header = Inr ()) \<longleftrightarrow>
   encodable key \<and> s = b64url_encode (utf8_bytes (canonicalize_json (protected_profile key)))"
proof -
  have "utf8_bytes (canonicalize_json (protected_profile key)) \<noteq> []"
    by (simp add: utf8_bytes_not_Nil canonicalize_profile)
  then show ?thesis using check_profile_Inr profile_decodes by metis
qed

lemma payload_part:
  "(\<exists>b. b \<noteq> [] \<and> b64url_encode b = s \<and> decode_utf8 b = Inr payload) \<longleftrightarrow>
   encodable payload \<and> payload \<noteq> [] \<and> s = b64url_encode (utf8_bytes payload)"
  by (metis utf8.dec_iff utf8_bytes_not_Nil)

lemma validate_prepared_iff:
  "validate_prepared lib p = Inr () \<longleftrightarrow>
     signable lib (request_key_id (request p)) (signer_role p) (canonical_payload p) \<and>
     p = prepared_for (request_key_id (request p)) (signer_role p) (canonical_payload p)"
proof -
  let ?key = "request_key_id (request p)" and ?payload = "canonical_payload p"
  have "validate_prepared lib p = Inr () \<longleftrightarrow>
      request_algorithm (request p) = u ''ES256'' \<and> validate_versioned_key_id lib ?key = Inr () \<and>
      signer_role_text (signer_role p) \<and> encodable ?payload \<and> prepared_hash p = text_digest ?payload \<and>
      (\<exists>b header. b \<noteq> [] \<and> b64url_encode b = protected_b64url p \<and>
         bindR (decode_utf8 b) json_loads = Inr header \<and> check_profile ?key b header = Inr ()) \<and>
      (\<exists>b. b \<noteq> [] \<and> b64url_encode b = payload_b64url p \<and> decode_utf8 b = Inr ?payload) \<and>
      is_ascii (protected_b64url p) \<and> is_ascii (payload_b64url p) \<and>
      signing_input p = protected_b64url p @ [46] @ payload_b64url p \<and>
      digest_b64url (request p) = b64url_encode (sha256 (map byte (signing_input p)))"
    by (auto simp: validate_prepared_def bindR_Inr_iff require_Inr require_equal_Inr contract_decode_Inr
        decode_protected_Inr decode_payload_Inr signing_digest_Inr validate_signer_role_Inr
        sha256_prefixed_Text_Inr text_digest_def [symmetric] is_ascii_text_digest
        is_ascii_b64url_encode) blast
  then show ?thesis unfolding protected_part payload_part
    by (cases p; cases "request p") (auto simp: signable_def prepared_for_def Let_def is_ascii_b64url_encode)
qed


text \<open>
  C12 Validation accepts exactly the contexts that belong to a versioned key, an allowed role and a
  canonical payload: everything else in a context is determined by these three, so no field can be
  replaced on its own.
\<close>

theorem validate_prepared_exact:
  "validate_prepared lib p = Inr () \<longleftrightarrow>
     (\<exists>key role payload. signable lib key role payload \<and> p = prepared_for key role payload)"
proof
  assume "\<exists>key role payload. signable lib key role payload \<and> p = prepared_for key role payload"
  then show "validate_prepared lib p = Inr ()"
    unfolding validate_prepared_iff by (auto simp: prepared_for_def Let_def)
qed (use validate_prepared_iff in blast)

lemma prepared_for_simps [simp]:
  "request_key_id (request (prepared_for key role payload)) = key"
  "signer_role (prepared_for key role payload) = role"
  "canonical_payload (prepared_for key role payload) = payload"
  "prepared_hash (prepared_for key role payload) = text_digest payload"
  "payload_b64url (prepared_for key role payload) = b64url_encode (utf8_bytes payload)"
  "protected_b64url (prepared_for key role payload) =
     b64url_encode (utf8_bytes (canonicalize_json (protected_profile key)))"
  by (simp_all add: prepared_for_def Let_def)

lemma signing_input_prepared_for:
  "signing_input (prepared_for key role payload) =
     protected_b64url (prepared_for key role payload) @ [46] @ payload_b64url (prepared_for key role payload)"
  by (simp add: prepared_for_def Let_def)

lemma validate_prepared_for [simp]:
  "validate_prepared lib (prepared_for key role payload) = Inr () \<longleftrightarrow> signable lib key role payload"
  by (simp add: validate_prepared_iff)

definition signing_shape :: "pydict \<Rightarrow> bool" where
  "signing_shape receipt \<longleftrightarrow>
     (\<exists>c. dget receipt (u ''chain'') = PDict c) \<and> (\<exists>es. dget receipt (u ''signatures'') = PList es)"

lemma validate_receipt_shape_Inr [result_simps]:
  "validate_receipt_shape (PDict r) = Inr x \<longleftrightarrow> signing_shape r"
  by (auto simp: validate_receipt_shape_def signing_shape_def as_dict_None_iff split: pyval.splits if_splits)

lemma payload_not_Nil: "build_unsigned_receipt_payload r \<noteq> []"
  by (simp add: build_unsigned_receipt_payload_def canonicalize_json_def)

lemma prepare_Inr:
  "prepare_receipt_signature lib (PDict r) key role = Inr p \<longleftrightarrow>
     signing_shape r \<and> signable lib key role (build_unsigned_receipt_payload r) \<and>
     \<not> has_signature_of key (signature_entries r) \<and>
     \<not> hash_conflicts r (text_digest (build_unsigned_receipt_payload r)) \<and>
     p = prepared_for key role (build_unsigned_receipt_payload r)"
proof -
  let ?payload = "build_unsigned_receipt_payload r"
  have built: "\<lparr>request = \<lparr>request_algorithm = u ''ES256'', request_key_id = key,
        digest_b64url = b64url_encode (sha256 (map byte
          (b64url_encode (utf8_bytes (canonicalize_json (protected_profile key))) @ [46] @
           b64url_encode (utf8_bytes ?payload))))\<rparr>,
      signer_role = role, prepared_hash = text_digest ?payload, canonical_payload = ?payload,
      protected_b64url = b64url_encode (utf8_bytes (canonicalize_json (protected_profile key))),
      payload_b64url = b64url_encode (utf8_bytes ?payload),
      signing_input = b64url_encode (utf8_bytes (canonicalize_json (protected_profile key))) @ [46] @
        b64url_encode (utf8_bytes ?payload)\<rparr> = prepared_for key role ?payload"
    by (simp add: prepared_for_def Let_def)
  have "prepare_receipt_signature lib (PDict r) key role = Inr p \<longleftrightarrow>
      signing_shape r \<and> validate_versioned_key_id lib key = Inr () \<and> signer_role_text role \<and>
      \<not> has_signature_of key (signature_entries r) \<and> encodable ?payload \<and>
      \<not> hash_conflicts r (text_digest ?payload) \<and>
      encodable (canonicalize_json (protected_profile key)) \<and>
      validate_prepared lib (prepared_for key role ?payload) = Inr () \<and> p = prepared_for key role ?payload"
    unfolding prepare_receipt_signature_def Let_def as_dict_simps option.sel built
    by (auto simp: bindR_Inr_iff validate_receipt_shape_Inr validate_signer_role_Inr sha256_prefixed_Text_Inr
        text_digest_def [symmetric] encode_utf8_Inr_iff signing_digest_Inr is_ascii_b64url_encode
        built [simplified])
  then show ?thesis
    using profile_encodable by (auto simp: signable_def payload_not_Nil)
qed

section \<open>Attaching\<close>

lemma chain_of_attach: "chain_of (attach_signature r h e) = dset (chain_of r) (u ''receipt_hash'') (PStr h)"
  by (simp add: chain_of_def attach_signature_def dget_dset)

lemma dget_attach: "f \<noteq> u ''chain'' \<Longrightarrow> f \<noteq> u ''signatures'' \<Longrightarrow> dget (attach_signature r h e) f = dget r f"
  by (simp add: attach_signature_def dget_dset)

lemma entries_attach:
  "dget (attach_signature r h e) (u ''signatures'') = PList (signature_entries r @ [e])"
  by (simp add: attach_signature_def dget_dset)

lemma payload_attach: "build_unsigned_receipt_payload (attach_signature r h e) = build_unsigned_receipt_payload r"
  by (simp add: build_unsigned_receipt_payload_def unsigned_receipt_def signed_fields_def dget_attach
      chain_of_attach dget_dset)

definition raw_signature_ok :: "pystr \<Rightarrow> bool" where
  "raw_signature_ok s \<longleftrightarrow>
     (\<exists>raw. b64url_encode raw = s \<and> length raw = 64 \<and>
        1 \<le> be_nat (take 32 raw) \<and> be_nat (take 32 raw) < P256_ORDER \<and>
        1 \<le> be_nat (drop 32 raw) \<and> be_nat (drop 32 raw) < P256_ORDER)"

lemma check_raw_signature_Inr [result_simps]: "check_raw_signature s = Inr x \<longleftrightarrow> raw_signature_ok s"
  by (auto simp: check_raw_signature_def bindR_Inr_iff contract_decode_Inr require_Inr raw_signature_ok_def)

lemma finalize_Inr:
  "finalize_receipt_signature lib (PDict r) p result = Inr out \<longleftrightarrow>
     signing_shape r \<and> validate_prepared lib p = Inr () \<and>
     result_algorithm result = u ''ES256'' \<and> result_key result = request_key_id (request p) \<and>
     build_unsigned_receipt_payload r = canonical_payload p \<and> \<not> hash_conflicts r (prepared_hash p) \<and>
     \<not> has_signature_of (request_key_id (request p)) (signature_entries r) \<and>
     raw_signature_ok (signature_b64url result) \<and>
     out = attach_signature r (prepared_hash p) (signature_entry p result)"
proof -
  have facts: "encodable (canonical_payload p) \<and> prepared_hash p = text_digest (canonical_payload p)"
    if "validate_prepared lib p = Inr ()"
    using that by (metis validate_prepared_iff prepared_for_simps(3,4) signable_def)
  show ?thesis
    unfolding finalize_receipt_signature_def Let_def as_dict_simps option.sel
    by (auto simp: bindR_Inr_iff validate_receipt_shape_Inr require_Inr require_equal_Inr sha256_prefixed_Text_Inr
        text_digest_def [symmetric] encode_utf8_Inr_iff is_ascii_text_digest check_raw_signature_Inr
        utf8.enc_inject dest: facts)
qed


text \<open>
  C13 Preparing succeeds exactly for a receipt with a chain and a signature list, a versioned key id, an
  allowed role, a key that has not signed yet and a receipt hash that is absent, empty or right; and
  what it returns is determined by key, role and canonical payload. In particular the validation
  of its own result never fails.
\<close>

theorem prepare_exact:
  "prepare_receipt_signature lib (PDict r) key role = Inr p \<longleftrightarrow>
     signing_shape r \<and> signable lib key role (build_unsigned_receipt_payload r) \<and>
     \<not> has_signature_of key (signature_entries r) \<and>
     \<not> hash_conflicts r (text_digest (build_unsigned_receipt_payload r)) \<and>
     p = prepared_for key role (build_unsigned_receipt_payload r)"
  by (rule prepare_Inr)

section \<open>What the signer sees\<close>

lemma map_byte_inject: "is_ascii s \<Longrightarrow> is_ascii t \<Longrightarrow> map byte s = map byte t \<Longrightarrow> s = t"
  using utf8.enc_inject [OF is_ascii_encodable is_ascii_encodable, of s t]
  by (simp add: utf8_bytes_ascii)

lemma is_ascii_signing_input: "is_ascii (signing_input (prepared_for key role payload))"
  by (simp add: signing_input_prepared_for is_ascii_b64url_encode)

lemma no_dot_b64url: "46 \<notin> set (b64url_encode b)"
  using b64url_encode_chars [of 46 b] by (auto simp: url_char_def)

lemma dot_split:
  "c \<notin> set a \<Longrightarrow> c \<notin> set b \<Longrightarrow> a @ c # s = b @ c # t \<Longrightarrow> a = b \<and> s = t"
proof (induction a arbitrary: b)
  case Nil
  then show ?case by (cases b) auto
next
  case (Cons x a)
  then show ?case by (cases b) auto
qed

lemma dotted_inject:
  "b64url_encode a @ [46] @ b64url_encode b = b64url_encode a' @ [46] @ b64url_encode b' \<longleftrightarrow> a = a' \<and> b = b'"
  using dot_split [OF no_dot_b64url no_dot_b64url, of a "b64url_encode b" a' "b64url_encode b'"] by auto

text \<open>
  The only thing the external signer receives, the digest request, commits to the content: two
  prepared JSON receipts with the same request agree on everything that is signed, unless their
  signing inputs collide under SHA-256.
\<close>

theorem request_binds_content:
  assumes "prepare_receipt_signature lib (PDict r) key role = Inr p"
    and "prepare_receipt_signature lib (PDict r') key' role' = Inr p'"
    and "request p = request p'" and "json_ok (PDict r)" and "json_ok (PDict r')"
  shows "same_signed_content r r' \<or> collision (map byte (signing_input p)) (map byte (signing_input p'))"
proof (cases "map byte (signing_input p) = map byte (signing_input p')")
  case True
  have p: "p = prepared_for key role (build_unsigned_receipt_payload r)"
    "p' = prepared_for key' role' (build_unsigned_receipt_payload r')"
    and enc: "encodable (build_unsigned_receipt_payload r)" "encodable (build_unsigned_receipt_payload r')"
    using assms(1,2) by (simp_all add: prepare_Inr signable_def)
  have "signing_input p = signing_input p'"
    using True is_ascii_signing_input unfolding p by (blast intro: map_byte_inject)
  then have "payload_b64url p = payload_b64url p'"
    unfolding p signing_input_prepared_for prepared_for_simps dotted_inject by simp
  then have "build_unsigned_receipt_payload r = build_unsigned_receipt_payload r'"
    using enc by (simp add: p utf8.enc_inject)
  with assms(4,5) show ?thesis by (blast intro: payload_binds)
next
  case False
  have "sha256 (map byte (signing_input p)) = sha256 (map byte (signing_input p'))"
    using assms(1-3) by (auto simp: prepare_Inr prepared_for_def Let_def)
  with False show ?thesis by (simp add: collision_def)
qed

section \<open>What finalizing does\<close>

text \<open>
  C14 Finalizing changes nothing that is signed: the receipt it returns has the same canonical payload,
  its chain carries the hash of that payload, its entries are the old ones and one new entry by the
  prepared key, which had not signed before, with an in-range 64-byte signature.
\<close>

theorem finalize_preserves_content:
  assumes "finalize_receipt_signature lib (PDict r) p result = Inr out"
  shows "build_unsigned_receipt_payload out = build_unsigned_receipt_payload r \<and>
     receipt_hash out = Inr (prepared_hash p) \<and>
     dget (chain_of out) (u ''receipt_hash'') = PStr (prepared_hash p) \<and>
     signature_entries out = signature_entries r @ [signature_entry p result] \<and>
     \<not> has_signature_of (request_key_id (request p)) (signature_entries r) \<and>
     raw_signature_ok (signature_b64url result)"
proof -
  have f: "validate_prepared lib p = Inr ()" "build_unsigned_receipt_payload r = canonical_payload p"
    "\<not> has_signature_of (request_key_id (request p)) (signature_entries r)"
    "raw_signature_ok (signature_b64url result)"
    and out: "out = attach_signature r (prepared_hash p) (signature_entry p result)"
    using assms by (simp_all add: finalize_Inr)
  from f(1) have "encodable (canonical_payload p)" "prepared_hash p = text_digest (canonical_payload p)"
    by (metis validate_prepared_iff prepared_for_simps(3,4) signable_def)+
  with f out show ?thesis
    by (simp add: payload_attach receipt_hash_def sha256_prefixed_Text_Inr text_digest_def chain_of_attach
        dget_dset signature_entries_def entries_attach)
qed

section \<open>Signing, then verifying\<close>

text \<open>The public registry has the key: active, for ES256, in that role, valid at the time, with a JWK.\<close>

definition usable_key :: "receipt_registry \<Rightarrow> instant option \<Rightarrow> pystr \<Rightarrow> pystr \<Rightarrow> pyval \<Rightarrow> bool" where
  "usable_key registry c key role jwk \<longleftrightarrow>
     (\<exists>tk. map_of registry key = Some tk \<and> dget tk (u ''status'') = PStr (u ''active'') \<and>
        dget tk (u ''alg'') = PStr (u ''ES256'') \<and> dget tk (u ''role'') = PStr role \<and>
        (\<forall>t. c = Some t \<longrightarrow> within_window tk t) \<and> map_of tk (u ''jwk'') = Some jwk)"

lemma decode_header_prepared:
  "encodable key \<Longrightarrow> decode_header (b64url_encode (utf8_bytes (canonicalize_json (protected_profile key)))) =
     Inr (PDict (protected_profile key))"
  unfolding decode_header_def b64url_decode_encode bindR_simps by (rule profile_decodes)

lemma signed_by_entry:
  assumes p: "p = prepared_for key role payload" and "encodable key" and "encodable payload" and "payload \<noteq> []"
    and "raw_signature_ok (signature_b64url result)" and "usable_key registry c key role jwk"
    and "es256_valid clib jwk (signing_input p) (signature_b64url result)"
  shows "signed_by clib registry c (b64url_encode (utf8_bytes payload)) (signature_entry p result) key role"
proof -
  obtain tk where tk: "map_of registry key = Some tk" "dget tk (u ''status'') = PStr (u ''active'')"
      "dget tk (u ''alg'') = PStr (u ''ES256'')" "dget tk (u ''role'') = PStr role"
      "\<forall>t. c = Some t \<longrightarrow> within_window tk t" "map_of tk (u ''jwk'') = Some jwk"
    using assms(6) by (auto simp: usable_key_def)
  have ne: "signature_b64url result \<noteq> []" "protected_b64url p \<noteq> []"
    using assms(5) by (auto simp: raw_signature_ok_def b64url_encode_Nil_iff p utf8_bytes_not_Nil canonicalize_profile)
  have "decode_header (protected_b64url p) = Inr (PDict (protected_profile key))"
    using decode_header_prepared [OF assms(2)] by (simp add: p)
  note facts = this tk ne assms(4,7)
  show ?thesis
    unfolding signed_by_def signature_entry_def
    by (rule exI [of _ "signature_fields p result"], rule exI [of _ tk],
        rule exI [of _ "protected_b64url p"], rule exI [of _ "protected_profile key"],
        rule exI [of _ jwk], rule exI [of _ "signature_b64url result"])
      (use facts in \<open>simp add: p signature_fields_def signing_input_prepared_for b64url_encode_Nil_iff
        utf8_bytes_not_Nil\<close>, simp add: protected_profile_def)
qed


lemma finalized_signers:
  assumes "finalize_receipt_signature lib (PDict r) p result = Inr out"
    and "usable_key registry c (request_key_id (request p)) (signer_role p) jwk"
    and "es256_valid clib jwk (signing_input p) (signature_b64url result)"
  shows "receipt_signers clib registry out c es = receipt_signers clib registry r c es"
    and "receipt_signers clib registry out c [signature_entry p result] =
      {(request_key_id (request p), signer_role p)}"
proof -
  let ?key = "request_key_id (request p)" and ?role = "signer_role p"
  have f: "validate_prepared lib p = Inr ()" "build_unsigned_receipt_payload r = canonical_payload p"
    "raw_signature_ok (signature_b64url result)"
    and out: "out = attach_signature r (prepared_hash p) (signature_entry p result)"
    using assms(1) by (simp_all add: finalize_Inr)
  have p: "p = prepared_for ?key ?role (canonical_payload p)"
    and sig: "signable lib ?key ?role (canonical_payload p)"
    using f(1) validate_prepared_iff by blast+
  show same: "receipt_signers clib registry out c es = receipt_signers clib registry r c es" for es
    by (simp add: receipt_signers_def out payload_attach)
  have "signed_by clib registry c (b64url_encode (utf8_bytes (canonical_payload p))) (signature_entry p result) ?key ?role"
    using sig f(3) assms(2,3) by (intro signed_by_entry [OF p]) (simp_all add: signable_def)
  moreover have "kid = ?key \<and> role = ?role"
    if "signed_by clib registry c x (signature_entry p result) kid role" for x kid role
    using that by (auto simp: signed_by_def signature_entry_def signature_fields_def)
  ultimately have "signed_by clib registry c (b64url_encode (utf8_bytes (canonical_payload p)))
      (signature_entry p result) kid role \<longleftrightarrow> kid = ?key \<and> role = ?role" for kid role by blast
  then have "receipt_signers clib registry r c [signature_entry p result] = {(?key, ?role)}"
    by (simp add: receipt_signers_def f(2))
  with same show "receipt_signers clib registry out c [signature_entry p result] = {(?key, ?role)}"
    by simp
qed

text \<open>
  A receipt that waits for signatures: its header is well formed but for the receipt hash, its
  policy fits its release class, and the entries it already has are valid.
\<close>

definition unsigned_header :: "pydict \<Rightarrow> instant \<Rightarrow> bool" where
  "unsigned_header r created \<longleftrightarrow>
     dget r (u ''schema_version'') = PStr (u ''sentinel.receipt.v1'') \<and>
     (\<exists>s. dget r (u ''created_at'') = PStr s \<and> ends_with_Z s \<and> receipt_parse_rfc3339_utc s = Inr created) \<and>
     (\<exists>n. dget (chain_of r) (u ''sequence'') = PInt n) \<and>
     (\<exists>h. dget (chain_of r) (u ''previous_hash'') = PStr h \<and> sha256_urn h)"

definition awaits_signature :: "crypto_lib \<Rightarrow> receipt_registry \<Rightarrow> pydict \<Rightarrow> instant \<Rightarrow> pystr \<Rightarrow> pystr \<Rightarrow> bool" where
  "awaits_signature clib registry r created key role \<longleftrightarrow>
     unsigned_header r created \<and>
     (\<exists>policy n roles.
        dget r (u ''policy'') = PDict policy \<and> dget policy (u ''min_signatures'') = PInt n \<and>
        required_roles_of policy = Some roles \<and> class_allows (dget r (u ''release_class'')) n \<and>
        (\<forall>e \<in> set (signature_entries r). receipt_signers clib registry r (Some created) [e] \<noteq> {}) \<and>
        set roles \<subseteq> insert role (snd ` receipt_signers clib registry r (Some created) (signature_entries r)) \<and>
        n \<le> int (card (insert key (fst ` receipt_signers clib registry r (Some created) (signature_entries r)))))"

lemma receipt_signers_append:
  "receipt_signers lib reg r c (es @ es') = receipt_signers lib reg r c es \<union> receipt_signers lib reg r c es'"
  by (auto simp: receipt_signers_def)

lemma finalized_header:
  assumes "finalize_receipt_signature lib (PDict r) p result = Inr out" and "unsigned_header r created"
  shows "well_formed_header out created"
proof -
  have f: "validate_prepared lib p = Inr ()" "build_unsigned_receipt_payload r = canonical_payload p"
    and out: "out = attach_signature r (prepared_hash p) (signature_entry p result)"
    using assms(1) by (simp_all add: finalize_Inr)
  from f(1) have "encodable (canonical_payload p)" "prepared_hash p = text_digest (canonical_payload p)"
    by (metis validate_prepared_iff prepared_for_simps(3,4) signable_def)+
  with assms(2) f(2) show ?thesis
    by (simp add: well_formed_header_def unsigned_header_def out dget_attach chain_of_attach dget_dset payload_attach)
qed

lemma finalized_acceptable:
  assumes fin: "finalize_receipt_signature lib (PDict r) p result = Inr out"
    and usable: "usable_key registry (Some created) (request_key_id (request p)) (signer_role p) jwk"
    and valid: "es256_valid clib jwk (signing_input p) (signature_b64url result)"
    and ready: "awaits_signature clib registry r created (request_key_id (request p)) (signer_role p)"
  shows "receipt_acceptable clib registry out"
proof -
  let ?S = "receipt_signers clib registry r (Some created) (signature_entries r)"
  let ?es = "signature_entries r @ [signature_entry p result]"
  have out: "out = attach_signature r (prepared_hash p) (signature_entry p result)"
    using fin by (simp add: finalize_Inr)
  note signers = finalized_signers [OF fin usable valid]
  have all: "receipt_signers clib registry out (Some created) ?es = insert (request_key_id (request p), signer_role p) ?S"
    using signers by (simp add: receipt_signers_append)
  obtain policy n roles where policy: "dget r (u ''policy'') = PDict policy"
      "dget policy (u ''min_signatures'') = PInt n" "required_roles_of policy = Some roles"
      "class_allows (dget r (u ''release_class'')) n"
    and valid: "\<forall>e \<in> set (signature_entries r). receipt_signers clib registry r (Some created) [e] \<noteq> {}"
    and enough: "set roles \<subseteq> insert (signer_role p) (snd ` ?S)"
      "n \<le> int (card (insert (request_key_id (request p)) (fst ` ?S)))"
    and header: "unsigned_header r created"
    using ready unfolding awaits_signature_def by blast
  have "\<forall>e \<in> set ?es. receipt_signers clib registry out (Some created) [e] \<noteq> {}"
    using valid signers by simp
  moreover have "dget out (u ''signatures'') = PList ?es" "dget out (u ''policy'') = PDict policy"
    "class_allows (dget out (u ''release_class'')) n"
    using policy by (simp_all add: out entries_attach dget_attach)
  ultimately show ?thesis
    using policy(2,3) enough all finalized_header [OF fin header] unfolding receipt_acceptable_def
    by (intro exI [of _ policy] exI [of _ n] exI [of _ roles] exI [of _ created] exI [of _ ?es]) simp
qed

text \<open>
  C11 Signing and verifying fit together: a receipt that only waits for this signature, signed through
  the contract by an external signer whose answer is a valid ES256 signature for the registered key,
  is verified.
\<close>

theorem sign_then_verify:
  assumes "sign_receipt_with_external_digest_signer lib signer (PDict r) key role = Inr out"
    and "usable_key registry (Some created) key role jwk"
    and "\<And>result. signer (request (prepared_for key role (build_unsigned_receipt_payload r))) = Inr result \<Longrightarrow>
      es256_valid clib jwk (signing_input (prepared_for key role (build_unsigned_receipt_payload r)))
        (signature_b64url result)"
    and "awaits_signature clib registry r created key role"
  shows "\<exists>res. verify_receipt clib registry out = Inr res \<and> verified res"
proof -
  let ?p = "prepared_for key role (build_unsigned_receipt_payload r)"
  obtain result where "signer (request ?p) = Inr result"
    and fin: "finalize_receipt_signature lib (PDict r) ?p result = Inr out"
    using assms(1) by (auto simp: sign_receipt_with_external_digest_signer_def bindR_Inr_iff prepare_Inr)
  with assms(3) have "es256_valid clib jwk (signing_input ?p) (signature_b64url result)" by blast
  with fin assms(2,4) have "receipt_acceptable clib registry out"
    by (intro finalized_acceptable [OF fin]) simp_all
  then show ?thesis by (simp add: verify_receipt_decides)
qed

section \<open>A receipt signed through the contract\<close>

text \<open>For the witnesses: a class B receipt without signatures and a signer with a fixed answer.\<close>

definition plain_urls :: url_lib where
  "plain_urls = \<lparr>nfkc = (\<lambda>s. s), unicode_lower = (\<lambda>s. s), ip_literal_ok = (\<lambda>_. False)\<rparr>"

definition sample_key_id :: pystr where
  "sample_key_id = u ''https://vault/keys/signer/1''"

definition unsigned_sample :: pydict where
  "unsigned_sample =
     [(u ''schema_version'', PStr (u ''sentinel.receipt.v1'')), (u ''release_class'', PStr (u ''B'')),
      (u ''created_at'', PStr (zulu_text 2026 7 9 8 0 0)),
      (u ''policy'', PDict [(u ''min_signatures'', PInt 1), (u ''required_roles'', PList [PStr (u ''approver'')])]),
      (u ''chain'', PDict [(u ''sequence'', PInt 1), (u ''previous_hash'', PStr ZERO_HASH)]),
      (u ''signatures'', PList [])]"

definition contract_raw :: bytes where
  "contract_raw = replicate 31 0 @ [1] @ replicate 31 0 @ [1]"

definition sample_answer :: signature_result where
  "sample_answer = \<lparr>result_algorithm = u ''ES256'', result_key = sample_key_id,
     signature_b64url = b64url_encode contract_raw\<rparr>"

definition sample_signer_of :: external_signer where
  "sample_signer_of req = Inr sample_answer"

definition contract_registry :: receipt_registry where
  "contract_registry = [(sample_key_id, sample_receipt_key ''approver'')]"

abbreviation sample_prepared :: prepared_signature where
  "sample_prepared \<equiv> prepared_for sample_key_id (u ''approver'') (build_unsigned_receipt_payload unsigned_sample)"

abbreviation signed_sample :: pydict where
  "signed_sample \<equiv>
     attach_signature unsigned_sample (prepared_hash sample_prepared) (signature_entry sample_prepared sample_answer)"

lemma sample_key_text:
  "sample_key_id = [104, 116, 116, 112, 115, 58, 47, 47, 118, 97, 117, 108, 116, 47, 107, 101, 121, 115, 47, 115, 105, 103, 110, 101, 114, 47, 49]"
  by (simp add: sample_key_id_def u_def)

lemma sample_key_versioned: "validate_versioned_key_id plain_urls sample_key_id = Inr ()"
  by (simp add: sample_key_text validate_versioned_key_id_def urlparse_def clean_url_def split_scheme_def
      partition_def is_letter_def is_alnum_def is_ascii_digit_def ascii_lower_def split_netloc_def bracketed_ok_def
      netloc_ok_def is_ascii_def split_params_def plain_urls_def Let_def uses_params_def u_def)

lemma contract_raw_ok: "raw_signature_ok (b64url_encode contract_raw)"
proof -
  have "length contract_raw = 64" "be_nat (take 32 contract_raw) = 1" "be_nat (drop 32 contract_raw) = 1"
    by code_simp+
  then show ?thesis unfolding raw_signature_ok_def by (intro exI [of _ contract_raw]) (simp add: P256_ORDER_def)
qed

lemma unsigned_sample_encodable: "encodable (build_unsigned_receipt_payload unsigned_sample)"
  by (simp add: build_unsigned_receipt_payload_def unsigned_receipt_def signed_fields_def
      chain_of_def unsigned_sample_def canonicalize_json_def
      json_str_def json_escape_def u_def encodable_def is_scalar_def is_surrogate_def insort_key_def
      ZERO_HASH_def zulu_text_def two_digits_def int_repr_def nat_repr.simps)

lemma unsigned_sample_signable:
  "signable plain_urls sample_key_id (u ''approver'') (build_unsigned_receipt_payload unsigned_sample)"
proof -
  have "signer_role_text (u ''approver'')" "encodable sample_key_id"
    by (simp_all add: signer_role_text_def is_alnum_def is_letter_def is_ascii_digit_def u_def
        sample_key_text encodable_Cons is_scalar_small)
  then show ?thesis
    by (simp add: signable_def sample_key_versioned unsigned_sample_encodable payload_not_Nil)
qed

lemma unsigned_sample_shape:
  "signing_shape unsigned_sample" "signature_entries unsigned_sample = []" "\<not> hash_conflicts unsigned_sample h"
  by (simp_all add: signing_shape_def signature_entries_def hash_conflicts_def chain_of_def unsigned_sample_def)

lemma sample_prepares:
  "prepare_receipt_signature plain_urls (PDict unsigned_sample) sample_key_id (u ''approver'') = Inr sample_prepared"
  by (simp add: prepare_Inr unsigned_sample_shape unsigned_sample_signable has_signature_of_def)

lemma sample_finalizes:
  "finalize_receipt_signature plain_urls (PDict unsigned_sample) sample_prepared sample_answer = Inr signed_sample"
  by (simp add: finalize_Inr unsigned_sample_shape unsigned_sample_signable has_signature_of_def
      contract_raw_ok sample_answer_def)

lemma unsigned_sample_json: "json_ok (PDict unsigned_sample)"
proof -
  have digit: "nat_repr 1 = [49]" by (simp add: nat_repr.simps)
  show ?thesis by (simp add: unsigned_sample_def digit [simplified] max_str_digits_def)
qed

lemma contract_es256:
  assumes "encodable input" shows "es256_valid permissive_lib sample_jwk input (b64url_encode contract_raw)"
proof -
  have "b64url_decode (u ''AA'') = Inr [0]" using decode_AA by (simp add: decode_urlsafe_def b64url_decode_def)
  with assms show ?thesis
    by (simp add: es256_valid_def sample_jwk_def jwk_coordinate_def py_str_def permissive_lib_def b64url_decode_encode
         contract_raw_def)
qed

lemma unsigned_sample_ready:
  "\<exists>created. awaits_signature permissive_lib contract_registry unsigned_sample created sample_key_id (u ''approver'')"
proof -
  obtain created where "parse_rfc3339_utc (zulu_text 2026 7 9 8 0 0) = Inr created"
    using parse_stamp [of 2026 7 9 8 0 0] by (auto simp add: valid_stamp_def valid_date_def days_in_month_def)
  moreover have "ends_with_Z (zulu_text 2026 7 9 8 0 0)" by (simp add: ends_with_Z_def zulu_text_def u_def)
  ultimately have "unsigned_header unsigned_sample created"
    by (simp add: unsigned_header_def receipt_parse_iff unsigned_sample_def chain_of_def sha256_urn_ZERO_HASH)
  moreover have "receipt_signers permissive_lib contract_registry unsigned_sample (Some created) [] = {}"
    by (simp add: receipt_signers_def)
  ultimately show ?thesis
    by (intro exI [of _ created])
      (simp add: awaits_signature_def unsigned_sample_shape, simp add: unsigned_sample_def class_allows_def
        required_roles_of_def role_names_def map_filter_simps)
qed

lemma contract_key_usable: "usable_key contract_registry c sample_key_id (u ''approver'') sample_jwk"
  by (simp add: usable_key_def contract_registry_def sample_receipt_key_def within_window_def)

theorem request_binds_content_witness:
  "same_signed_content unsigned_sample unsigned_sample \<or>
     collision (map byte (signing_input sample_prepared)) (map byte (signing_input sample_prepared))"
  using request_binds_content [OF sample_prepares sample_prepares refl unsigned_sample_json unsigned_sample_json] .

theorem finalize_preserves_content_witness:
  "receipt_hash signed_sample = Inr (prepared_hash sample_prepared)"
  using finalize_preserves_content [OF sample_finalizes] by simp

theorem sign_then_verify_witness:
  "\<exists>res. verify_receipt permissive_lib contract_registry signed_sample = Inr res \<and> verified res"
proof -
  obtain created where ready:
    "awaits_signature permissive_lib contract_registry unsigned_sample created sample_key_id (u ''approver'')"
    using unsigned_sample_ready by blast
  have signed: "sign_receipt_with_external_digest_signer plain_urls sample_signer_of (PDict unsigned_sample)
      sample_key_id (u ''approver'') = Inr signed_sample"
    by (simp add: sign_receipt_with_external_digest_signer_def sample_prepares sample_signer_of_def sample_finalizes)
  have "es256_valid permissive_lib sample_jwk (signing_input sample_prepared) (signature_b64url result)"
    if "sample_signer_of (request sample_prepared) = Inr result" for result
    using that by (auto simp: sample_signer_of_def sample_answer_def
        intro!: contract_es256 is_ascii_encodable is_ascii_signing_input)
  with signed contract_key_usable show ?thesis by (rule sign_then_verify [OF _ _ _ ready])
qed

end
