(* ===== verification/Py_Text.thy ===== *)
theory Py_Text
  imports Urlparse
begin

text \<open>
  Python's text helpers that the clients share: \<open>str.isspace\<close> and \<open>str.strip\<close>. The white space
  of Unicode is a fixed finite set of code points.
\<close>

definition is_space :: "nat \<Rightarrow> bool" where
  "is_space c \<longleftrightarrow>
     9 \<le> c \<and> c \<le> 13 \<or> 28 \<le> c \<and> c \<le> 32 \<or> c = 133 \<or> c = 160 \<or> c = 5760 \<or>
     8192 \<le> c \<and> c \<le> 8202 \<or> c = 8232 \<or> c = 8233 \<or> c = 8239 \<or> c = 8287 \<or> c = 12288"

definition lstrip :: "pystr \<Rightarrow> pystr" where
  "lstrip s = dropWhile is_space s"

definition rstrip :: "pystr \<Rightarrow> pystr" where
  "rstrip s = rev (dropWhile is_space (rev s))"

definition strip :: "pystr \<Rightarrow> pystr" where
  "strip s = rstrip (lstrip s)"

lemma rstrip_Nil_iff: "rstrip s = [] \<longleftrightarrow> (\<forall>c \<in> set s. is_space c)"
  by (simp add: rstrip_def dropWhile_eq_Nil_conv)

lemma strip_Nil_iff: "strip s = [] \<longleftrightarrow> (\<forall>c \<in> set s. is_space c)"
proof -
  have "(\<forall>c \<in> set (dropWhile is_space s). is_space c) \<longleftrightarrow> (\<forall>c \<in> set s. is_space c)"
  proof
    assume all: "\<forall>c \<in> set (dropWhile is_space s). is_space c"
    then have "dropWhile is_space s = []" using hd_dropWhile [of is_space s] by (metis hd_in_set)
    then show "\<forall>c \<in> set s. is_space c" by (simp add: dropWhile_eq_Nil_conv)
  qed (blast dest: set_dropWhileD)
  then show ?thesis by (simp add: strip_def lstrip_def rstrip_Nil_iff)
qed

lemma takeWhile_append_stop: "(\<forall>x \<in> set s. P x) \<Longrightarrow> \<not> P c \<Longrightarrow> takeWhile P (s @ c # t) = s"
  by (simp add: takeWhile_append2)

lemma dropWhile_append_stop: "(\<forall>x \<in> set s. P x) \<Longrightarrow> \<not> P c \<Longrightarrow> dropWhile P (s @ c # t) = c # t"
  by (simp add: dropWhile_append2)

end
