(* ===== verification/Py_Number.thy ===== *)
theory Py_Number
  imports Complex_Main Prelude
begin

text \<open>
  The numbers a caller may pass as a timeout, and the check that one lies in a range, which converts
  it to a float first.
\<close>

text \<open>
  A number as given: a Python integer, a float (a finite one is \<open>m * 2 ^ e\<close>, the others are the
  infinities and nan, which no comparison with bounds accepts), a boolean, or something else.
\<close>

datatype py_number = Integer int | Finite int int | NonFinite | Boolean bool | NotNumeric

text \<open>The least integer that rounds to no finite double.\<close>

definition float_limit :: int where
  "float_limit = 2 ^ 1024 - 2 ^ 970"

text \<open>\<open>0 < float(t) <= limit\<close>; \<open>float\<close> of an integer too large for a double raises.\<close>

definition float_in_range :: "int \<Rightarrow> py_number \<Rightarrow> exc + bool" where
  "float_in_range limit t =
     (case t of
        Integer i \<Rightarrow> if float_limit \<le> \<bar>i\<bar> then Inl OverflowError else Inr (0 < i \<and> i \<le> limit)
      | Finite m e \<Rightarrow>
          Inr (0 < m \<and> (if 0 \<le> e then m * 2 ^ nat e \<le> limit else m \<le> limit * 2 ^ nat (- e)))
      | _ \<Rightarrow> Inr False)"

definition real_value :: "py_number \<Rightarrow> real option" where
  "real_value t =
     (case t of Integer i \<Rightarrow> Some (of_int i) | Finite m e \<Rightarrow> Some (of_int m * 2 powi e) | _ \<Rightarrow> None)"

lemma scaled_le: "(0 < m \<and> (if 0 \<le> e then m * 2 ^ nat e \<le> b else m \<le> b * 2 ^ nat (- e))) \<longleftrightarrow>
    (0 :: real) < of_int m * 2 powi e \<and> of_int m * 2 powi e \<le> (of_int b :: real)"
proof (cases "0 \<le> e")
  case True
  have value_eq: "real_of_int m * 2 powi e = of_int (m * 2 ^ nat e)" using True by (simp add: power_int_def)
  show ?thesis unfolding value_eq of_int_le_iff of_int_0_less_iff using True by (simp add: zero_less_mult_iff)
next
  case False
  then have value_eq: "real_of_int m * 2 powi e = of_int m / 2 ^ nat (- e)"
    by (simp only: power_int_def if_False divide_inverse power_inverse)
  have pos: "(0 :: real) < 2 ^ k" for k :: nat by simp
  have le: "of_int m / 2 ^ nat (- e) \<le> real_of_int b \<longleftrightarrow> m \<le> b * 2 ^ nat (- e)"
    unfolding pos_divide_le_eq [OF pos] of_int_le_iff [where 'a = real, symmetric] by simp
  show ?thesis unfolding value_eq le using False pos by (simp add: zero_less_divide_iff)
qed

lemma float_in_range_True:
  assumes "0 < b" and "b < float_limit"
  shows "float_in_range b t = Inr True \<longleftrightarrow> (\<exists>x. real_value t = Some x \<and> 0 < x \<and> x \<le> of_int b)"
proof (cases t)
  case (Finite m e)
  show ?thesis unfolding Finite float_in_range_def real_value_def py_number.case sum.inject eq_True scaled_le
    by simp
next
  case (Integer i)
  have "0 < i \<and> i \<le> b \<Longrightarrow> \<not> float_limit \<le> \<bar>i\<bar>" using assms(2) by linarith
  with Integer show ?thesis by (auto simp: float_in_range_def real_value_def)
qed (auto simp: float_in_range_def real_value_def)

lemma small_float_limit: "b \<le> 2000 \<Longrightarrow> b < float_limit"
proof -
  have "(2000 :: int) < float_limit" by (simp add: float_limit_def)
  then show "b \<le> 2000 \<Longrightarrow> b < float_limit" by linarith
qed

end
