(* ===== verification/Azure_Signer.thy ===== *)
theory Azure_Signer
  imports External_Signing Py_Text Py_Number
begin

text \<open>
  \<open>src/sentinel_core/azure_cli_signing.py\<close>: the adapter that lets an authenticated Azure CLI sign a
  digest. The command runner (\<open>subprocess.run\<close>) is a parameter: what it returns, or raises, for a
  list of arguments; \<open>None\<close> is a result that is not a \<open>CompletedProcess\<close>.
\<close>

definition AZURE_MAX_RESPONSE_BYTES :: nat where
  "AZURE_MAX_RESPONSE_BYTES = 131072"

definition azure_error :: "string \<Rightarrow> exc" where
  "azure_error m = AzureCliSigningError [Txt m]"

definition azure_decode :: "string \<Rightarrow> pystr \<Rightarrow> exc + bytes" where
  "azure_decode field =
     (let e = AzureCliSigningError [Txt field, Txt '' must be canonical unpadded base64url'']
      in b64url_decode_strict e e e)"

section \<open>Key identifiers\<close>

definition lower_alnum :: "nat \<Rightarrow> bool" where
  "lower_alnum c \<longleftrightarrow> 97 \<le> c \<and> c \<le> 122 \<or> is_ascii_digit c"

text \<open>\<open>_AZURE_VAULT_HOST_RE\<close>: a label of one character, or of 3 to 24 that may have inner hyphens.\<close>

definition vault_label :: "pystr \<Rightarrow> bool" where
  "vault_label s \<longleftrightarrow>
     s \<noteq> [] \<and> lower_alnum (hd s) \<and> lower_alnum (last s) \<and>
     (length s = 1 \<or> 3 \<le> length s \<and> length s \<le> 24 \<and> (\<forall>c \<in> set s. lower_alnum c \<or> c = 45))"

definition vault_host :: "pystr \<Rightarrow> bool" where
  "vault_host s \<longleftrightarrow>
     (let label = takeWhile (\<lambda>c. c \<noteq> 46) s in vault_label label \<and> s = label @ u ''.vault.azure.net'')"

definition key_part :: "nat \<Rightarrow> pystr \<Rightarrow> bool" where
  "key_part n s \<longleftrightarrow> s \<noteq> [] \<and> length s \<le> n \<and> (\<forall>c \<in> set s. is_alnum c \<or> c = 45)"

definition azure_key_error :: exc where
  "azure_key_error = azure_error ''key_id must be an exact versioned Azure Key Vault HTTPS identifier''"

definition azure_url_ok :: "url_lib \<Rightarrow> parsed_url \<Rightarrow> nat option \<Rightarrow> bool" where
  "azure_url_ok lib parsed prt \<longleftrightarrow>
     (let path_parts = filter (\<lambda>part. part \<noteq> []) (split_on 47 (url_path parsed)) in
      scheme parsed = u ''https'' \<and> username parsed = None \<and> password parsed = None \<and> prt = None \<and>
      params parsed = [] \<and> query parsed = [] \<and> fragment parsed = [] \<and>
      (case hostname lib parsed of None \<Rightarrow> False | Some h \<Rightarrow> netloc parsed = h \<and> vault_host h) \<and>
      url_path parsed = 47 # join [47] path_parts \<and> length path_parts = 3 \<and>
      path_parts ! 0 = u ''keys'' \<and> key_part 127 (path_parts ! 1) \<and> key_part 128 (path_parts ! 2))"

definition validate_azure_key_id :: "url_lib \<Rightarrow> pystr \<Rightarrow> exc + unit" where
  "validate_azure_key_id lib key =
     (if key = [] then Inl azure_key_error
      else (case bindR (urlparse lib key) (\<lambda>parsed. bindR (port parsed) (\<lambda>prt. Inr (parsed, prt))) of
          Inl e \<Rightarrow> if is_ValueError e then Inl azure_key_error else Inl e
        | Inr (parsed, prt) \<Rightarrow> if azure_url_ok lib parsed prt then Inr () else Inl azure_key_error))"

section \<open>The response\<close>

text \<open>\<open>payload.get("value")\<close> or \<open>payload.get("result")\<close>, when exactly one of them is present.\<close>

definition response_signature :: "pydict \<Rightarrow> exc + pystr" where
  "response_signature payload =
     (if dhas payload (u ''value'') = dhas payload (u ''result'')
      then Inl (azure_error ''Azure CLI signing response must contain exactly one signature value'')
      else
        let v = (if dhas payload (u ''value'') then dget payload (u ''value'') else dget payload (u ''result'')) in
        (case v of
           PStr s \<Rightarrow> Inr s
         | _ \<Rightarrow> Inl (azure_error ''Azure CLI signing response contains an invalid signature value'')))"

definition load_response :: "pystr \<Rightarrow> exc + pydict" where
  "load_response out =
     (case json_loads out of
        Inl e \<Rightarrow>
          if is_ValueError e \<or> e = TypeError
          then Inl (azure_error ''Azure CLI returned an invalid signing response'') else Inl e
      | Inr (PDict d) \<Rightarrow> Inr d
      | Inr _ \<Rightarrow> Inl (azure_error ''Azure CLI returned an invalid signing response''))"

definition check_response_size :: "pystr \<Rightarrow> exc + unit" where
  "check_response_size out =
     (case encode_utf8 out of
        Inl _ \<Rightarrow> Inl (azure_error ''Azure CLI returned an invalid signing response'')
      | Inr b \<Rightarrow>
          if AZURE_MAX_RESPONSE_BYTES < length b
          then Inl (azure_error ''Azure CLI signing response exceeded the size limit'') else Inr ())"

definition parse_operation_result :: "pystr option \<Rightarrow> pystr \<Rightarrow> exc + pystr" where
  "parse_operation_result stdout expected_key =
     (case stdout of
        None \<Rightarrow> Inl (azure_error ''Azure CLI returned no signing result'')
      | Some out \<Rightarrow>
          if strip out = [] then Inl (azure_error ''Azure CLI returned no signing result'')
          else
            bindR (check_response_size out) (\<lambda>_.
            bindR (load_response out) (\<lambda>payload.
            if dget payload (u ''kid'') \<noteq> PStr expected_key
            then Inl (azure_error ''Azure CLI returned an unexpected versioned key identifier'')
            else
              bindR (response_signature payload) (\<lambda>signature.
              bindR (azure_decode ''Azure CLI signature'' signature) (\<lambda>raw.
              if length raw \<noteq> 64
              then Inl (azure_error ''Azure CLI ES256 signature must be exactly 64 raw bytes'')
              else Inr signature)))))"

section \<open>The signer\<close>

record completed_process =
  returncode :: int
  process_stdout :: "pystr option"

type_synonym command_runner = "pystr list \<Rightarrow> exc + completed_process option"

record azure_signer =
  executable :: pystr
  timeout_seconds :: py_number
  runner :: "command_runner option"

definition azure_post_init :: "azure_signer \<Rightarrow> exc + azure_signer" where
  "azure_post_init signer =
     (if strip (executable signer) = [] then Inl ValueError
      else (case timeout_seconds signer of
          Boolean _ \<Rightarrow> Inl TypeError
        | NotNumeric \<Rightarrow> Inl TypeError
        | t \<Rightarrow>
            bindR (float_in_range 120 t) (\<lambda>ok.
            if \<not> ok then Inl ValueError
            else if runner signer = None then Inl TypeError else Inr signer)))"

definition sign_arguments :: "azure_signer \<Rightarrow> pystr \<Rightarrow> bytes \<Rightarrow> pystr list" where
  "sign_arguments signer key raw =
     [executable signer, u ''keyvault'', u ''key'', u ''sign'', u ''--id'', key, u ''--algorithm'', u ''ES256'',
      u ''--digest'', b64encode raw, u ''--only-show-errors'', u ''--output'', u ''json'']"

definition run_error :: "exc \<Rightarrow> exc" where
  "run_error e =
     (if e = FileNotFoundError then azure_error ''Azure CLI executable was not found''
      else if e = TimeoutExpired then azure_error ''Azure CLI signing operation timed out''
      else if e = SubprocessError \<or> is_OSError e \<or> e = UnicodeEncodeError \<or> e = UnicodeDecodeError
      then azure_error ''Azure CLI signing operation failed''
      else e)"

definition run_command :: "command_runner option \<Rightarrow> pystr list \<Rightarrow> exc + completed_process" where
  "run_command run arguments =
     (case run of
        None \<Rightarrow> Inl TypeError
      | Some f \<Rightarrow>
          (case f arguments of
             Inl e \<Rightarrow> Inl (run_error e)
           | Inr None \<Rightarrow> Inl (azure_error ''Azure CLI runner returned an invalid process result'')
           | Inr (Some completed) \<Rightarrow>
               if returncode completed \<noteq> 0 then Inl (azure_error ''Azure CLI signing operation failed'')
               else Inr completed))"

definition azure_sign_digest :: "url_lib \<Rightarrow> azure_signer \<Rightarrow> external_signer" where
  "azure_sign_digest lib signer req =
     (if request_algorithm req \<noteq> u ''ES256'' then Inl (azure_error ''Azure CLI signer accepts only ES256'')
      else
        bindR (validate_azure_key_id lib (request_key_id req)) (\<lambda>_.
        bindR (azure_decode ''signing digest'' (digest_b64url req)) (\<lambda>raw.
        if length raw \<noteq> 32 then Inl (azure_error ''signing digest must contain exactly 32 bytes'')
        else
          bindR (run_command (runner signer) (sign_arguments signer (request_key_id req) raw)) (\<lambda>completed.
          bindR (parse_operation_result (process_stdout completed) (request_key_id req)) (\<lambda>signature.
          Inr \<lparr>result_algorithm = u ''ES256'', result_key = request_key_id req,
            signature_b64url = signature\<rparr>)))))"

end
