(* ===== verification/Azure_Laws.thy ===== *)
theory Azure_Laws
  imports Azure_Signer Signing_Laws
begin

text \<open>
  What the Azure adapter guarantees: which key identifiers it accepts, what it asks the command line
  for, what it makes of the answer, and that it is an external signer in the sense of the contract.
\<close>

section \<open>Taking a URL apart and putting it together\<close>

lemma partition_iff:
  "partition c s = (a, f, b) \<longleftrightarrow> s = a @ (if f then c # b else []) \<and> c \<notin> set a \<and> (f \<or> b = [])"
proof
  assume p: "partition c s = (a, f, b)"
  then have a: "a = takeWhile (\<lambda>x. x \<noteq> c) s" and f: "f \<longleftrightarrow> c \<in> set s" and b: "b = drop 1 (dropWhile (\<lambda>x. x \<noteq> c) s)"
    by (auto simp: partition_def)
  have notin: "c \<notin> set a" using set_takeWhileD a by fastforce
  show "s = a @ (if f then c # b else []) \<and> c \<notin> set a \<and> (f \<or> b = [])"
  proof (cases f)
    case True
    then obtain xs ys where "s = xs @ c # ys" "c \<notin> set xs" using f by (meson split_list_first)
    with p True show ?thesis by (auto simp: partition_append)
  next
    case False
    with p f show ?thesis by (auto simp: partition_absent)
  qed
next
  assume "s = a @ (if f then c # b else []) \<and> c \<notin> set a \<and> (f \<or> b = [])"
  then show "partition c s = (a, f, b)" by (auto simp: partition_append partition_absent split: if_splits)
qed

text \<open>A delimiter with nothing behind it: it is dropped without a trace.\<close>

definition mark :: "bool \<Rightarrow> nat \<Rightarrow> pystr" where
  "mark present c = (if present then [c] else [])"

lemma mark_simps [simp]: "mark False c = []" "mark True c = [c]" "c' \<in> set (mark b c) \<longleftrightarrow> b \<and> c' = c"
  by (auto simp: mark_def)

lemma partition_empty_rest: "(\<exists>f. partition c s = (a, f, [])) \<longleftrightarrow> c \<notin> set a \<and> (\<exists>f. s = a @ mark f c)"
  by (auto simp: partition_iff mark_def)

lemma last_segment: "47 \<notin> set t \<Longrightarrow> rev (takeWhile (\<lambda>c. c \<noteq> 47) (rev (s @ 47 # t))) = t"
proof -
  assume "47 \<notin> set t"
  then have "takeWhile (\<lambda>c. c \<noteq> 47) (rev t @ 47 # rev s) = rev t" by (intro takeWhile_append_stop) auto
  then show ?thesis by simp
qed

lemma last_slash:
  assumes "47 \<notin> set t" and "47 \<notin> set q"
  shows "a @ 47 # t = p @ 47 # q \<longleftrightarrow> a = p \<and> t = q"
proof -
  have "a @ 47 # t = p @ 47 # q \<longleftrightarrow> rev t @ 47 # rev a = rev q @ 47 # rev p"
    by (subst rev_is_rev_conv [symmetric]) simp
  also have "\<dots> \<longleftrightarrow> rev t = rev q \<and> rev a = rev p"
    using assms dot_split [of 47 "rev t" "rev q" "rev a" "rev p"] by auto
  finally show ?thesis by auto
qed

lemma split_params_segment:
  assumes "47 \<notin> set t"
  shows "split_params (s @ 47 # t) = (let (before, f, after) = partition 59 t in (s @ 47 # before, after))"
  unfolding split_params_def last_segment [OF assms] by (simp add: Let_def split: prod.split)

lemma set_split_params: "set (fst (split_params s)) \<subseteq> set s"
  by (auto simp: split_params_def Let_def partition_def split: prod.split dest!: in_set_takeD set_takeWhileD)

lemma split_params_empty:
  assumes "47 \<in> set path"
  shows "split_params s = (path, []) \<longleftrightarrow>
     (\<exists>f. s = path @ mark f 59) \<and> 59 \<notin> set (rev (takeWhile (\<lambda>c. c \<noteq> 47) (rev path)))"
proof -
  obtain p q where path: "path = p @ 47 # q" "47 \<notin> set q" using assms by (meson split_list_last)
  show ?thesis
  proof (cases "47 \<in> set s")
    case True
    then obtain a t where s: "s = a @ 47 # t" "47 \<notin> set t" by (meson split_list_last)
    obtain before f after where t: "partition 59 t = (before, f, after)" by (cases "partition 59 t") auto
    then have parts: "t = before @ (if f then 59 # after else [])" "59 \<notin> set before" "f \<or> after = []"
      by (simp_all add: partition_iff)
    have "47 \<notin> set before" using s(2) parts(1) by auto
    have same: "a @ 47 # before = p @ 47 # q \<longleftrightarrow> a = p \<and> before = q"
      using \<open>47 \<notin> set before\<close> path(2) by (rule last_slash)
    have same': "a @ 47 # t = p @ 47 # q @ mark g 59 \<longleftrightarrow> a = p \<and> t = q @ mark g 59" for g
      using s(2) path(2) by (intro last_slash) auto
    have "split_params s = (path, []) \<longleftrightarrow> a = p \<and> before = q \<and> after = []"
      unfolding s(1) split_params_segment [OF s(2)] t by (simp add: path(1) same)
    also have "\<dots> \<longleftrightarrow> (\<exists>g. a = p \<and> t = q @ mark g 59) \<and> 59 \<notin> set q"
      using t parts partition_empty_rest [of 59 t q] by auto
    finally show ?thesis by (simp add: s(1) path last_segment same' del: rev_append)
  next
    case False
    then have "split_params s \<noteq> (path, [])"
      using assms set_split_params [of s] by (auto)
    moreover have "s \<noteq> path @ mark f 59" for f using False assms by auto
    ultimately show ?thesis by blast
  qed
qed

lemma https_text: "u ''https'' = [104, 116, 116, 112, 115]"
  by (simp add: u_def)

lemma lower_https:
  assumes "ascii_lower sch = u ''https''"
  shows "sch \<noteq> []" and "\<forall>c \<in> set sch. is_letter c"
proof -
  have "is_letter c" if "c \<in> set sch" for c
  proof -
    have "(if 65 \<le> c \<and> c \<le> 90 then c + 32 else c) \<in> set (ascii_lower sch)"
      using that by (simp add: ascii_lower_def)
    then show ?thesis unfolding assms https_text by (auto simp: is_letter_def split: if_splits)
  qed
  then show "\<forall>c \<in> set sch. is_letter c" by blast
  show "sch \<noteq> []" using assms by (auto simp: https_text ascii_lower_def)
qed

lemma split_scheme_https:
  "split_scheme url = (u ''https'', rest) \<longleftrightarrow> (\<exists>sch. ascii_lower sch = u ''https'' \<and> url = sch @ 58 # rest)"
proof
  assume "split_scheme url = (u ''https'', rest)"
  then show "\<exists>sch. ascii_lower sch = u ''https'' \<and> url = sch @ 58 # rest"
    by (auto simp: split_scheme_def https_text partition_iff split: prod.splits if_splits)
next
  assume "\<exists>sch. ascii_lower sch = u ''https'' \<and> url = sch @ 58 # rest"
  then obtain sch where sch: "ascii_lower sch = u ''https''" "url = sch @ 58 # rest" by blast
  note letters = lower_https [OF sch(1)]
  then have "58 \<notin> set sch" by (auto simp: is_letter_def)
  then have "partition 58 url = (sch, True, rest)" by (simp add: sch partition_append)
  with letters sch(1) show "split_scheme url = (u ''https'', rest)"
    by (auto simp: split_scheme_def is_alnum_def)
qed

definition host_text :: "pystr \<Rightarrow> bool" where
  "host_text s \<longleftrightarrow> s \<noteq> [] \<and> (\<forall>c \<in> set s. lower_alnum c \<or> c = 45 \<or> c = 46)"

lemma host_text_char: "host_text s \<Longrightarrow> c \<in> set s \<Longrightarrow> c < 128 \<and> c \<notin> {47, 63, 35, 64, 58, 37, 91, 93} \<and> \<not> (65 \<le> c \<and> c \<le> 90)"
  by (auto simp: host_text_def lower_alnum_def is_ascii_digit_def)

lemma host_text_absent:
  assumes "host_text s"
  shows "47 \<notin> set s" "63 \<notin> set s" "35 \<notin> set s" "64 \<notin> set s" "58 \<notin> set s" "37 \<notin> set s" "91 \<notin> set s" "93 \<notin> set s"
  using host_text_char [OF assms] by blast+

lemma host_text_ascii: "host_text s \<Longrightarrow> is_ascii s"
  using host_text_char by (auto simp: is_ascii_def)

lemma split_netloc_host:
  assumes "host_text loc"
  shows "split_netloc rest = (loc, 47 # t) \<longleftrightarrow> rest = [47, 47] @ loc @ 47 # t"
proof
  let ?P = "\<lambda>c :: nat. c \<notin> {47, 63, 35}"
  assume r: "split_netloc rest = (loc, 47 # t)"
  then have "take 2 rest = [47, 47]" "takeWhile ?P (drop 2 rest) = loc" "dropWhile ?P (drop 2 rest) = 47 # t"
    using assms unfolding split_netloc_def host_text_def by (auto split: if_splits)
  then have "rest = [47, 47] @ (loc @ 47 # t)"
    by (metis append_take_drop_id takeWhile_dropWhile_id)
  then show "rest = [47, 47] @ loc @ 47 # t" by simp
next
  assume r: "rest = [47, 47] @ loc @ 47 # t"
  have "takeWhile (\<lambda>c. c \<notin> {47, 63, 35}) (loc @ 47 # t) = loc" "dropWhile (\<lambda>c. c \<notin> {47, 63, 35}) (loc @ 47 # t) = 47 # t"
    using host_text_absent [OF assms] by (subst takeWhile_append_stop dropWhile_append_stop; auto)+
  then show "split_netloc rest = (loc, 47 # t)" by (simp add: split_netloc_def r)
qed

text \<open>A path of key parts, and the URL it ends, with what the parser drops.\<close>

definition path_text :: "pystr \<Rightarrow> bool" where
  "path_text s \<longleftrightarrow> 35 \<notin> set s \<and> 63 \<notin> set s \<and> 59 \<notin> set s"

lemma partition_tail:
  "c \<notin> set s \<Longrightarrow> c \<notin> set t \<Longrightarrow> partition c (s @ t @ mark f c) = (s @ t, f, [])"
  by (simp add: partition_iff mark_def)

definition plain_url :: "pystr \<Rightarrow> pystr \<Rightarrow> parsed_url" where
  "plain_url loc path = \<lparr>scheme = u ''https'', netloc = loc, url_path = path, params = [], query = [], fragment = []\<rparr>"

lemma urlparse_plain:
  assumes host: "host_text loc" and path: "path_text (47 # t)"
  shows "urlparse lib url = Inr (plain_url loc (47 # t)) \<longleftrightarrow>
     (\<exists>sch b1 b2 b3. ascii_lower sch = u ''https'' \<and>
        clean_url url = sch @ u ''://'' @ loc @ 47 # t @ mark b1 59 @ mark b2 63 @ mark b3 35)"
    (is "_ \<longleftrightarrow> ?shape")
proof
  assume "urlparse lib url = Inr (plain_url loc (47 # t))"
  then obtain url1 url2 url3 url4 f g where
    s: "split_scheme (clean_url url) = (u ''https'', url1)" "split_netloc url1 = (loc, url2)"
      "partition 35 url2 = (url3, f, [])" "partition 63 url3 = (url4, g, [])" "split_params url4 = (47 # t, [])"
    unfolding urlparse_def plain_url_def Let_def
    by (auto simp: uses_params_def split: prod.splits if_splits)
  then obtain h where "url4 = 47 # t @ mark h 59" by (auto simp: split_params_empty)
  with s(3,4) have url2: "url2 = 47 # t @ mark h 59 @ mark g 63 @ mark f 35" by (auto simp: partition_iff)
  have "url1 = [47, 47] @ loc @ url2" using s(2) url2 split_netloc_host [OF host] by auto
  with s(1) url2 obtain sch where "ascii_lower sch = u ''https''"
    "clean_url url = sch @ 58 # [47, 47] @ loc @ 47 # t @ mark h 59 @ mark g 63 @ mark f 35"
    by (auto simp: split_scheme_https)
  then show ?shape by (intro exI [of _ sch] exI [of _ h] exI [of _ g] exI [of _ f]) (simp add: u_def)
next
  assume ?shape
  then obtain sch b1 b2 b3 where sch: "ascii_lower sch = u ''https''"
    and url: "clean_url url = sch @ 58 # [47, 47] @ loc @ 47 # t @ mark b1 59 @ mark b2 63 @ mark b3 35"
    by (auto simp: u_def)
  let ?url4 = "47 # t @ mark b1 59"
  have "split_scheme (clean_url url) = (u ''https'', [47, 47] @ loc @ ?url4 @ mark b2 63 @ mark b3 35)"
    using sch by (auto simp: split_scheme_https url)
  moreover have "split_netloc ([47, 47] @ loc @ ?url4 @ mark b2 63 @ mark b3 35) = (loc, ?url4 @ mark b2 63 @ mark b3 35)"
    using split_netloc_host [OF host] by auto
  moreover have "partition 35 (?url4 @ mark b2 63 @ mark b3 35) = (?url4 @ mark b2 63, b3, [])"
    using path by (intro partition_tail) (auto simp: path_text_def)
  moreover have "partition 63 (?url4 @ mark b2 63) = (?url4, b2, [])"
    using path partition_tail [of 63 ?url4 "[]" b2] by (auto simp: path_text_def)
  moreover have "split_params ?url4 = (47 # t, [])"
    using path by (auto simp: split_params_empty path_text_def dest!: set_takeWhileD)
  ultimately show "urlparse lib url = Inr (plain_url loc (47 # t))"
    using host_text_absent [OF host] host_text_ascii [OF host]
    by (simp add: urlparse_def bracketed_ok_def netloc_ok_def uses_params_def plain_url_def)
qed

section \<open>The key identifiers that are accepted\<close>

lemma vault_host_text:
  assumes "vault_host s" shows "host_text s"
proof -
  let ?label = "takeWhile (\<lambda>c. c \<noteq> 46) s"
  have label: "vault_label ?label" and s: "s = ?label @ u ''.vault.azure.net''"
    using assms by (simp_all add: vault_host_def Let_def)
  have "lower_alnum c \<or> c = 45" if "c \<in> set ?label" for c
  proof (cases "length ?label = 1")
    case True
    then have "?label = [hd ?label]" by (cases ?label) auto
    then have "set ?label = {hd ?label}" by (metis list.set(1,2))
    with that have "c = hd ?label" by blast
    with label show ?thesis by (simp add: vault_label_def)
  qed (use label that in \<open>auto simp: vault_label_def\<close>)
  moreover have "\<forall>c \<in> set (u ''.vault.azure.net''). lower_alnum c \<or> c = 46"
    by (simp add: u_def lower_alnum_def is_ascii_digit_def)
  ultimately have "\<forall>c \<in> set (?label @ u ''.vault.azure.net''). lower_alnum c \<or> c = 45 \<or> c = 46" by auto
  moreover have "s \<noteq> []" using label by (auto simp: vault_label_def)
  ultimately show ?thesis using s unfolding host_text_def by metis
qed

lemma host_parts:
  assumes "host_text (netloc p)"
  shows "username p = None" "password p = None" "port p = Inr None" "hostname lib p = Some (netloc p)"
proof -
  note absent = host_text_absent [OF assms]
  have rp: "rpartition 64 (netloc p) = ([], False, netloc p)" using absent by (simp add: rpartition_absent)
  have info: "hostinfo p = (netloc p, [])" using absent by (simp add: hostinfo_def rp partition_absent)
  show "username p = None" "password p = None" "port p = Inr None"
    by (simp_all add: username_def password_def port_def rp info partition_absent)
  have "ascii_lower (netloc p) = netloc p"
    unfolding ascii_lower_def using host_text_char [OF assms] by (intro map_idI) auto
  then show "hostname lib p = Some (netloc p)"
    using absent assms host_text_ascii [OF assms] unfolding hostname_def info
    by (simp add: partition_absent lower_def host_text_def)
qed

definition key_path :: "pystr \<Rightarrow> pystr \<Rightarrow> pystr" where
  "key_path name version = u ''/keys/'' @ name @ 47 # version"

lemma key_part_no_slash: "key_part n s \<Longrightarrow> 47 \<notin> set s \<and> 35 \<notin> set s \<and> 63 \<notin> set s \<and> 59 \<notin> set s \<and> s \<noteq> []"
  by (auto simp: key_part_def is_alnum_def is_letter_def is_ascii_digit_def)

lemma key_path_parts:
  assumes "key_part m name" and "key_part n version"
  shows "filter (\<lambda>part. part \<noteq> []) (split_on 47 (key_path name version)) = [u ''keys'', name, version]"
proof -
  have "key_path name version = [] @ 47 # (u ''keys'' @ 47 # (name @ 47 # version))"
    by (simp add: key_path_def u_def)
  moreover have "47 \<notin> set (u ''keys'')" by (simp add: u_def)
  ultimately show ?thesis
    using key_part_no_slash [OF assms(1)] key_part_no_slash [OF assms(2)]
    by (simp add: split_on_append split_on_absent)
qed

lemma key_path_head: "key_path name version = 47 # u ''keys'' @ 47 # name @ 47 # version"
  by (simp add: key_path_def u_def)

lemma key_path_text: "key_part m name \<Longrightarrow> key_part n version \<Longrightarrow> path_text (key_path name version)"
  using key_part_no_slash [of m name] key_part_no_slash [of n version] by (auto simp: path_text_def key_path_def u_def)

lemma list_of_3: "length xs = 3 \<Longrightarrow> xs = [xs ! 0, xs ! 1, xs ! 2]"
  by (auto simp: numeral_3_eq_3 numeral_2_eq_2 length_Suc_conv)

lemma azure_url_ok_iff:
  "(\<exists>prt. port p = Inr prt \<and> azure_url_ok lib p prt) \<longleftrightarrow>
     (\<exists>host name version. vault_host host \<and> key_part 127 name \<and> key_part 128 version \<and>
        p = plain_url host (key_path name version))"
proof
  assume "\<exists>prt. port p = Inr prt \<and> azure_url_ok lib p prt"
  then have ok: "azure_url_ok lib p None" by (auto simp: azure_url_ok_def Let_def)
  define parts where "parts = filter (\<lambda>part. part \<noteq> []) (split_on 47 (url_path p))"
  have len: "length parts = 3" "parts ! 0 = u ''keys''" and keys: "key_part 127 (parts ! 1)" "key_part 128 (parts ! 2)"
    and path: "url_path p = 47 # join [47] parts" and host: "vault_host (netloc p)"
    using ok by (simp_all add: azure_url_ok_def Let_def parts_def split: option.splits)
  have "parts = [u ''keys'', parts ! 1, parts ! 2]" using list_of_3 [OF len(1)] len(2) by simp
  then obtain name version where parts: "parts = [u ''keys'', name, version]" by blast
  then have "url_path p = key_path name version" by (simp add: path key_path_head)
  moreover have "scheme p = u ''https''" "params p = []" "query p = []" "fragment p = []"
    using ok by (simp_all add: azure_url_ok_def Let_def)
  ultimately have "p = plain_url (netloc p) (key_path name version)" by (cases p) (simp add: plain_url_def)
  moreover have "key_part 127 name" "key_part 128 version" using keys by (simp_all add: parts)
  ultimately show "\<exists>host name version. vault_host host \<and> key_part 127 name \<and> key_part 128 version \<and>
        p = plain_url host (key_path name version)" using host by blast
next
  assume "\<exists>host name version. vault_host host \<and> key_part 127 name \<and> key_part 128 version \<and>
        p = plain_url host (key_path name version)"
  then obtain host name version where *: "vault_host host" "key_part 127 name" "key_part 128 version"
    and p: "p = plain_url host (key_path name version)" by blast
  have "netloc p = host" by (simp add: p plain_url_def)
  with host_parts [of p] vault_host_text [OF *(1)] have parts: "username p = None" "password p = None"
    "port p = Inr None" "hostname lib p = Some host" by simp_all
  have "azure_url_ok lib p None"
    using * parts key_path_parts [OF *(2,3)] by (simp add: azure_url_ok_def p plain_url_def key_path_head)
  with parts(3) show "\<exists>prt. port p = Inr prt \<and> azure_url_ok lib p prt" by blast
qed

lemma validate_azure_plain:
  "validate_azure_key_id lib key = Inr () \<longleftrightarrow>
     (\<exists>host name version. vault_host host \<and> key_part 127 name \<and> key_part 128 version \<and>
        urlparse lib key = Inr (plain_url host (key_path name version)))"
proof -
  have empty: "urlparse lib [] \<noteq> Inr (plain_url host path)" for host path
    by (simp add: urlparse_def clean_url_def split_scheme_def partition_def split_netloc_def bracketed_ok_def
        netloc_ok_def is_ascii_def uses_params_def split_params_def plain_url_def)
  have "validate_azure_key_id lib key = Inr () \<longleftrightarrow>
      key \<noteq> [] \<and> (\<exists>p. urlparse lib key = Inr p \<and> (\<exists>prt. port p = Inr prt \<and> azure_url_ok lib p prt))"
    by (auto simp: validate_azure_key_id_def bindR_def split: sum.splits if_splits)
  then show ?thesis unfolding azure_url_ok_iff using empty by blast
qed

text \<open>
  C16 The Azure adapter accepts exactly the key identifiers that consist of the scheme \<open>https\<close>, in any
  mix of cases, a vault host, a key name and a version, up to what \<open>urlparse\<close> forgets: leading control
  characters and spaces, tabs and line ends anywhere, and an empty parameter, query or fragment part
  at the end.
\<close>

theorem azure_key_id_exact:
  "validate_azure_key_id lib key = Inr () \<longleftrightarrow>
     (\<exists>sch host name version b1 b2 b3.
        ascii_lower sch = u ''https'' \<and> vault_host host \<and> key_part 127 name \<and> key_part 128 version \<and>
        clean_url key = sch @ u ''://'' @ host @ u ''/keys/'' @ name @ [47] @ version @
          mark b1 59 @ mark b2 63 @ mark b3 35)"
proof -
  have "urlparse lib key = Inr (plain_url host (key_path name version)) \<longleftrightarrow>
      (\<exists>sch b1 b2 b3. ascii_lower sch = u ''https'' \<and>
        clean_url key = sch @ u ''://'' @ host @ u ''/keys/'' @ name @ [47] @ version @
          mark b1 59 @ mark b2 63 @ mark b3 35)"
    if "vault_host host" "key_part 127 name" "key_part 128 version" for host name version
    using urlparse_plain [OF vault_host_text [OF that(1)], of _ lib key] key_path_text [OF that(2,3)]
    unfolding key_path_head by (simp add: u_def)
  then show ?thesis unfolding validate_azure_plain by blast
qed

lemma azure_key_versioned:
  assumes "validate_azure_key_id lib key = Inr ()"
  shows "validate_versioned_key_id lib key = Inr ()"
proof -
  obtain host name version where *: "vault_host host" "key_part 127 name" "key_part 128 version"
    and parsed: "urlparse lib key = Inr (plain_url host (key_path name version))"
    using assms by (auto simp: validate_azure_plain)
  have "key \<noteq> []" "host \<noteq> []"
    using assms vault_host_text [OF *(1)] by (auto simp: validate_azure_key_id_def host_text_def azure_key_error_def)
  then show ?thesis
    by (simp add: validate_versioned_key_id_def parsed plain_url_def key_path_parts [OF *(2,3)])
qed

section \<open>The response\<close>

lemma azure_decode_Inr: "azure_decode field s = Inr b \<longleftrightarrow> b \<noteq> [] \<and> b64url_encode b = s"
  unfolding azure_decode_def Let_def by (rule strict_b64.dec_iff)

text \<open>What counts as an answer for a key: an object with that key id and one signature of 64 bytes.\<close>

definition answers_with :: "pystr \<Rightarrow> pystr \<Rightarrow> bytes \<Rightarrow> bool" where
  "answers_with out key raw \<longleftrightarrow>
     (\<exists>payload. json_loads out = Inr (PDict payload) \<and> dget payload (u ''kid'') = PStr key \<and>
        (dget payload (u ''value'') = PStr (b64url_encode raw) \<and> \<not> dhas payload (u ''result'') \<or>
         dget payload (u ''result'') = PStr (b64url_encode raw) \<and> \<not> dhas payload (u ''value'')) \<and>
        length raw = 64)"

lemma dget_PStr_dhas: "dget d k = PStr s \<Longrightarrow> dhas d k"
  by (auto simp: dget_def dhas_def split: option.splits)

lemma response_signature_Inr:
  "response_signature d = Inr s \<longleftrightarrow>
     dget d (u ''value'') = PStr s \<and> \<not> dhas d (u ''result'') \<or>
     dget d (u ''result'') = PStr s \<and> \<not> dhas d (u ''value'')"
  by (auto simp: response_signature_def Let_def dest: dget_PStr_dhas split: pyval.splits if_splits)

lemma load_response_Inr: "load_response out = Inr d \<longleftrightarrow> json_loads out = Inr (PDict d)"
  by (auto simp: load_response_def split: sum.splits pyval.splits if_splits)

lemma check_response_size_Inr:
  "check_response_size out = Inr x \<longleftrightarrow> encodable out \<and> length (utf8_bytes out) \<le> AZURE_MAX_RESPONSE_BYTES"
  by (auto simp: check_response_size_def encode_utf8_def split: if_splits)

lemma scan_json_constant_no_dict: "scan_constant json_constants s \<noteq> Inr (PDict d, r)"
proof
  assume "scan_constant json_constants s = Inr (PDict d, r)"
  then have "\<exists>c \<in> set json_constants. snd c = PDict d" by (rule Signing_Laws.scan_constant_no_dict)
  then show False by (simp add: json_constants_def)
qed

lemma scan_dict_start: "scan_once default_hook n s = Inr (PDict d, r) \<Longrightarrow> 123 \<in> set s"
  using scan_json_constant_no_dict [of s d r]
  by (cases n; cases s) (auto simp: result_simps simp del: scan_constant.simps split: if_splits)

lemma space_not_json: "strip out = [] \<Longrightarrow> json_loads out \<noteq> Inr (PDict d)"
proof
  assume "strip out = []" and "json_loads out = Inr (PDict d)"
  then obtain n r where "scan_once default_hook n (skip_ws out) = Inr (PDict d, r)"
    by (auto simp: json_loads_def json_loads_hook_def result_simps simp del: scan_once.simps split: if_splits)
  then have "123 \<in> set out" using scan_dict_start by (auto dest!: set_dropWhileD)
  with \<open>strip out = []\<close> show False by (auto simp: strip_Nil_iff is_space_def)
qed

lemma parse_operation_result_Inr:
  "parse_operation_result stdout key = Inr s \<longleftrightarrow>
     (\<exists>out raw. stdout = Some out \<and> encodable out \<and> length (utf8_bytes out) \<le> AZURE_MAX_RESPONSE_BYTES \<and>
        answers_with out key raw \<and> s = b64url_encode raw)"
proof -
  have raw64: "length raw = 64 \<Longrightarrow> raw \<noteq> []" for raw :: bytes by auto
  have "parse_operation_result stdout key = Inr s \<longleftrightarrow>
      (\<exists>out. stdout = Some out \<and> strip out \<noteq> [] \<and> encodable out \<and>
         length (utf8_bytes out) \<le> AZURE_MAX_RESPONSE_BYTES \<and>
         (\<exists>d. json_loads out = Inr (PDict d) \<and> dget d (u ''kid'') = PStr key \<and> response_signature d = Inr s \<and>
            (\<exists>raw. b64url_encode raw = s \<and> length raw = 64)))"
    by (simp add: parse_operation_result_def bindR_Inr_iff check_response_size_Inr load_response_Inr azure_decode_Inr
        split: option.split) (use raw64 in blast)
  also have "\<dots> \<longleftrightarrow> (\<exists>out raw. stdout = Some out \<and> encodable out \<and>
      length (utf8_bytes out) \<le> AZURE_MAX_RESPONSE_BYTES \<and> answers_with out key raw \<and> s = b64url_encode raw)"
    unfolding answers_with_def response_signature_Inr using space_not_json by blast
  finally show ?thesis .
qed

section \<open>Signing a digest\<close>

lemma run_command_Inr:
  "run_command r arguments = Inr completed \<longleftrightarrow>
     (\<exists>run. r = Some run \<and> run arguments = Inr (Some completed) \<and> returncode completed = 0)"
  by (auto simp: run_command_def split: option.splits sum.splits if_splits)

lemma azure_digest_exact:
  "azure_sign_digest lib signer req = Inr result \<longleftrightarrow>
     request_algorithm req = u ''ES256'' \<and> validate_azure_key_id lib (request_key_id req) = Inr () \<and>
     (\<exists>raw run completed out signature.
        length raw = 32 \<and> digest_b64url req = b64url_encode raw \<and> runner signer = Some run \<and>
        run (sign_arguments signer (request_key_id req) raw) = Inr (Some completed) \<and>
        returncode completed = 0 \<and> process_stdout completed = Some out \<and> encodable out \<and>
        length (utf8_bytes out) \<le> AZURE_MAX_RESPONSE_BYTES \<and>
        answers_with out (request_key_id req) signature \<and>
        result = \<lparr>result_algorithm = u ''ES256'', result_key = request_key_id req,
          signature_b64url = b64url_encode signature\<rparr>)"
proof -
  have nonempty32: "length raw = 32 \<Longrightarrow> raw \<noteq> []" for raw :: bytes by auto
  have nonempty: "raw \<noteq> [] \<and> b64url_encode raw = d \<and> length raw = 32 \<and> Q \<longleftrightarrow> length raw = 32 \<and> d = b64url_encode raw \<and> Q"
    for raw :: bytes and d Q by auto
  have "azure_sign_digest lib signer req = Inr result \<longleftrightarrow>
     request_algorithm req = u ''ES256'' \<and> validate_azure_key_id lib (request_key_id req) = Inr () \<and>
     (\<exists>raw. raw \<noteq> [] \<and> b64url_encode raw = digest_b64url req \<and> length raw = 32 \<and>
       (\<exists>completed. run_command (runner signer) (sign_arguments signer (request_key_id req) raw) = Inr completed \<and>
         (\<exists>text. parse_operation_result (process_stdout completed) (request_key_id req) = Inr text \<and>
           result = \<lparr>result_algorithm = u ''ES256'', result_key = request_key_id req, signature_b64url = text\<rparr>)))"
    unfolding azure_sign_digest_def
    by (simp add: bindR_Inr_iff azure_decode_Inr eq_commute [of _ result] conj_assoc)
      (use nonempty32 in blast)
  then show ?thesis unfolding nonempty run_command_Inr parse_operation_result_Inr by blast
qed

text \<open>
  C17 The adapter returns a signature exactly if the request is for ES256 with an Azure key id and the
  canonical text of 32 bytes, the command, called with these 32 bytes for this key, ends with code
  zero, and its output, at most 131072 bytes of UTF-8, is a JSON object with this key id and exactly
  one signature value, the canonical text of 64 bytes; and it returns this text unchanged.
\<close>

theorem azure_sign_digest_exact:
  "azure_sign_digest lib signer req = Inr result \<longleftrightarrow>
     request_algorithm req = u ''ES256'' \<and> validate_azure_key_id lib (request_key_id req) = Inr () \<and>
     (\<exists>raw run completed out signature.
        length raw = 32 \<and> digest_b64url req = b64url_encode raw \<and> runner signer = Some run \<and>
        run (sign_arguments signer (request_key_id req) raw) = Inr (Some completed) \<and>
        returncode completed = 0 \<and> process_stdout completed = Some out \<and> encodable out \<and>
        length (utf8_bytes out) \<le> AZURE_MAX_RESPONSE_BYTES \<and>
        answers_with out (request_key_id req) signature \<and>
        result = \<lparr>result_algorithm = u ''ES256'', result_key = request_key_id req,
          signature_b64url = b64url_encode signature\<rparr>)"
  by (rule azure_digest_exact)

text \<open>
  C15 The adapter fits the signing contract: for a receipt that can be prepared with an Azure key id,
  a command that answers the digest of the signing input with an in-range signature makes signing
  succeed, with the answer as the one new entry.
\<close>

theorem azure_signs_receipt:
  assumes "prepare_receipt_signature lib (PDict r) key role = Inr p" and "validate_azure_key_id lib key = Inr ()"
    and "runner signer = Some run"
    and "run (sign_arguments signer key (sha256 (map byte (signing_input p)))) =
      Inr (Some \<lparr>returncode = 0, process_stdout = Some out\<rparr>)"
    and "encodable out" and "length (utf8_bytes out) \<le> AZURE_MAX_RESPONSE_BYTES"
    and "answers_with out key signature" and "raw_signature_ok (b64url_encode signature)"
  shows "sign_receipt_with_external_digest_signer lib (azure_sign_digest lib signer) (PDict r) key role =
     Inr (attach_signature r (prepared_hash p) (signature_entry p
       \<lparr>result_algorithm = u ''ES256'', result_key = key, signature_b64url = b64url_encode signature\<rparr>))"
proof -
  let ?result = "\<lparr>result_algorithm = u ''ES256'', result_key = key, signature_b64url = b64url_encode signature\<rparr>"
  have p: "p = prepared_for key role (build_unsigned_receipt_payload r)"
    and sig: "signable lib key role (build_unsigned_receipt_payload r)"
    and ready: "signing_shape r" "\<not> has_signature_of key (signature_entries r)"
      "\<not> hash_conflicts r (text_digest (build_unsigned_receipt_payload r))"
    using assms(1) by (simp_all add: prepare_Inr)
  have req: "request_algorithm (request p) = u ''ES256''" "request_key_id (request p) = key"
    "digest_b64url (request p) = b64url_encode (sha256 (map byte (signing_input p)))"
    by (simp_all add: p prepared_for_def Let_def)
  have "azure_sign_digest lib signer (request p) = Inr ?result"
    unfolding azure_digest_exact req using assms(2-7) by (metis length_sha256 completed_process.select_convs)
  moreover have "finalize_receipt_signature lib (PDict r) p ?result =
      Inr (attach_signature r (prepared_hash p) (signature_entry p ?result))"
    using ready sig assms(8) by (simp add: finalize_Inr p)
  ultimately show ?thesis
    using assms(1) by (simp add: sign_receipt_with_external_digest_signer_def)
qed

section \<open>What can go wrong\<close>

lemma strict_decode_error: "b64url_decode_strict e1 e2 e3 s = Inl e \<Longrightarrow> e \<in> {e1, e2, e3}"
  by (auto simp: b64url_decode_strict_def urlsafe_b64decode_def a2b_base64_def encode_ascii_def
      dest!: a2b_loop_error split: if_splits sum.splits)

lemma urlparse_error: "urlparse lib url = Inl e \<Longrightarrow> e = ValueError"
  by (auto simp: urlparse_def Let_def split: prod.splits if_splits)

lemma port_error: "port p = Inl e \<Longrightarrow> e = ValueError"
  by (auto simp: port_def Let_def split: if_splits)

lemma validate_azure_error: "validate_azure_key_id lib key = Inl e \<Longrightarrow> e = azure_key_error"
  by (auto simp: validate_azure_key_id_def bindR_Inl_iff split: if_splits sum.splits prod.splits
      dest!: urlparse_error port_error)

lemma azure_decode_error: "azure_decode field s = Inl e \<Longrightarrow> \<exists>m. e = AzureCliSigningError m"
  by (auto simp: azure_decode_def Let_def dest: strict_decode_error)

lemma response_error: "parse_operation_result stdout key = Inl e \<Longrightarrow> \<exists>m. e = AzureCliSigningError m"
  by (auto simp: parse_operation_result_def check_response_size_def load_response_def response_signature_def
      azure_error_def Let_def bindR_Inl_iff dest: json_loads_error azure_decode_error
      split: option.splits if_splits sum.splits pyval.splits)

definition handled_run_error :: "exc \<Rightarrow> bool" where
  "handled_run_error e \<longleftrightarrow>
     is_OSError e \<or> e \<in> {TimeoutExpired, SubprocessError, UnicodeEncodeError, UnicodeDecodeError}"

lemma run_error_cases:
  "\<not> handled_run_error e \<and> run_error e = e \<or> (\<exists>m. run_error e = AzureCliSigningError m)"
  by (auto simp: run_error_def handled_run_error_def azure_error_def)

text \<open>
  The adapter fails closed: whatever is wrong with the request, the command or its answer, the
  exception is an \<open>AzureCliSigningError\<close>; only an exception of the runner that is neither an
  operating-system, a subprocess nor a Unicode error passes through.
\<close>

theorem azure_sign_digest_error:
  assumes "azure_sign_digest lib signer req = Inl e" and "runner signer = Some run"
  shows "(\<exists>m. e = AzureCliSigningError m) \<or>
     (\<exists>arguments. run arguments = Inl e \<and> \<not> handled_run_error e)"
proof -
  let ?key = "request_key_id req"
  consider "e = azure_error ''Azure CLI signer accepts only ES256''"
    | "validate_azure_key_id lib ?key = Inl e" | field where "azure_decode field (digest_b64url req) = Inl e"
    | "e = azure_error ''signing digest must contain exactly 32 bytes''"
    | arguments where "run_command (Some run) arguments = Inl e"
    | stdout where "parse_operation_result stdout ?key = Inl e"
    using assms by (auto simp: azure_sign_digest_def bindR_Inl_iff split: if_splits)
  then show ?thesis
  proof cases
    case (5 arguments)
    with run_error_cases show ?thesis
      by (auto simp: run_command_def azure_error_def split: sum.splits option.splits if_splits) metis+
  qed (auto simp: azure_error_def azure_key_error_def dest!: validate_azure_error azure_decode_error response_error)
qed

section \<open>The settings\<close>

text \<open>
  A signer can be built exactly with a command that is not blank, a callable runner, and a timeout
  whose real value is positive and at most 120 seconds; infinities, nan, booleans and integers that
  no float can hold are refused.
\<close>

theorem azure_settings_bounds:
  "azure_post_init signer = Inr s \<longleftrightarrow>
     s = signer \<and> strip (executable signer) \<noteq> [] \<and> runner signer \<noteq> None \<and>
     (\<exists>t. real_value (timeout_seconds signer) = Some t \<and> 0 < t \<and> t \<le> 120)"
proof -
  have "azure_post_init signer = Inr s \<longleftrightarrow>
     s = signer \<and> strip (executable signer) \<noteq> [] \<and> runner signer \<noteq> None \<and>
     float_in_range 120 (timeout_seconds signer) = Inr True"
    by (cases "timeout_seconds signer")
      (auto simp: azure_post_init_def bindR_Inr_iff float_in_range_def split: if_splits)
  then show ?thesis by (simp add: float_in_range_True small_float_limit)
qed

section \<open>A receipt signed through the adapter\<close>

definition azure_sample_key :: pystr where
  "azure_sample_key = u ''https://v.vault.azure.net/keys/n/1''"

definition azure_sample_answer :: pydict where
  "azure_sample_answer = [(u ''kid'', PStr azure_sample_key), (u ''value'', PStr (b64url_encode contract_raw))]"

definition azure_sample_run :: command_runner where
  "azure_sample_run arguments =
     Inr (Some \<lparr>returncode = 0, process_stdout = Some (json_encode (PDict azure_sample_answer))\<rparr>)"

definition azure_sample_signer :: azure_signer where
  "azure_sample_signer = \<lparr>executable = u ''az'', timeout_seconds = Integer 30, runner = Some azure_sample_run\<rparr>"

definition absent_command :: command_runner where
  "absent_command arguments = Inl FileNotFoundError"

lemma azure_sample_key_ok: "validate_azure_key_id lib azure_sample_key = Inr ()"
proof -
  have parts: "vault_host (u ''v.vault.azure.net'')" "key_part 127 (u ''n'')" "key_part 128 (u ''1'')"
    by (simp_all add: vault_host_def vault_label_def lower_alnum_def is_ascii_digit_def key_part_def is_alnum_def
        is_letter_def u_def)
  have "clean_url azure_sample_key = azure_sample_key" by (simp add: clean_url_def azure_sample_key_def u_def)
  moreover have "azure_sample_key = u ''https'' @ u ''://'' @ u ''v.vault.azure.net'' @ key_path (u ''n'') (u ''1'')"
    by (simp add: azure_sample_key_def key_path_def u_def)
  moreover have "ascii_lower (u ''https'') = u ''https''" by (simp add: https_text ascii_lower_def)
  ultimately have "urlparse lib azure_sample_key = Inr (plain_url (u ''v.vault.azure.net'') (key_path (u ''n'') (u ''1'')))"
    using urlparse_plain [OF vault_host_text [OF parts(1)], of _ lib azure_sample_key] key_path_text [OF parts(2,3)]
    unfolding key_path_head by (metis append_Nil2 mark_simps(1))
  with parts show ?thesis by (auto simp: validate_azure_plain)
qed

lemma length_json_str: "length (json_str s) \<le> 12 * length s + 2"
proof -
  have "length (json_escape c) \<le> 12" for c by (simp add: json_escape_def)
  then have "length (concat (map json_escape s)) \<le> 12 * length s" 
    by (induction s) (simp_all add: add_mono)
  then show ?thesis by (simp add: json_str_def)
qed

lemma length_utf8_upper: "length (utf8_bytes s) \<le> 4 * length s"
proof (induction s)
  case (Cons c s)
  have "length (utf8_char c) \<le> 4" by (simp add: utf8_char_def)
  with Cons show ?case by (simp add: utf8_bytes_def)
qed (simp add: utf8_bytes_def)

lemma azure_sample_out:
  "encodable (json_encode (PDict azure_sample_answer))"
  "length (utf8_bytes (json_encode (PDict azure_sample_answer))) \<le> AZURE_MAX_RESPONSE_BYTES"
  "answers_with (json_encode (PDict azure_sample_answer)) azure_sample_key contract_raw"
proof -
  show "encodable (json_encode (PDict azure_sample_answer))"
    by (rule json_encode_encodable)
      (simp add: azure_sample_answer_def azure_sample_key_def is_ascii_encodable is_ascii_b64url_encode)
  have "length (b64url_encode contract_raw) = 86" by (simp add: length_b64url_encode contract_raw_def)
  then have "length (json_encode (PDict azure_sample_answer)) \<le> 4000"
    using length_json_str [of azure_sample_key] length_json_str [of "b64url_encode contract_raw"]
      length_json_str [of "u ''kid''"] length_json_str [of "u ''value''"]
    by (simp add: azure_sample_answer_def azure_sample_key_def)
  with length_utf8_upper [of "json_encode (PDict azure_sample_answer)"]
  show "length (utf8_bytes (json_encode (PDict azure_sample_answer))) \<le> AZURE_MAX_RESPONSE_BYTES"
    unfolding AZURE_MAX_RESPONSE_BYTES_def by linarith
  have "json_loads (json_encode (PDict azure_sample_answer)) = Inr (PDict azure_sample_answer)"
    by (rule json.dec_enc) (simp add: azure_sample_answer_def)
  then show "answers_with (json_encode (PDict azure_sample_answer)) azure_sample_key contract_raw"
    by (simp add: answers_with_def azure_sample_answer_def contract_raw_def del: json_encode.simps)
qed

abbreviation azure_prepared :: prepared_signature where
  "azure_prepared \<equiv> prepared_for azure_sample_key (u ''approver'') (build_unsigned_receipt_payload unsigned_sample)"

theorem azure_signs_receipt_witness:
  "sign_receipt_with_external_digest_signer plain_urls (azure_sign_digest plain_urls azure_sample_signer)
     (PDict unsigned_sample) azure_sample_key (u ''approver'') =
   Inr (attach_signature unsigned_sample (prepared_hash azure_prepared) (signature_entry azure_prepared
     \<lparr>result_algorithm = u ''ES256'', result_key = azure_sample_key, signature_b64url = b64url_encode contract_raw\<rparr>))"
proof -
  have "signable plain_urls azure_sample_key (u ''approver'') (build_unsigned_receipt_payload unsigned_sample)"
    using unsigned_sample_signable azure_key_versioned [OF azure_sample_key_ok]
    by (simp add: signable_def azure_sample_key_def)
  then have "prepare_receipt_signature plain_urls (PDict unsigned_sample) azure_sample_key (u ''approver'') = Inr azure_prepared"
    by (simp add: prepare_Inr unsigned_sample_shape has_signature_of_def)
  then show ?thesis
    by (rule azure_signs_receipt [where run = azure_sample_run and out = "json_encode (PDict azure_sample_answer)"])
      (simp_all only: azure_sample_key_ok azure_sample_out contract_raw_ok azure_sample_signer_def azure_sample_run_def
        azure_signer.select_convs)
qed

theorem azure_sign_digest_error_witness:
  "azure_sign_digest plain_urls \<lparr>executable = u ''az'', timeout_seconds = Integer 30, runner = Some absent_command\<rparr>
     (request azure_prepared) = Inl (azure_error ''Azure CLI executable was not found'') \<and>
   ((\<exists>m. azure_error ''Azure CLI executable was not found'' = AzureCliSigningError m) \<or>
     (\<exists>arguments. absent_command arguments = Inl (azure_error ''Azure CLI executable was not found'') \<and>
        \<not> handled_run_error (azure_error ''Azure CLI executable was not found'')))"
proof -
  let ?signer = "\<lparr>executable = u ''az'', timeout_seconds = Integer 30, runner = Some absent_command\<rparr>"
  have "azure_decode ''signing digest'' (b64url_encode (sha256 b)) = Inr (sha256 b)" for b
    by (simp add: azure_decode_Inr sha256_not_Nil)
  then have e: "azure_sign_digest plain_urls ?signer (request azure_prepared) =
      Inl (azure_error ''Azure CLI executable was not found'')"
    by (simp add: azure_sign_digest_def prepared_for_def Let_def azure_sample_key_ok run_command_def absent_command_def
        run_error_def)
  with azure_sign_digest_error [OF e] show ?thesis by simp
qed

end
