(* ===== verification/Voice_Events.thy ===== *)
theory Voice_Events
  imports Json Base64 Py_Text
begin

text \<open>
  \<open>src/sentinel_core/xai_voice.py\<close>, the events of the voice protocol: parsing one frame of the
  websocket, the text that may reach a terminal, and the collector that turns the events of one
  response into a \<open>VoiceResponse\<close>. A method of the collector changes it also when it raises, so
  \<open>consume\<close> returns the new state beside its result.
\<close>

definition protocol_error :: "string \<Rightarrow> exc" where
  "protocol_error m = XaiVoiceProtocolError [Txt m]"

definition config_error_of :: "string \<Rightarrow> exc" where
  "config_error_of m = XaiVoiceConfigurationError [Txt m]"

section \<open>Constants and ranges\<close>

definition ALLOWED_SAMPLE_RATES :: "int list" where
  "ALLOWED_SAMPLE_RATES = [8000, 16000, 22050, 24000, 32000, 44100, 48000]"

definition TRANSCRIPT_DELTA_EVENT_TYPES :: "string list" where
  "TRANSCRIPT_DELTA_EVENT_TYPES =
     [''response.output_audio_transcript.delta'', ''response.text.delta'', ''response.output_text.delta'']"

definition AUDIO_DELTA_EVENT_TYPES :: "string list" where
  "AUDIO_DELTA_EVENT_TYPES = [''response.output_audio.delta'', ''response.audio.delta'']"

definition one_of :: "string list \<Rightarrow> pystr \<Rightarrow> bool" where
  "one_of names s \<longleftrightarrow> s \<in> u ` set names"

text \<open>A limit is an integer in its range; the value may be anything, a boolean is refused.\<close>

definition validate_int_range :: "pyval \<Rightarrow> string \<Rightarrow> int \<Rightarrow> int \<Rightarrow> exc + unit" where
  "validate_int_range v field lo hi =
     (if (case v of PInt i \<Rightarrow> lo \<le> i \<and> i \<le> hi | _ \<Rightarrow> False) then Inr ()
      else Inl (XaiVoiceConfigurationError
        [Txt field, Txt '' must be an integer from '', Num lo, Txt '' to '', Num hi]))"

text \<open>\<open>[A-Za-z0-9._:-]{1,256}\<close>, the shape of response and conversation ids.\<close>

definition remote_id_char :: "nat \<Rightarrow> bool" where
  "remote_id_char c \<longleftrightarrow> is_alnum c \<or> c = 46 \<or> c = 95 \<or> c = 58 \<or> c = 45"

definition remote_id :: "pystr \<Rightarrow> bool" where
  "remote_id s \<longleftrightarrow> s \<noteq> [] \<and> length s \<le> 256 \<and> list_all remote_id_char s"

section \<open>Parsing a frame\<close>

datatype frame = TextFrame pystr | BinaryFrame bytes | OtherFrame

fun has_duplicate :: "pystr list \<Rightarrow> bool" where
  "has_duplicate [] = False"
| "has_duplicate (k # ks) = (k \<in> set ks \<or> has_duplicate ks)"

definition reject_duplicate_object_pairs :: pairs_hook where
  "reject_duplicate_object_pairs pairs =
     (if has_duplicate (map fst pairs) then Inl (protocol_error ''server event contains duplicate JSON keys'')
      else Inr (PDict pairs))"

definition frame_text :: "frame \<Rightarrow> exc + (nat \<times> pystr)" where
  "frame_text raw =
     (case raw of
        TextFrame s \<Rightarrow> bindR (encode_utf8 s) (\<lambda>b. Inr (length b, s))
      | BinaryFrame b \<Rightarrow>
          (case decode_utf8 b of
             Inl _ \<Rightarrow> Inl (protocol_error ''server event is not valid UTF-8'')
           | Inr s \<Rightarrow> Inr (length b, s))
      | OtherFrame \<Rightarrow> Inl (protocol_error ''server event must be text or bytes''))"

definition load_event :: "pystr \<Rightarrow> exc + pyval" where
  "load_event s =
     (case json_loads_hook reject_duplicate_object_pairs s of
        Inr v \<Rightarrow> Inr v
      | Inl e \<Rightarrow>
          if is_ValueError e \<or> e = TypeError then Inl (protocol_error ''server event is not valid JSON'') else Inl e)"

definition typed_event :: "pyval \<Rightarrow> exc + pydict" where
  "typed_event v =
     (case v of
        PDict event \<Rightarrow>
          (case dget event (u ''type'') of
             PStr t \<Rightarrow> if t = [] then Inl (protocol_error ''server event is missing type'') else Inr event
           | _ \<Rightarrow> Inl (protocol_error ''server event is missing type''))
      | _ \<Rightarrow> Inl (protocol_error ''server event must be a JSON object''))"

definition parse_server_event :: "frame \<Rightarrow> pyval \<Rightarrow> exc + pydict" where
  "parse_server_event raw max_event_bytes =
     bindR (validate_int_range max_event_bytes ''max_event_bytes'' 1024 (16 * 1024 * 1024)) (\<lambda>_.
     bindR (frame_text raw) (\<lambda>(size, text).
     if (case max_event_bytes of PInt limit \<Rightarrow> limit < int size | _ \<Rightarrow> True)
     then Inl (protocol_error ''server event exceeded the configured size limit'')
     else bindR (load_event text) typed_event))"

section \<open>Text of the remote side\<close>

definition terminal_char :: "nat \<Rightarrow> bool" where
  "terminal_char c \<longleftrightarrow> c = 10 \<or> c = 13 \<or> c = 9 \<or> 32 \<le> c \<and> \<not> (127 \<le> c \<and> c \<le> 159)"

definition safe_terminal_text :: "pystr \<Rightarrow> pystr" where
  "safe_terminal_text s = filter terminal_char s"

text \<open>\<open>s.split()\<close>: the runs of characters that are not white space.\<close>

function words :: "pystr \<Rightarrow> pystr list" where
  "words s =
     (case lstrip s of
        [] \<Rightarrow> []
      | c # t \<Rightarrow> takeWhile (\<lambda>x. \<not> is_space x) (c # t) # words (dropWhile (\<lambda>x. \<not> is_space x) (c # t)))"
  by pat_completeness auto
termination
proof (relation "measure length")
  fix s c t assume l: "lstrip s = c # t"
  then have "\<not> is_space c" using hd_dropWhile [of is_space s] by (auto simp: lstrip_def)
  then have "length (dropWhile (\<lambda>x. \<not> is_space x) (c # t)) \<le> length t"
    by (simp add: length_dropWhile_le)
  moreover have "length (c # t) \<le> length s" using length_dropWhile_le [of is_space s] l by (simp add: lstrip_def)
  ultimately show "(dropWhile (\<lambda>x. \<not> is_space x) (c # t), s) \<in> measure length" by simp
qed simp

declare words.simps [simp del]

definition safe_remote_field :: "pyval \<Rightarrow> nat \<Rightarrow> pystr option" where
  "safe_remote_field v max_length =
     (case v of
        PStr s \<Rightarrow>
          (let cleaned = take max_length (join [32] (words (safe_terminal_text s)))
           in if cleaned = [] then None else Some cleaned)
      | _ \<Rightarrow> None)"

definition field_part :: "string \<Rightarrow> pystr option \<Rightarrow> msg" where
  "field_part name v = (case v of None \<Rightarrow> [] | Some s \<Rightarrow> [Txt ''; '', Txt name, Txt ''='', Str s])"

definition remote_error :: "pydict \<Rightarrow> exc" where
  "remote_error event =
     (case dget event (u ''error'') of
        PDict err \<Rightarrow> XaiVoiceRemoteError (Txt ''xAI returned an error'' #
          field_part ''code'' (safe_remote_field (dget err (u ''code'')) 80) @
          field_part ''message'' (safe_remote_field (dget err (u ''message'')) 300))
      | _ \<Rightarrow> XaiVoiceRemoteError [Txt ''xAI returned an unspecified error''])"

text \<open>
  \<open>None\<close> for an event of another type. Two fields that are both there must be equal; a value that is
  no string is refused in any case, so how two of those compare only picks the message, and here
  they compare as written.
\<close>

definition validated_transcript_delta :: "pydict \<Rightarrow> exc + pystr option" where
  "validated_transcript_delta event =
     (case dget event (u ''type'') of
        PStr t \<Rightarrow>
          if \<not> one_of TRANSCRIPT_DELTA_EVENT_TYPES t then Inr None
          else
            let delta = dget event (u ''delta''); text = dget event (u ''text'') in
            if delta \<noteq> PNone \<and> text \<noteq> PNone \<and> delta \<noteq> text
            then Inl (protocol_error ''transcript event contains conflicting delta and text fields'')
            else (case (if delta \<noteq> PNone then delta else text) of
                PStr s \<Rightarrow> Inr (Some s)
              | _ \<Rightarrow> Inl (protocol_error ''transcript delta must be a string''))
      | _ \<Rightarrow> Inr None)"

section \<open>The collector\<close>

record voice_response =
  voice_response_id :: pystr
  transcript :: pystr
  pcm_audio :: bytes
  voice_sample_rate :: int
  voice_status :: "pystr option"
  audio_done_seen :: bool
  event_types :: "pystr list"

record collector =
  sample_rate :: int
  max_audio_bytes :: int
  max_transcript_bytes :: int
  max_response_events :: int
  active_id :: "pystr option"
  transcript_parts :: "pystr list"
  audio_parts :: "bytes list"
  audio_bytes :: nat
  transcript_bytes :: nat
  event_count :: nat
  done_seen :: bool
  seen_types :: "pystr list"

text \<open>\<open>__post_init__\<close>; the fields that are not arguments start empty.\<close>

definition new_collector :: "int \<Rightarrow> int \<Rightarrow> int \<Rightarrow> int \<Rightarrow> collector" where
  "new_collector rate audio text events =
     \<lparr>sample_rate = rate, max_audio_bytes = audio, max_transcript_bytes = text, max_response_events = events,
      active_id = None, transcript_parts = [], audio_parts = [], audio_bytes = 0, transcript_bytes = 0,
      event_count = 0, done_seen = False, seen_types = []\<rparr>"

definition make_collector :: "int \<Rightarrow> int \<Rightarrow> int \<Rightarrow> int \<Rightarrow> exc + collector" where
  "make_collector rate audio text events =
     (if rate \<notin> set ALLOWED_SAMPLE_RATES then Inl (config_error_of ''collector sample_rate is unsupported'')
      else
        bindR (validate_int_range (PInt audio) ''max_audio_bytes'' 1024 (512 * 1024 * 1024)) (\<lambda>_.
        bindR (validate_int_range (PInt text) ''max_transcript_bytes'' 1024 (16 * 1024 * 1024)) (\<lambda>_.
        bindR (validate_int_range (PInt events) ''max_response_events'' 100 100000) (\<lambda>_.
        Inr (new_collector rate audio text events)))))"

definition reset :: "collector \<Rightarrow> collector" where
  "reset c = c\<lparr>active_id := None, transcript_parts := [], audio_parts := [], audio_bytes := 0,
     transcript_bytes := 0, event_count := 0, done_seen := False, seen_types := []\<rparr>"

definition require_active_response :: "collector \<Rightarrow> pystr \<Rightarrow> exc + pystr" where
  "require_active_response c t =
     (case active_id c of
        None \<Rightarrow> Inl (XaiVoiceProtocolError [Str t, Txt '' arrived without an active response''])
      | Some i \<Rightarrow> Inr i)"

text \<open>The steps of \<open>consume\<close>, one per kind of event.\<close>

definition created_response_id :: "collector \<Rightarrow> pydict \<Rightarrow> exc + pystr" where
  "created_response_id c event =
     (if active_id c \<noteq> None
      then Inl (protocol_error ''received response.created while another response is active'')
      else (case dget event (u ''response'') of
          PDict response \<Rightarrow>
            (case dget response (u ''id'') of
               PStr i \<Rightarrow>
                 if i = [] then Inl (protocol_error ''response.created is missing a response id'')
                 else if remote_id i then Inr i
                 else Inl (protocol_error ''response.created contains an invalid response id'')
             | _ \<Rightarrow> Inl (protocol_error ''response.created is missing a response id''))
        | _ \<Rightarrow> Inl (protocol_error ''response.created is missing response metadata'')))"

definition add_transcript :: "collector \<Rightarrow> pystr \<Rightarrow> pystr \<Rightarrow> exc + collector" where
  "add_transcript c t delta =
     bindR (require_active_response c t) (\<lambda>_.
     bindR (encode_utf8 delta) (\<lambda>b.
     let new_size = transcript_bytes c + length b in
     if max_transcript_bytes c < int new_size
     then Inl (protocol_error ''response transcript exceeded the configured size limit'')
     else Inr (c\<lparr>transcript_parts := transcript_parts c @ [delta], transcript_bytes := new_size\<rparr>)))"

text \<open>\<open>base64.b64decode(delta, validate=True)\<close>, then the checks on the chunk.\<close>

definition decode_audio :: "pystr \<Rightarrow> exc + bytes" where
  "decode_audio delta =
     (case bindR (encode_ascii delta) (a2b_base64 True) of
        Inl e \<Rightarrow>
          if is_ValueError e \<or> e = TypeError then Inl (protocol_error ''audio delta is not canonical base64'') else Inl e
      | Inr chunk \<Rightarrow>
          if chunk = [] then Inl (protocol_error ''audio delta decoded to an empty chunk'')
          else if b64encode chunk \<noteq> delta then Inl (protocol_error ''audio delta is not canonical base64'')
          else Inr chunk)"

definition add_audio :: "collector \<Rightarrow> pystr \<Rightarrow> pydict \<Rightarrow> exc + collector" where
  "add_audio c t event =
     bindR (require_active_response c t) (\<lambda>_.
     case dget event (u ''delta'') of
       PStr delta \<Rightarrow>
         if delta = [] then Inl (protocol_error ''audio delta must be non-empty base64 text'')
         else
           bindR (decode_audio delta) (\<lambda>chunk.
           let new_size = audio_bytes c + length chunk in
           if max_audio_bytes c < int new_size
           then Inl (protocol_error ''response audio exceeded the configured size limit'')
           else Inr (c\<lparr>audio_parts := audio_parts c @ [chunk], audio_bytes := new_size\<rparr>))
     | _ \<Rightarrow> Inl (protocol_error ''audio delta must be non-empty base64 text''))"

definition done_status :: "pydict \<Rightarrow> exc + pystr option" where
  "done_status event =
     (case dget event (u ''response'') of
        PDict response \<Rightarrow>
          (case dget response (u ''status'') of
             PNone \<Rightarrow> Inr None
           | PStr s \<Rightarrow> Inr (Some s)
           | _ \<Rightarrow> Inl (protocol_error ''response.done status must be a string or null''))
      | _ \<Rightarrow> Inr None)"

definition complete_response :: "collector \<Rightarrow> pystr \<Rightarrow> pydict \<Rightarrow> exc + voice_response" where
  "complete_response c t event =
     bindR (require_active_response c t) (\<lambda>i.
     bindR (done_status event) (\<lambda>st.
     let audio = concat (audio_parts c) in
     if odd (length audio) then Inl (protocol_error ''completed PCM16 audio has an odd byte count'')
     else Inr \<lparr>voice_response_id = i, transcript = concat (transcript_parts c), pcm_audio = audio,
       voice_sample_rate = sample_rate c, voice_status = st, audio_done_seen = done_seen c,
       event_types = seen_types c\<rparr>))"

text \<open>An update that may raise leaves the state it started from.\<close>

definition keep_on_error ::
    "collector \<Rightarrow> exc + collector \<Rightarrow> collector \<times> (exc + voice_response option)" where
  "keep_on_error c r = (case r of Inl e \<Rightarrow> (c, Inl e) | Inr c' \<Rightarrow> (c', Inr None))"

definition consume_counted :: "collector \<Rightarrow> pystr \<Rightarrow> pydict \<Rightarrow> collector \<times> (exc + voice_response option)" where
  "consume_counted c t event =
     (if t = u ''response.created''
      then keep_on_error c (bindR (created_response_id c event) (\<lambda>i. Inr (c\<lparr>active_id := Some i\<rparr>)))
      else (case validated_transcript_delta event of
          Inl e \<Rightarrow> (c, Inl e)
        | Inr (Some delta) \<Rightarrow> keep_on_error c (add_transcript c t delta)
        | Inr None \<Rightarrow>
            if one_of AUDIO_DELTA_EVENT_TYPES t then keep_on_error c (add_audio c t event)
            else if t = u ''response.output_audio.done''
            then keep_on_error c (bindR (require_active_response c t) (\<lambda>_. Inr (c\<lparr>done_seen := True\<rparr>)))
            else if t = u ''response.done'' then
              (case complete_response c t event of
                 Inl e \<Rightarrow> (c, Inl e)
               | Inr completed \<Rightarrow> (reset c, Inr (Some completed)))
            else (c, Inr None)))"

definition consume :: "collector \<Rightarrow> pydict \<Rightarrow> collector \<times> (exc + voice_response option)" where
  "consume c event =
     (case dget event (u ''type'') of
        PStr t \<Rightarrow>
          if t = [] then (c, Inl (protocol_error ''event.type must be a non-empty string''))
          else
            let counted = c\<lparr>event_count := event_count c + 1\<rparr> in
            if max_response_events c < int (event_count counted)
            then (counted, Inl (protocol_error ''response exceeded the configured event-count limit''))
            else consume_counted (counted\<lparr>seen_types := seen_types c @ [t]\<rparr>) t event
      | _ \<Rightarrow> (c, Inl (protocol_error ''event.type must be a non-empty string'')))"

end
