(* ===== verification/Voice_Client.thy ===== *)
theory Voice_Client
  imports Voice_Config
begin

text \<open>
  \<open>src/sentinel_core/xai_voice.py\<close>, \<open>XaiVoiceClient\<close>: opening and configuring the websocket, one turn,
  and closing. Every operation takes the client and the log of what happened on the wire, and returns
  both with its result. The other side is a parameter: what opening, sending and receiving do is a
  function of the log so far, so it can be any server and any network. \<open>ConnectionClosed\<close> and the
  other exceptions of the websocket library are among the values it may return.

  Waiting for \<open>session.updated\<close> may go on forever, so it is a partial function; a turn is not, because
  the collector counts every event it is given.
\<close>

section \<open>The wire\<close>

datatype wire =
    Opened pystr
  | Refused pystr
  | Sent pystr
  | Unsent pystr
  | Received "exc + frame"
  | Closed
  | Shown pystr

type_synonym wire_log = "wire list"

record net =
  installed :: bool
  opens :: "wire_log \<Rightarrow> exc option"
  sends :: "wire_log \<Rightarrow> exc option"
  receives :: "wire_log \<Rightarrow> exc + frame"

text \<open>The sink for live text may raise, too.\<close>

record client =
  settings :: voice_config
  client_agent :: "pystr option"
  allow_agent :: bool
  sink :: "(pystr \<Rightarrow> exc option) option"
  conversation :: "pystr option"
  connected :: bool
  session_ready :: bool

section \<open>Construction and closing\<close>

definition make_client ::
    "pystr \<Rightarrow> voice_config \<Rightarrow> pystr option \<Rightarrow> bool \<Rightarrow> (pystr \<Rightarrow> exc option) option \<Rightarrow> exc + client" where
  "make_client api_key config agent allow transcript_sink =
     bindR (validate_api_key api_key) (\<lambda>_.
     bindR (websocket_url config None agent allow) (\<lambda>_.
     Inr \<lparr>settings = config, client_agent = agent, allow_agent = allow, sink = transcript_sink,
       conversation = None, connected = False, session_ready = False\<rparr>))"

text \<open>Errors of the closing handshake are dropped.\<close>

definition close :: "client \<Rightarrow> wire_log \<Rightarrow> client \<times> wire_log" where
  "close s w =
     (s\<lparr>connected := False, session_ready := False\<rparr>, if connected s then w @ [Closed] else w)"

definition fail_closed :: "client \<Rightarrow> wire_log \<Rightarrow> client \<times> wire_log" where
  "fail_closed s w = close (s\<lparr>conversation := None\<rparr>) w"

section \<open>Sending and receiving\<close>

definition limit_value :: "pyval \<Rightarrow> int" where
  "limit_value v = (case v of PInt i \<Rightarrow> i | _ \<Rightarrow> 0)"

definition send_event :: "net \<Rightarrow> client \<Rightarrow> wire_log \<Rightarrow> pydict \<Rightarrow> wire_log \<times> (exc + unit)" where
  "send_event n s w event =
     (if \<not> connected s then (w, Inl (protocol_error ''WebSocket is not connected''))
      else
        let payload = json_encode (PDict event) in
        (case encode_utf8 payload of
           Inl e \<Rightarrow> (w, Inl e)
         | Inr b \<Rightarrow>
             if limit_value (event_limit (settings s)) < int (length b)
             then (w, Inl (protocol_error ''outbound event exceeded the configured size limit''))
             else (case sends n w of
                 Some e \<Rightarrow> (w @ [Unsent payload], Inl e)
               | None \<Rightarrow> (w @ [Sent payload], Inr ()))))"

definition receive_event :: "net \<Rightarrow> client \<Rightarrow> wire_log \<Rightarrow> client \<times> wire_log \<times> (exc + pydict)" where
  "receive_event n s w =
     (if \<not> connected s then (s, w, Inl (protocol_error ''WebSocket is not connected''))
      else
        let got = receives n w; w' = w @ [Received got] in
        (case got of
           Inl e \<Rightarrow>
             if e = TimeoutError then
               (let (s', w'') = close s w'
                in (s', w'', Inl (protocol_error ''timed out while waiting for a server event'')))
             else (s, w', Inl e)
         | Inr raw \<Rightarrow> (s, w', parse_server_event raw (event_limit (settings s)))))"

definition capture_conversation_id :: "client \<Rightarrow> pydict \<Rightarrow> exc + client" where
  "capture_conversation_id s event =
     (if dget event (u ''type'') \<noteq> PStr (u ''conversation.created'') then Inr s
      else (case dget event (u ''conversation'') of
          PDict conv \<Rightarrow>
            (case dget conv (u ''id'') of
               PStr i \<Rightarrow>
                 if \<not> remote_id i then Inl (protocol_error ''conversation id has an invalid format'')
                 else if truthy (resumption_enabled (settings s)) then Inr (s\<lparr>conversation := Some i\<rparr>)
                 else Inr s
             | _ \<Rightarrow> Inl (protocol_error ''conversation.created is missing conversation id''))
        | _ \<Rightarrow> Inl (protocol_error ''conversation.created is missing conversation metadata'')))"

section \<open>Connecting\<close>

partial_function (option) wait_for_session_ready ::
    "net \<Rightarrow> client \<Rightarrow> wire_log \<Rightarrow> (client \<times> wire_log \<times> (exc + unit)) option" where
  "wait_for_session_ready n s w =
     (case receive_event n s w of
        (s1, w1, Inl e) \<Rightarrow> Some (s1, w1, Inl e)
      | (s1, w1, Inr event) \<Rightarrow>
          (case capture_conversation_id s1 event of
             Inl e \<Rightarrow> Some (s1, w1, Inl e)
           | Inr s2 \<Rightarrow>
               if dget event (u ''type'') = PStr (u ''error'') then Some (s2, w1, Inl (remote_error event))
               else if dget event (u ''type'') = PStr (u ''session.updated'')
               then Some (s2\<lparr>session_ready := True\<rparr>, w1, Inr ())
               else wait_for_session_ready n s2 w1))"

text \<open>What happens inside the \<open>try\<close> of \<open>connect\<close>.\<close>

definition open_session :: "unicode_lib \<Rightarrow> net \<Rightarrow> client \<Rightarrow> wire_log \<Rightarrow> pystr \<Rightarrow> (client \<times> wire_log \<times> (exc + unit)) option" where
  "open_session lib n s w url =
     (case opens n w of
        Some e \<Rightarrow> Some (s, w @ [Refused url], Inl e)
      | None \<Rightarrow>
          let s1 = s\<lparr>connected := True\<rparr>; w1 = w @ [Opened url] in
          (case session_update_event lib (settings s) of
             Inl e \<Rightarrow> Some (s1, w1, Inl e)
           | Inr event \<Rightarrow>
               (case send_event n s1 w1 event of
                  (w2, Inl e) \<Rightarrow> Some (s1, w2, Inl e)
                | (w2, Inr _) \<Rightarrow> wait_for_session_ready n s1 w2)))"

definition connect :: "unicode_lib \<Rightarrow> net \<Rightarrow> client \<Rightarrow> wire_log \<Rightarrow> (client \<times> wire_log \<times> (exc + unit)) option" where
  "connect lib n s w =
     (if connected s then Some (s, w, Inr ())
      else if \<not> installed n
      then Some (s, w, Inl (config_error_of ''Install the voice extra with: python -m pip install -e .[voice]''))
      else (case websocket_url (settings s) (conversation s) (client_agent s) (allow_agent s) of
          Inl e \<Rightarrow> Some (s, w, Inl e)
        | Inr url \<Rightarrow>
            (case open_session lib n s w url of
               None \<Rightarrow> None
             | Some (s1, w1, Inr _) \<Rightarrow> Some (s1, w1, Inr ())
             | Some (s1, w1, Inl e) \<Rightarrow>
                 (let (s2, w2) = fail_closed s1 w1 in Some (s2, w2, Inl e)))))"

section \<open>One turn\<close>

definition completion_error :: "voice_response \<Rightarrow> exc option" where
  "completion_error r =
     (case voice_status r of
        None \<Rightarrow> None
      | Some st \<Rightarrow>
          if st = u ''completed'' then None
          else Some (XaiVoiceRemoteError [Txt ''xAI response ended without completion; status='',
            Str (case safe_remote_field (PStr st) 80 of None \<Rightarrow> u ''unknown'' | Some t \<Rightarrow> t)]))"

definition show_delta :: "client \<Rightarrow> wire_log \<Rightarrow> pystr option \<Rightarrow> wire_log \<times> (exc + unit)" where
  "show_delta s w delta =
     (case (delta, sink s) of
        (Some d, Some f) \<Rightarrow>
          (case f d of None \<Rightarrow> (w @ [Shown d], Inr ()) | Some e \<Rightarrow> (w, Inl e))
      | _ \<Rightarrow> (w, Inr ()))"

text \<open>What the loop does with one event: the client and the collector after it, and the response if it
  is complete.\<close>

definition turn_event ::
    "client \<Rightarrow> wire_log \<Rightarrow> collector \<Rightarrow> pydict \<Rightarrow> client \<times> wire_log \<times> (exc + collector \<times> voice_response option)" where
  "turn_event s w c event =
     (case capture_conversation_id s event of
        Inl e \<Rightarrow> (s, w, Inl e)
      | Inr s1 \<Rightarrow>
          if dget event (u ''type'') = PStr (u ''error'') then (s1, w, Inl (remote_error event))
          else (case consume c event of
              (c', Inl e) \<Rightarrow> (s1, w, Inl e)
            | (c', Inr completed) \<Rightarrow>
                (case validated_transcript_delta event of
                   Inl e \<Rightarrow> (s1, w, Inl e)
                 | Inr delta \<Rightarrow>
                     (case show_delta s1 w delta of
                        (w1, Inl e) \<Rightarrow> (s1, w1, Inl e)
                      | (w1, Inr _) \<Rightarrow>
                          (case Option.bind completed completion_error of
                             Some e \<Rightarrow> (s1, w1, Inl e)
                           | None \<Rightarrow> (s1, w1, Inr (c', completed)))))))"

lemma turn_event_counts:
  assumes "turn_event s w c event = (s', w', Inr (c', None))"
  shows "event_count c' = event_count c + 1 \<and> int (event_count c') \<le> max_response_events c \<and>
    max_response_events c' = max_response_events c"
proof -
  from assms have "consume c event = (c', Inr None)"
    by (auto simp: turn_event_def split: sum.splits prod.splits if_splits option.splits)
  then show ?thesis
    by (auto simp: consume_def consume_counted_def keep_on_error_def add_transcript_def add_audio_def bindR_Inr_iff
        Let_def split: pyval.splits if_splits sum.splits option.splits)
qed

function receive_response ::
    "net \<Rightarrow> client \<Rightarrow> wire_log \<Rightarrow> collector \<Rightarrow> client \<times> wire_log \<times> (exc + voice_response)" where
  "receive_response n s w c =
     (case receive_event n s w of
        (s1, w1, Inl e) \<Rightarrow> (s1, w1, Inl e)
      | (s1, w1, Inr event) \<Rightarrow>
          (case turn_event s1 w1 c event of
             (s2, w2, Inl e) \<Rightarrow> (s2, w2, Inl e)
           | (s2, w2, Inr (c', Some r)) \<Rightarrow> (s2, w2, Inr r)
           | (s2, w2, Inr (c', None)) \<Rightarrow> receive_response n s2 w2 c'))"
  by pat_completeness auto
termination
  by (relation "measure (\<lambda>(_, _, _, c). nat (max_response_events c + 1 - int (event_count c)))")
    (auto dest: turn_event_counts [OF sym])

declare receive_response.simps [simp del]

definition deliver_turn :: "net \<Rightarrow> client \<Rightarrow> wire_log \<Rightarrow> pydict \<Rightarrow> pydict \<Rightarrow> wire_log \<times> (exc + unit)" where
  "deliver_turn n s w user_event response_event =
     (case send_event n s w user_event of
        (w1, Inl e) \<Rightarrow> (w1, Inl e)
      | (w1, Inr _) \<Rightarrow> send_event n s w1 response_event)"

definition collect_turn :: "net \<Rightarrow> client \<Rightarrow> wire_log \<Rightarrow> client \<times> wire_log \<times> (exc + voice_response)" where
  "collect_turn n s w =
     (case make_collector (session_rate (settings s)) (limit_value (audio_limit (settings s)))
         (limit_value (transcript_limit (settings s))) (limit_value (response_event_limit (settings s))) of
        Inl e \<Rightarrow> (s, w, Inl e)
      | Inr c \<Rightarrow>
          (case receive_response n s w c of
             (s1, w1, Inr r) \<Rightarrow> (s1, w1, Inr r)
           | (s1, w1, Inl e) \<Rightarrow> (let (s2, w2) = fail_closed s1 w1 in (s2, w2, Inl e))))"

text \<open>A turn on an open session.\<close>

definition ready_turn :: "net \<Rightarrow> client \<Rightarrow> wire_log \<Rightarrow> pystr \<Rightarrow> client \<times> wire_log \<times> (exc + voice_response)" where
  "ready_turn n s w prompt =
     (case build_user_turn_events prompt of
        Inl e \<Rightarrow> (s, w, Inl e)
      | Inr (user_event, response_event) \<Rightarrow>
          (case deliver_turn n s w user_event response_event of
             (w1, Inl e) \<Rightarrow>
               (let (s2, w2) = fail_closed s w1 in
                (s2, w2, Inl (protocol_error
                  ''turn delivery became ambiguous; the client closed without automatic replay'')))
           | (w1, Inr _) \<Rightarrow> collect_turn n s w1))"

definition run_turn ::
    "unicode_lib \<Rightarrow> net \<Rightarrow> client \<Rightarrow> wire_log \<Rightarrow> pystr \<Rightarrow> (client \<times> wire_log \<times> (exc + voice_response)) option" where
  "run_turn lib n s w prompt =
     (if \<not> connected s \<or> \<not> session_ready s then
        (case connect lib n s w of
           None \<Rightarrow> None
         | Some (s1, w1, Inl e) \<Rightarrow> Some (s1, w1, Inl e)
         | Some (s1, w1, Inr _) \<Rightarrow> Some (ready_turn n s1 w1 prompt))
      else Some (ready_turn n s w prompt))"

end
