(* ===== verification/Json_Pretty.thy ===== *)
theory Json_Pretty
  imports Json_Text
begin

text \<open>
  \<open>json.dumps(value, indent=2)\<close>, with \<open>ensure_ascii\<close> or without: the writer of a string is a parameter
  of the layout. Whatever the writer, if the scanner reads back what it writes, \<open>json.loads\<close> reads back
  the whole text.
\<close>

section \<open>Layout\<close>

definition new_line :: "nat \<Rightarrow> pystr" where
  "new_line level = 10 # replicate (2 * level) 32"

fun json_pretty :: "(pystr \<Rightarrow> pystr) \<Rightarrow> nat \<Rightarrow> pyval \<Rightarrow> pystr" where
  "json_pretty wr level (PList []) = [91, 93]"
| "json_pretty wr level (PList (x # xs)) =
     [91] @ new_line (Suc level) @
     join (44 # new_line (Suc level)) (map (json_pretty wr (Suc level)) (x # xs)) @ new_line level @ [93]"
| "json_pretty wr level (PDict []) = [123, 125]"
| "json_pretty wr level (PDict (x # d)) =
     [123] @ new_line (Suc level) @
     join (44 # new_line (Suc level))
       (map (\<lambda>p. wr (fst p) @ [58, 32] @ json_pretty wr (Suc level) (snd p)) (x # d)) @ new_line level @ [125]"
| "json_pretty wr level (PStr s) = wr s"
| "json_pretty wr level v = json_encode v"

section \<open>Strings in ASCII\<close>

text \<open>\<open>ensure_ascii=True\<close>: a character outside the printable ASCII range is its UTF-16 code in hexadecimal.\<close>

definition hex_quad :: "nat \<Rightarrow> pystr" where
  "hex_quad n = [92, 117, hex_digit (n div 4096), hex_digit (n div 256 mod 16), hex_digit (n div 16 mod 16), hex_digit (n mod 16)]"

definition json_escape_ascii :: "nat \<Rightarrow> pystr" where
  "json_escape_ascii c =
     (if c = 34 then [92, 34] else if c = 92 then [92, 92]
      else if c = 10 then [92, 110] else if c = 13 then [92, 114] else if c = 9 then [92, 116]
      else if c = 12 then [92, 102] else if c = 8 then [92, 98]
      else if 32 \<le> c \<and> c \<le> 126 then [c]
      else if c < 65536 then hex_quad c
      else hex_quad (55296 + (c - 65536) div 1024) @ hex_quad (56320 + (c - 65536) mod 1024))"

definition json_str_ascii :: "pystr \<Rightarrow> pystr" where
  "json_str_ascii s = [34] @ concat (map json_escape_ascii s) @ [34]"

section \<open>Characters of the text\<close>

fun texts_fit :: "(pystr \<Rightarrow> bool) \<Rightarrow> pyval \<Rightarrow> bool" where
  "texts_fit fits (PStr s) = fits s"
| "texts_fit fits (PList xs) = (\<forall>x \<in> set xs. texts_fit fits x)"
| "texts_fit fits (PDict d) = (\<forall>p \<in> set d. fits (fst p) \<and> texts_fit fits (snd p))"
| "texts_fit fits _ = True"

lemma new_line_ends [simp]: "ends (new_line l @ s)"
  by (simp add: new_line_def)

lemma skip_new_line [simp]: "skip_ws (new_line l @ s) = skip_ws s"
proof -
  have "skip_ws (replicate n 32 @ s) = skip_ws s" for n by (induction n) (simp_all add: is_ws_def)
  then show ?thesis by (simp add: new_line_def is_ws_def)
qed

lemma length_new_line [simp]: "length (new_line l) = Suc (2 * l)"
  by (simp add: new_line_def)

lemma new_line_encodable: "encodable (new_line level)"
  by (auto simp: new_line_def encodable_def is_scalar_small)

lemma json_pretty_encodable: "texts_encodable v \<Longrightarrow> encodable (json_pretty json_str level v)"
proof (induction json_str level v rule: json_pretty.induct)
  case (2 level x xs)
  then have "encodable (join (44 # new_line (Suc level)) (map (json_pretty json_str (Suc level)) (x # xs)))"
    by (intro encodable_join) (auto simp: encodable_Cons is_scalar_small new_line_encodable)
  then show ?case by (simp add: encodable_Cons is_scalar_small new_line_encodable)
next
  case (4 level x d)
  have "encodable (json_pretty json_str (Suc level) (snd p))" if "p \<in> set (x # d)" for p
  proof -
    have "texts_encodable (snd p)" using "4.prems" that by auto
    with that show ?thesis by (rule "4.hyps")
  qed
  moreover have "encodable (json_str (fst p))" if "p \<in> set (x # d)" for p
    using "4.prems" that by (auto intro: json_str_encodable)
  ultimately have "encodable (json_str (fst p) @ [58, 32] @ json_pretty json_str (Suc level) (snd p))" if "p \<in> set (x # d)" for p
    using that by (simp add: encodable_Cons is_scalar_small)
  then have "encodable (join (44 # new_line (Suc level))
      (map (\<lambda>p. json_str (fst p) @ [58, 32] @ json_pretty json_str (Suc level) (snd p)) (x # d)))"
    by (intro encodable_join, simp add: encodable_Cons is_scalar_small new_line_encodable)
      (unfold set_map, erule imageE, simp only:)
  then show ?case by (simp add: encodable_Cons is_scalar_small new_line_encodable)
qed (simp_all add: json_str_encodable int_repr_encodable encodable_Cons is_scalar_small)

section \<open>Reading back\<close>

text \<open>A writer of strings, and the strings it is for.\<close>

locale json_writer =
  fixes wr :: "pystr \<Rightarrow> pystr"
    and fits :: "pystr \<Rightarrow> bool"
  assumes wr_quote: "take 1 (wr s) = [34]"
    and wr_scan: "fits s \<Longrightarrow> scan_string (drop 1 (wr s) @ r) = Inr (s, r)"
begin

lemma wr_Cons: obtains t where "wr s = 34 # t" "\<And>r. fits s \<Longrightarrow> scan_string (t @ r) = Inr (s, r)"
  using wr_quote [of s] wr_scan [of s] by (cases "wr s") auto

lemma skip_wr [simp]: "skip_ws (wr s @ r) = wr s @ r"
  by (rule wr_Cons [of s]) (simp add: is_ws_def)

lemma pretty_start:
  assumes "json_ok v"
  shows "\<exists>c s. json_pretty wr level v = c # s \<and> value_start c"
proof (cases "(\<exists>s. v = PStr s) \<or> (\<exists>xs. v = PList xs) \<or> (\<exists>d. v = PDict d)")
  case True
  then consider s where "v = PStr s" | xs where "v = PList xs" | d where "v = PDict d" by blast
  then show ?thesis
  proof cases
    case (1 s)
    then show ?thesis by (cases rule: wr_Cons [of s]) (simp add: value_start_def is_ws_def)
  next
    case (2 xs)
    then show ?thesis by (cases xs) (simp_all add: value_start_def is_ws_def)
  next
    case (3 d)
    then show ?thesis by (cases d) (simp_all add: value_start_def is_ws_def)
  qed
next
  case False
  then have "json_pretty wr level v = json_encode v" by (cases v) auto
  with json_encode_start [OF assms] show ?thesis by simp
qed

lemma skip_pretty [simp]: "json_ok v \<Longrightarrow> skip_ws (json_pretty wr level v @ r) = json_pretty wr level v @ r"
  using pretty_start [of v level] by (auto simp: value_start_def)

end

locale pretty_reader = object_pairs + json_writer
begin

abbreviation item :: "nat \<Rightarrow> pystr \<times> pyval \<Rightarrow> pystr" where
  "item l p \<equiv> wr (fst p) @ [58, 32] @ json_pretty wr l (snd p)"

definition pretty_back :: "nat \<Rightarrow> pyval \<Rightarrow> bool" where
  "pretty_back l v \<longleftrightarrow> (\<forall>r n. ends r \<longrightarrow> 2 * length (json_pretty wr l v) < n \<longrightarrow>
     scan_once hook n (json_pretty wr l v @ r) = Inr (v, r))"

lemma pretty_backD:
  "pretty_back l v \<Longrightarrow> ends r \<Longrightarrow> 2 * length (json_pretty wr l v) < n \<Longrightarrow>
     scan_once hook n (json_pretty wr l v @ r) = Inr (v, r)"
  by (simp add: pretty_back_def)

lemma pretty_back_array:
  "xs \<noteq> [] \<Longrightarrow> \<forall>x \<in> set xs. json_ok x \<and> pretty_back l x \<Longrightarrow>
     2 * length (join (44 # new_line l) (map (json_pretty wr l) xs)) + 1 < n \<Longrightarrow>
     scan_array hook n (join (44 # new_line l) (map (json_pretty wr l) xs) @ new_line k @ 93 # r) = Inr (xs, r)"
proof (induction xs arbitrary: n)
  case (Cons x xs)
  from Cons.prems(3) obtain m where n: "n = Suc m" by (cases n) auto
  show ?case
  proof (cases "xs = []")
    case True
    then show ?thesis using Cons.prems by (simp add: n pretty_backD is_ws_def)
  next
    case False
    then obtain y ys where ys: "xs = y # ys" by (cases xs) auto
    let ?rest = "join (44 # new_line l) (map (json_pretty wr l) xs)"
    let ?r = "new_line k @ 93 # r"
    have skip: "skip_ws (?rest @ ?r) = ?rest @ ?r" using Cons.prems(2) by (simp add: ys join_Cons)
    have "scan_once hook m (json_pretty wr l x @ 44 # new_line l @ ?rest @ ?r) = Inr (x, 44 # new_line l @ ?rest @ ?r)"
      using Cons.prems(2,3) False by (intro pretty_backD) (auto simp: n join_Cons)
    moreover have "scan_array hook m (?rest @ ?r) = Inr (xs, r)"
      using Cons.prems(2,3) False by (intro Cons.IH) (auto simp: n join_Cons)
    ultimately show ?thesis using False skip by (simp add: n join_Cons is_ws_def)
  qed
qed simp

lemma pretty_back_object:
  "d \<noteq> [] \<Longrightarrow> \<forall>p \<in> set d. fits (fst p) \<and> json_ok (snd p) \<and> pretty_back l (snd p) \<Longrightarrow>
     2 * length (join (44 # new_line l) (map (item l) d)) < n \<Longrightarrow>
     scan_object hook n (join (44 # new_line l) (map (item l) d) @ new_line k @ 125 # r) = Inr (d, r)"
proof (induction d arbitrary: n)
  case (Cons p d)
  obtain s v where p: "p = (s, v)" by (cases p)
  from Cons.prems(3) obtain m where n: "n = Suc m" by (cases n) auto
  obtain t where t: "wr s = 34 # t" "\<And>r. fits s \<Longrightarrow> scan_string (t @ r) = Inr (s, r)" by (rule wr_Cons [of s]) blast
  have s: "fits s" "json_ok v" using Cons.prems(2) by (simp_all add: p)
  let ?r = "new_line k @ 125 # r"
  show ?case
  proof (cases "d = []")
    case True
    have "scan_once hook m (json_pretty wr l v @ ?r) = Inr (v, ?r)"
      using Cons.prems(2,3) True by (intro pretty_backD) (auto simp: n p)
    then show ?thesis using True s t by (simp add: n p is_ws_def)
  next
    case False
    then obtain q e where qe: "d = q # e" by (cases d) auto
    let ?rest = "join (44 # new_line l) (map (item l) d)"
    have skip: "skip_ws (?rest @ ?r) = ?rest @ ?r" by (simp add: qe join_Cons)
    have "scan_once hook m (json_pretty wr l v @ 44 # new_line l @ ?rest @ ?r) = Inr (v, 44 # new_line l @ ?rest @ ?r)"
      using Cons.prems(2,3) False by (intro pretty_backD) (auto simp: n p join_Cons)
    moreover have "scan_object hook m (?rest @ ?r) = Inr (d, r)"
      using Cons.prems(2,3) False by (intro Cons.IH) (auto simp: n join_Cons)
    ultimately show ?thesis using False skip s t by (simp add: n p join_Cons is_ws_def)
  qed
qed simp

lemma pretty_back_scalar:
  assumes "json_ok v" and "\<forall>s. v \<noteq> PStr s" and "\<forall>xs. v \<noteq> PList xs" and "\<forall>d. v \<noteq> PDict d"
  shows "pretty_back l v"
proof -
  have "json_pretty wr l v = json_encode v" using assms(2-4) by (cases v) auto
  with reads_back_scalar [OF assms] show ?thesis by (simp add: pretty_back_def reads_back_def)
qed

lemma pretty_reads_back: "json_ok v \<Longrightarrow> texts_fit fits v \<Longrightarrow> pretty_back l v"
proof (induction v arbitrary: l)
  case (PStr s)
  obtain t where t: "wr s = 34 # t" "\<And>r. fits s \<Longrightarrow> scan_string (t @ r) = Inr (s, r)" by (rule wr_Cons [of s]) blast
  show ?case unfolding pretty_back_def
  proof (intro allI impI)
    fix r and n :: nat
    assume "2 * length (json_pretty wr l (PStr s)) < n"
    then obtain m where "n = Suc m" by (cases n) auto
    with t PStr show "scan_once hook n (json_pretty wr l (PStr s) @ r) = Inr (PStr s, r)" by simp
  qed
next
  case (PList xs)
  show ?case unfolding pretty_back_def
  proof (intro allI impI)
    fix r and n :: nat
    assume n: "2 * length (json_pretty wr l (PList xs)) < n"
    then obtain m where m: "n = Suc m" by (cases n) auto
    show "scan_once hook n (json_pretty wr l (PList xs) @ r) = Inr (PList xs, r)"
    proof (cases xs)
      case Nil
      then show ?thesis by (simp add: m is_ws_def)
    next
      case (Cons y ys)
      from PList.prems Cons pretty_start [of y "Suc l"] obtain c s where
        c: "json_pretty wr (Suc l) y = c # s" "value_start c" by auto
      have "scan_array hook m (join (44 # new_line (Suc l)) (map (json_pretty wr (Suc l)) xs) @ new_line l @ 93 # r) = Inr (xs, r)"
        using PList n Cons by (intro pretty_back_array) (auto simp: m)
      with c show ?thesis by (simp add: m Cons join_Cons value_start_def)
    qed
  qed
next
  case (PDict d)
  show ?case unfolding pretty_back_def
  proof (intro allI impI)
    fix r and n :: nat
    assume n: "2 * length (json_pretty wr l (PDict d)) < n"
    then obtain m where m: "n = Suc m" by (cases n) auto
    show "scan_once hook n (json_pretty wr l (PDict d) @ r) = Inr (PDict d, r)"
    proof (cases d)
      case Nil
      then show ?thesis by (simp add: m is_ws_def hook_distinct)
    next
      case (Cons q e)
      have "\<forall>p \<in> set d. fits (fst p) \<and> json_ok (snd p) \<and> pretty_back (Suc l) (snd p)"
      proof
        fix p assume p: "p \<in> set d"
        then have "fits (fst p)" "json_ok (snd p)" "texts_fit fits (snd p)" using PDict.prems by simp_all
        moreover have "snd p \<in> Basic_BNFs.snds p" by (simp add: Basic_BNFs.snds.intros prod_set_defs)
        ultimately show "fits (fst p) \<and> json_ok (snd p) \<and> pretty_back (Suc l) (snd p)" using PDict.IH p by blast
      qed
      then have "scan_object hook m (join (44 # new_line (Suc l)) (map (item (Suc l)) d) @ new_line l @ 125 # r) = Inr (d, r)"
        using n Cons by (intro pretty_back_object) (auto simp: m)
      moreover have "hook d = Inr (PDict d)" using PDict.prems by (simp add: hook_distinct)
      moreover have "\<exists>t. wr (fst q) = 34 # t" by (rule wr_Cons [of "fst q"]) blast
      ultimately show ?thesis
        by (auto simp: m Cons join_Cons is_ws_def)
    qed
  qed
qed (rule pretty_back_scalar; simp)+

text \<open>The text may end with a line end.\<close>

lemma loads_pretty:
  assumes "json_ok v" and "texts_fit fits v" and "r = [] \<or> r = [10]"
  shows "json_loads_hook hook (json_pretty wr l v @ r) = Inr v"
proof -
  from pretty_start [OF assms(1)] obtain c s where c: "json_pretty wr l v = c # s" "value_start c" by blast
  have "scan_once hook (2 * length (json_pretty wr l v @ r) + 1) (json_pretty wr l v @ r) = Inr (v, r)"
    using assms(3) by (intro pretty_backD [OF pretty_reads_back [OF assms(1,2)]]) auto
  moreover have "skip_ws r = []" using assms(3) by (auto simp: is_ws_def)
  ultimately show ?thesis
    using skip_pretty [OF assms(1), of l r] c
    by (simp add: json_loads_hook_def value_start_def del: scan_once.simps skip_pretty)
qed

end

section \<open>The two writers\<close>

interpretation plain_pretty: pretty_reader default_hook json_str "\<lambda>_. True"
  by unfold_locales (simp_all add: json_str_def scan_string_json)

text \<open>In ASCII a high surrogate could join the next character when it is read; the strings it is used
  for have none.\<close>

definition no_high_surrogate :: "pystr \<Rightarrow> bool" where
  "no_high_surrogate s \<longleftrightarrow> (\<forall>c \<in> set s. c < 1114112 \<and> \<not> (55296 \<le> c \<and> c < 56320))"

lemma hex4_quad: "n < 65536 \<Longrightarrow> hex4 (drop 2 (hex_quad n) @ s) = Some (n, s)"
proof -
  assume n: "n < 65536"
  then have "n div 4096 < 16" by (simp add: less_mult_imp_div_less)
  moreover have "((n div 4096 * 16 + n div 256 mod 16) * 16 + n div 16 mod 16) * 16 + n mod 16 = n"
  proof -
    have "n div 256 div 16 = n div 4096" "n div 16 div 16 = n div 256" by (simp_all add: div_mult2_eq [symmetric])
    then have "n div 4096 * 16 + n div 256 mod 16 = n div 256" "n div 256 * 16 + n div 16 mod 16 = n div 16"
      by (metis div_mult_mod_eq)+
    then show ?thesis by simp
  qed
  ultimately show ?thesis by (simp add: hex_quad_def)
qed

lemma hex_quad_Cons: "hex_quad n = 92 # 117 # drop 2 (hex_quad n)"
  by (simp add: hex_quad_def)

lemma unescape_quad:
  "n < 65536 \<Longrightarrow> \<not> (55296 \<le> n \<and> n < 56320) \<Longrightarrow> unescape (117 # drop 2 (hex_quad n) @ s) = Some (n, s)"
  by (auto simp: hex4_quad)

lemma unescape_pair:
  assumes "65536 \<le> c" and "c < 1114112"
  shows "unescape (117 # drop 2 (hex_quad (55296 + (c - 65536) div 1024)) @ hex_quad (56320 + (c - 65536) mod 1024) @ s) = Some (c, s)"
proof -
  let ?h = "55296 + (c - 65536) div 1024" and ?l = "56320 + (c - 65536) mod 1024"
  have "(c - 65536) div 1024 < 1024" using assms by (simp add: less_mult_imp_div_less)
  moreover have "(c - 65536) mod 1024 < 1024" by simp
  moreover have "65536 + (c - 65536) div 1024 * 1024 + (c - 65536) mod 1024 = c" using assms(1) by simp
  moreover have "hex4 (drop 2 (hex_quad ?h) @ hex_quad ?l @ s) = Some (?h, hex_quad ?l @ s)"
    using calculation(1) by (intro hex4_quad) simp
  moreover have "hex4 (drop 2 (hex_quad ?l) @ s) = Some (?l, s)" using calculation(2) by (intro hex4_quad) simp
  moreover have "take 2 (hex_quad ?l @ s) = [92, 117]" "drop 2 (hex_quad ?l @ s) = drop 2 (hex_quad ?l) @ s"
    by (simp_all add: hex_quad_def)
  ultimately show ?thesis by simp
qed

lemma scan_string_escape_ascii:
  assumes "c < 1114112" and "\<not> (55296 \<le> c \<and> c < 56320)"
  shows "scan_string (json_escape_ascii c @ s) = bindR (scan_string s) (\<lambda>(t, r). Inr (c # t, r))"
proof -
  consider "c \<in> {8, 9, 10, 12, 13, 34, 92} \<or> 32 \<le> c \<and> c \<le> 126"
    | (quad) "c \<notin> {8, 9, 10, 12, 13, 34, 92}" "\<not> (32 \<le> c \<and> c \<le> 126)" "c < 65536"
    | (pair) "65536 \<le> c"
    by (cases "c < 65536") auto
  then show ?thesis
  proof cases
    case 1
    then show ?thesis by (auto simp: json_escape_ascii_def simple_escape_def)
  next
    case quad
    then have "json_escape_ascii c = 92 # 117 # drop 2 (hex_quad c)"
      using hex_quad_Cons [of c] by (auto simp: json_escape_ascii_def)
    with unescape_quad [OF quad(3) assms(2)] show ?thesis by (simp del: unescape.simps)
  next
    case pair
    let ?h = "55296 + (c - 65536) div 1024" and ?l = "56320 + (c - 65536) mod 1024"
    have "json_escape_ascii c = 92 # 117 # drop 2 (hex_quad ?h) @ hex_quad ?l"
      using pair hex_quad_Cons [of ?h] by (simp add: json_escape_ascii_def)
    with unescape_pair [OF pair assms(1)] show ?thesis by (simp del: unescape.simps)
  qed
qed

lemma scan_string_ascii:
  "no_high_surrogate s \<Longrightarrow> scan_string (concat (map json_escape_ascii s) @ 34 # r) = Inr (s, r)"
  by (induction s) (simp_all add: scan_string_escape_ascii no_high_surrogate_def)

interpretation ascii_pretty: pretty_reader default_hook json_str_ascii no_high_surrogate
  by unfold_locales (simp_all add: json_str_ascii_def scan_string_ascii)

end
