(* ===== verification/Py_Files.thy ===== *)
theory Py_Files
  imports Prelude
begin

text \<open>
  Operations on one directory that may fail: state passing with exceptions, the system calls the voice
  client makes, and a small calculus of pre- and postconditions for normal and exceptional ended.

  Every call is recorded, and an oracle decides from the record whether it fails, so a fault may hit any
  call. A call that fails has no effect, except a write, which may leave a prefix, and a removal that
  fails with \<open>FileNotFoundError\<close>, after which there is no such file. Other processes do not interfere.
\<close>

section \<open>The directory\<close>

text \<open>A plain file has its content and permission bits; a symbolic link may dangle.\<close>

datatype node = Plain bytes nat | Folder | Symlink bool

datatype syscall =
    LookFolder | MakeFolder | ModeFolder | Look pystr | MakeTemp pystr | Mode pystr | WriteTo pystr
  | LinkTo pystr | Remove pystr

record disk =
  folder :: "node option"
  entries :: "pystr \<Rightarrow> node option"
  calls :: "syscall list"

text \<open>The oracle sees the record with the current call at its head. It also chooses the random part of
  temporary names and how much of a failed write arrives.\<close>

record os =
  fails :: "syscall list \<Rightarrow> exc option"
  suffix :: "syscall list \<Rightarrow> pystr"
  written :: "syscall list \<Rightarrow> nat"

section \<open>Operations with exceptions\<close>

type_synonym 'a io = "disk \<Rightarrow> disk \<times> (exc + 'a)"

definition returnIO :: "'a \<Rightarrow> 'a io" where
  "returnIO x = (\<lambda>d. (d, Inr x))"

definition raiseIO :: "exc \<Rightarrow> 'a io" where
  "raiseIO e = (\<lambda>d. (d, Inl e))"

definition bindIO :: "'a io \<Rightarrow> ('a \<Rightarrow> 'b io) \<Rightarrow> 'b io" where
  "bindIO m f = (\<lambda>d. case m d of (d', Inl e) \<Rightarrow> (d', Inl e) | (d', Inr x) \<Rightarrow> f x d')"

text \<open>\<open>try: m except: h\<close> and \<open>try: m finally: f\<close>\<close>

definition catchIO :: "'a io \<Rightarrow> (exc \<Rightarrow> 'a io) \<Rightarrow> 'a io" where
  "catchIO m h = (\<lambda>d. case m d of (d', Inl e) \<Rightarrow> h e d' | (d', Inr x) \<Rightarrow> (d', Inr x))"

definition finallyIO :: "'a io \<Rightarrow> unit io \<Rightarrow> 'a io" where
  "finallyIO m f = (\<lambda>d. case m d of (d1, r) \<Rightarrow>
     (case f d1 of (d2, Inl e) \<Rightarrow> (d2, Inl e) | (d2, Inr _) \<Rightarrow> (d2, r)))"

definition liftIO :: "exc + 'a \<Rightarrow> 'a io" where
  "liftIO r = (\<lambda>d. (d, r))"

lemma bindIO_cong [fundef_cong]:
  assumes "m d = m' d" and "\<And>d' x. m' d = (d', Inr x) \<Longrightarrow> f x d' = f' x d'"
  shows "bindIO m f d = bindIO m' f' d"
  using assms by (auto simp: bindIO_def split: prod.split sum.split)

section \<open>System calls\<close>

definition syscall :: "os \<Rightarrow> syscall \<Rightarrow> unit io" where
  "syscall os c = (\<lambda>d.
     let d' = d\<lparr>calls := c # calls d\<rparr>
     in (d', case fails os (calls d') of None \<Rightarrow> Inr () | Some e \<Rightarrow> Inl e))"

definition set_entry :: "pystr \<Rightarrow> node option \<Rightarrow> unit io" where
  "set_entry name x = (\<lambda>d. (d\<lparr>entries := (entries d)(name := x)\<rparr>, Inr ()))"

text \<open>\<open>path.exists() or path.is_symlink()\<close>\<close>

definition occupied :: "os \<Rightarrow> pystr \<Rightarrow> bool io" where
  "occupied os name = bindIO (syscall os (Look name)) (\<lambda>_ d. (d, Inr (entries d name \<noteq> None)))"

text \<open>\<open>tempfile.mkstemp\<close>: the file is created by this call, empty and private, or the call fails.\<close>

definition mkstemp :: "os \<Rightarrow> pystr \<Rightarrow> pystr io" where
  "mkstemp os prefix =
     bindIO (syscall os (MakeTemp prefix)) (\<lambda>_ d.
       let name = prefix @ suffix os (calls d) in
       if entries d name \<noteq> None then (d, Inl (FileExistsError [Txt ''No usable temporary file name found'']))
       else bindIO (set_entry name (Some (Plain [] 384))) (\<lambda>_. returnIO name) d)"

definition chmod :: "os \<Rightarrow> pystr \<Rightarrow> nat \<Rightarrow> unit io" where
  "chmod os name mode =
     bindIO (syscall os (Mode name)) (\<lambda>_ d.
       case entries d name of
         Some (Plain b _) \<Rightarrow> set_entry name (Some (Plain b mode)) d
       | _ \<Rightarrow> (d, Inr ()))"

definition write_file :: "os \<Rightarrow> pystr \<Rightarrow> bytes \<Rightarrow> unit io" where
  "write_file os name b = (\<lambda>d.
     case syscall os (WriteTo name) d of
       (d', r) \<Rightarrow>
         (case entries d' name of
            Some (Plain _ mode) \<Rightarrow>
              let content = (case r of Inr _ \<Rightarrow> b | Inl _ \<Rightarrow> take (written os (calls d')) b)
              in (d'\<lparr>entries := (entries d')(name := Some (Plain content mode))\<rparr>, r)
          | _ \<Rightarrow> (d', r)))"

text \<open>\<open>os.link\<close> never replaces a file.\<close>

definition link_file :: "os \<Rightarrow> pystr \<Rightarrow> pystr \<Rightarrow> unit io" where
  "link_file os source target =
     bindIO (syscall os (LinkTo target)) (\<lambda>_ d.
       if entries d target \<noteq> None then (d, Inl (FileExistsError []))
       else set_entry target (entries d source) d)"

text \<open>\<open>path.unlink(missing_ok=True)\<close>\<close>

definition unlink :: "os \<Rightarrow> pystr \<Rightarrow> unit io" where
  "unlink os name = (\<lambda>d.
     case syscall os (Remove name) d of
       (d', Inl e) \<Rightarrow> if e = FileNotFoundError then set_entry name None d' else (d', Inl e)
     | (d', Inr _) \<Rightarrow> set_entry name None d')"

section \<open>Pre- and postconditions\<close>

fun ended :: "('a \<Rightarrow> disk \<Rightarrow> bool) \<Rightarrow> (exc \<Rightarrow> disk \<Rightarrow> bool) \<Rightarrow> disk \<times> (exc + 'a) \<Rightarrow> bool" where
  "ended Q E (d, Inr x) = Q x d"
| "ended Q E (d, Inl e) = E e d"

definition triple :: "(disk \<Rightarrow> bool) \<Rightarrow> 'a io \<Rightarrow> ('a \<Rightarrow> disk \<Rightarrow> bool) \<Rightarrow> (exc \<Rightarrow> disk \<Rightarrow> bool) \<Rightarrow> bool" where
  "triple P m Q E \<longleftrightarrow> (\<forall>d. P d \<longrightarrow> ended Q E (m d))"

lemma io_cases:
  obtains (raises) d' e where "m d = (d', Inl e)" | (returns) d' x where "m d = (d', Inr x)"
  by (metis sum.exhaust surj_pair)

lemma tripleI: "(\<And>d. P d \<Longrightarrow> ended Q E (m d)) \<Longrightarrow> triple P m Q E"
  by (simp add: triple_def)

lemma tripleD: "triple P m Q E \<Longrightarrow> P d \<Longrightarrow> ended Q E (m d)"
  by (simp add: triple_def)

lemma ended_mono: "ended Q E r \<Longrightarrow> (\<And>x d. Q x d \<Longrightarrow> Q' x d) \<Longrightarrow> (\<And>e d. E e d \<Longrightarrow> E' e d) \<Longrightarrow> ended Q' E' r"
  by (cases "(Q, E, r)" rule: ended.cases) simp_all

lemma triple_conseq:
  assumes "triple P m Q E" and "\<And>d. P' d \<Longrightarrow> P d" and "\<And>x d. Q x d \<Longrightarrow> Q' x d" and "\<And>e d. E e d \<Longrightarrow> E' e d"
  shows "triple P' m Q' E'"
  by (rule tripleI) (rule ended_mono [OF tripleD [OF assms(1) assms(2)] assms(3,4)])

lemma triple_return: "triple (Q x) (returnIO x) Q E"
  by (simp add: triple_def returnIO_def)

lemma triple_raise: "triple (E e) (raiseIO e) Q E"
  by (simp add: triple_def raiseIO_def)

lemma triple_lift: "(\<And>x. r = Inr x \<Longrightarrow> triple P (f x) Q E) \<Longrightarrow> (\<And>e d. r = Inl e \<Longrightarrow> P d \<Longrightarrow> E e d) \<Longrightarrow>
    triple P (bindIO (liftIO r) f) Q E"
  by (cases r) (simp_all add: triple_def liftIO_def bindIO_def)

lemma triple_bind:
  assumes "triple P m R E" and "\<And>x. triple (R x) (f x) Q E"
  shows "triple P (bindIO m f) Q E"
proof (rule tripleI)
  fix d assume "P d"
  then have "ended R E (m d)" using assms(1) by (rule tripleD [rotated])
  then show "ended Q E (bindIO m f d)"
    by (cases rule: io_cases [of m d]) (simp_all add: bindIO_def tripleD [OF assms(2)])
qed

lemma triple_catch:
  assumes "triple P m Q R" and "\<And>e. triple (R e) (h e) Q E"
  shows "triple P (catchIO m h) Q E"
proof (rule tripleI)
  fix d assume "P d"
  then have "ended Q R (m d)" using assms(1) by (rule tripleD [rotated])
  then show "ended Q E (catchIO m h d)"
    by (cases rule: io_cases [of m d]) (simp_all add: catchIO_def tripleD [OF assms(2)])
qed

lemma triple_finally:
  assumes "triple P m R S" and "\<And>x. triple (R x) f (\<lambda>_. Q x) E" and "\<And>e. triple (S e) f (\<lambda>_. E e) E"
  shows "triple P (finallyIO m f) Q E"
proof (rule tripleI)
  fix d assume "P d"
  then have ended: "ended R S (m d)" using assms(1) by (rule tripleD [rotated])
  show "ended Q E (finallyIO m f d)"
  proof (cases rule: io_cases [of m d])
    case (raises d1 e)
    with ended have "ended (\<lambda>_. E e) E (f d1)" using tripleD [OF assms(3)] by simp
    then show ?thesis
      by (cases rule: io_cases [of f d1]) (simp_all add: finallyIO_def raises)
  next
    case (returns d1 x)
    with ended have "ended (\<lambda>_. Q x) E (f d1)" using tripleD [OF assms(2)] by simp
    then show ?thesis
      by (cases rule: io_cases [of f d1]) (simp_all add: finallyIO_def returns)
  qed
qed

text \<open>What the operations do to the entries.\<close>

abbreviation dir_is :: "(pystr \<Rightarrow> node option) \<Rightarrow> disk \<Rightarrow> bool" where
  "dir_is m d \<equiv> entries d = m"

lemma triple_syscall: "triple (dir_is m) (syscall os c) (\<lambda>_. dir_is m) (\<lambda>e d. dir_is m d \<and> (\<exists>h. fails os (c # h) = Some e))"
  by (rule tripleI) (auto simp: syscall_def Let_def split: option.split)

lemma triple_after_call:
  assumes "\<And>d :: disk. entries d = m \<Longrightarrow> ended Q E (f () d)" and "\<And>e h d. fails os (c # h) = Some e \<Longrightarrow> entries d = m \<Longrightarrow> E e d"
  shows "triple (dir_is m) (bindIO (syscall os c) f) Q E"
proof (rule triple_bind)
  show "triple (dir_is m) (syscall os c) (\<lambda>_. dir_is m) E"
    by (rule triple_conseq [OF triple_syscall]) (auto intro: assms(2))
  show "triple (dir_is m) (f x) Q E" for x :: unit using assms(1) by (intro tripleI) simp
qed

lemma triple_occupied:
  "triple (dir_is m) (occupied os name) (\<lambda>b d. dir_is m d \<and> (b \<longleftrightarrow> m name \<noteq> None)) (\<lambda>_. dir_is m)"
  unfolding occupied_def by (rule triple_after_call) simp_all

lemma triple_mkstemp:
  "triple (dir_is m) (mkstemp os prefix)
     (\<lambda>name d. (\<exists>t. name = prefix @ t) \<and> m name = None \<and> dir_is (m(name \<mapsto> Plain [] 384)) d) (\<lambda>_. dir_is m)"
  unfolding mkstemp_def
  by (rule triple_after_call) (simp_all add: Let_def bindIO_def set_entry_def returnIO_def)

lemma triple_chmod:
  assumes "m name = Some (Plain b k)"
  shows "triple (dir_is m) (chmod os name mode) (\<lambda>_. dir_is (m(name \<mapsto> Plain b mode)))
     (\<lambda>e d. dir_is m d \<and> (\<exists>h. fails os (Mode name # h) = Some e))"
  unfolding chmod_def by (rule triple_after_call) (auto simp: assms set_entry_def)

lemma triple_link:
  assumes "m target = None"
  shows "triple (dir_is m) (link_file os source target) (\<lambda>_. dir_is (m(target := m source))) (\<lambda>_. dir_is m)"
  unfolding link_file_def by (rule triple_after_call) (simp_all add: assms set_entry_def)

lemma triple_write:
  assumes "m name = Some (Plain b0 mode)"
  shows "triple (dir_is m) (write_file os name b) (\<lambda>_. dir_is (m(name \<mapsto> Plain b mode)))
     (\<lambda>_ d. \<exists>k. dir_is (m(name \<mapsto> Plain (take k b) mode)) d)"
  by (rule tripleI) (auto simp: write_file_def syscall_def Let_def assms split: option.split)

lemma triple_unlink:
  "triple (dir_is m) (unlink os name) (\<lambda>_. dir_is (m(name := None)))
     (\<lambda>e d. dir_is m d \<and> e \<noteq> FileNotFoundError \<and> (\<exists>h. fails os (Remove name # h) = Some e))"
  by (rule tripleI) (auto simp: unlink_def syscall_def Let_def set_entry_def split: option.split)

end
