(* ===== verification/Voice_Files.thy ===== *)
theory Voice_Files
  imports Voice_Config Hashchain Json_Pretty Py_Files
begin

text \<open>
  \<open>src/sentinel_core/xai_voice.py\<close>, persisting a response: the artifact names, the manifest, and the
  files, written without ever replacing one. The output directory is explicit state; every system call
  may fail, as an oracle decides from the calls made so far. A call that fails has no effect, except a
  write, which may leave a prefix.
\<close>

section \<open>Names\<close>

definition safe_file_char :: "nat \<Rightarrow> bool" where
  "safe_file_char c \<longleftrightarrow> is_alnum c \<or> c \<in> {46, 95, 45}"

text \<open>\<open>re.sub("[^A-Za-z0-9._-]+", "_", value)\<close>\<close>

fun sub_unsafe :: "bool \<Rightarrow> pystr \<Rightarrow> pystr" where
  "sub_unsafe in_run [] = []"
| "sub_unsafe in_run (c # s) =
     (if safe_file_char c then c # sub_unsafe False s
      else if in_run then sub_unsafe True s else 95 # sub_unsafe True s)"

definition strip_chars :: "nat set \<Rightarrow> pystr \<Rightarrow> pystr" where
  "strip_chars A s = rev (dropWhile (\<lambda>c. c \<in> A) (rev (dropWhile (\<lambda>c. c \<in> A) s)))"

definition safe_file_component :: "pystr \<Rightarrow> pystr" where
  "safe_file_component s =
     (let cleaned = strip_chars {46, 95, 45} (sub_unsafe False s)
      in take 120 (if cleaned = [] then u ''unknown'' else cleaned))"

definition artifact_name :: "voice_response \<Rightarrow> string \<Rightarrow> pystr" where
  "artifact_name r ending = u ''response_'' @ safe_file_component (voice_response_id r) @ u ending"

section \<open>Durations\<close>

text \<open>
  \<open>round(n / d, 6)\<close> and its \<open>repr\<close>. The quotient of two integers is the nearest double, \<open>m * 2 ^ e\<close>
  with 53 bits, ties to even; rounding to six places is again exact with ties to even. Below 10 ^ 15
  millionths the shortest text that denotes the resulting double is the decimal itself.
\<close>

fun bit_length :: "nat \<Rightarrow> nat" where
  "bit_length n = (if n = 0 then 0 else Suc (bit_length (n div 2)))"

declare bit_length.simps [simp del]

definition round_half_even :: "nat \<Rightarrow> nat \<Rightarrow> nat" where
  "round_half_even n d =
     (let q = n div d; r = n mod d in if 2 * r < d \<or> 2 * r = d \<and> even q then q else q + 1)"

text \<open>\<open>round_half_even (n / (d * 2 ^ e))\<close>\<close>

definition scaled_quotient :: "nat \<Rightarrow> nat \<Rightarrow> int \<Rightarrow> nat" where
  "scaled_quotient n d e =
     (if 0 \<le> e then round_half_even n (d * 2 ^ nat e) else round_half_even (n * 2 ^ nat (- e)) d)"

definition double_quotient :: "nat \<Rightarrow> nat \<Rightarrow> nat \<times> int" where
  "double_quotient n d =
     (let e = int (bit_length n) - int (bit_length d) - 52;
          small = (if 0 \<le> e then n < d * 2 ^ nat e * 2 ^ 52 else n * 2 ^ nat (- e) < d * 2 ^ 52);
          e' = (if small then e - 1 else e)
      in (scaled_quotient n d e', e'))"

definition millionths :: "nat \<times> int \<Rightarrow> nat" where
  "millionths x = (case x of (m, e) \<Rightarrow>
     if 0 \<le> e then m * 2 ^ nat e * 1000000 else round_half_even (m * 1000000) (2 ^ nat (- e)))"

definition strip_zeros :: "pystr \<Rightarrow> pystr" where
  "strip_zeros s = rev (dropWhile (\<lambda>c. c = 48) (rev s))"

definition pad_zeros :: "nat \<Rightarrow> pystr \<Rightarrow> pystr" where
  "pad_zeros n s = replicate (n - length s) 48 @ s"

text \<open>A decimal below 0.0001 is written with an exponent.\<close>

definition float_text :: "nat \<Rightarrow> pystr" where
  "float_text k =
     (if k = 0 then u ''0.0''
      else if k < 100 then
        (let digits = nat_repr k; exponent = (if k < 10 then u ''e-06'' else u ''e-05'');
             rest = strip_zeros (tl digits)
         in hd digits # (if rest = [] then [] else 46 # rest) @ exponent)
      else
        (let fraction = strip_zeros (pad_zeros 6 (nat_repr (k mod 1000000)))
         in nat_repr (k div 1000000) @ 46 # (if fraction = [] then [48] else fraction)))"

definition rounded_duration :: "voice_response \<Rightarrow> exc + pyval" where
  "rounded_duration r =
     (let bytes_per_second = voice_sample_rate r * 2 in
      if bytes_per_second = 0 then Inl ZeroDivisionError
      else
        let t = float_text (millionths (if pcm_audio r = [] then (0, 0)
          else double_quotient (length (pcm_audio r)) (nat \<bar>bytes_per_second\<bar>)))
        in Inr (PFloat (if bytes_per_second < 0 then 45 # t else t)))"

section \<open>The manifest\<close>

definition voice_digest :: "bytes \<Rightarrow> pystr" where
  "voice_digest b = u ''sha256:'' @ hex_bytes (sha256 b)"

definition opt_str :: "pystr option \<Rightarrow> pyval" where
  "opt_str v = (case v of None \<Rightarrow> PNone | Some s \<Rightarrow> PStr s)"

record artifacts =
  wav_path :: "pystr option"
  transcript_path :: "pystr option"
  manifest_path :: pystr

definition artifact_paths :: "voice_response \<Rightarrow> bool \<Rightarrow> bool \<Rightarrow> artifacts" where
  "artifact_paths r persist_audio persist_transcript =
     \<lparr>wav_path = (if persist_audio then Some (artifact_name r ''.wav'') else None),
      transcript_path = (if persist_transcript then Some (artifact_name r ''.txt'') else None),
      manifest_path = artifact_name r ''.manifest.json''\<rparr>"

definition MANIFEST_WARNING :: pystr where
  "MANIFEST_WARNING =
     u ''This manifest provides local integrity metadata only. It is not a SENTINEL '' @
     u ''receipt, signature, consent record, approval, or verification decision.''"

definition audio_section :: "voice_response \<Rightarrow> artifacts \<Rightarrow> bytes option \<Rightarrow> pyval \<Rightarrow> pydict" where
  "audio_section r a wav duration =
     [(u ''format'', PStr (u ''audio/pcm'')), (u ''encoding'', PStr (u ''Linear16 little-endian'')),
      (u ''sample_rate'', PInt (voice_sample_rate r)), (u ''channels'', PInt 1), (u ''bit_depth'', PInt 16),
      (u ''pcm_bytes'', PInt (int (length (pcm_audio r)))), (u ''duration_seconds'', duration),
      (u ''pcm_sha256'', PStr (voice_digest (pcm_audio r))), (u ''audio_done_seen'', PBool (audio_done_seen r)),
      (u ''persisted'', PBool (wav_path a \<noteq> None)), (u ''wav_filename'', opt_str (wav_path a)),
      (u ''wav_sha256'', opt_str (map_option voice_digest wav))]"

definition transcript_section :: "voice_response \<Rightarrow> artifacts \<Rightarrow> bytes \<Rightarrow> pydict" where
  "transcript_section r a text_bytes =
     [(u ''characters'', PInt (int (length (transcript r)))), (u ''utf8_bytes'', PInt (int (length text_bytes))),
      (u ''sha256'', PStr (voice_digest text_bytes)), (u ''persisted'', PBool (transcript_path a \<noteq> None)),
      (u ''filename'', opt_str (transcript_path a)),
      (u ''file_sha256'', opt_str (map_option (\<lambda>_. voice_digest text_bytes) (transcript_path a)))]"

text \<open>\<open>created_at\<close> is the clock's text, a parameter.\<close>

definition manifest :: "pystr \<Rightarrow> voice_response \<Rightarrow> artifacts \<Rightarrow> bytes option \<Rightarrow> pyval \<Rightarrow> bytes \<Rightarrow> pydict" where
  "manifest created_at r a wav duration text_bytes =
     [(u ''schema'', PStr (u ''sentinel.xai-voice-artifact-manifest.v1'')), (u ''created_at'', PStr created_at),
      (u ''response_id'', PStr (voice_response_id r)), (u ''status'', opt_str (voice_status r)),
      (u ''authoritative'', PBool False), (u ''warning'', PStr MANIFEST_WARNING),
      (u ''audio'', PDict (audio_section r a wav duration)),
      (u ''transcript'', PDict (transcript_section r a text_bytes)),
      (u ''event_types'', PList (map PStr (event_types r)))]"

section \<open>Writing without replacing\<close>

definition overwrite_error :: "pystr \<Rightarrow> exc" where
  "overwrite_error name = FileExistsError [Txt ''refusing to overwrite existing artifact: '', Str name]"

definition link_error :: "exc \<Rightarrow> pystr \<Rightarrow> exc" where
  "link_error e name =
     (case e of
        FileExistsError _ \<Rightarrow> overwrite_error name
      | _ \<Rightarrow> if is_OSError e
             then config_error_of ''artifact filesystem does not support secure no-clobber linking'' else e)"

text \<open>\<open>except OSError: pass\<close>\<close>

definition ignore_OSError :: "unit io \<Rightarrow> unit io" where
  "ignore_OSError m = catchIO m (\<lambda>e. if is_OSError e then returnIO () else raiseIO e)"

text \<open>What happens between creating the temporary file and removing it.\<close>

definition fill_and_link :: "os \<Rightarrow> pystr \<Rightarrow> pystr \<Rightarrow> bytes \<Rightarrow> unit io" where
  "fill_and_link os tmp name b =
     bindIO (chmod os tmp 384) (\<lambda>_.
     bindIO (write_file os tmp b) (\<lambda>_.
     bindIO (catchIO (link_file os tmp name) (\<lambda>e. raiseIO (link_error e name))) (\<lambda>_.
     ignore_OSError (chmod os name 384))))"

definition atomic_write :: "os \<Rightarrow> pystr \<Rightarrow> bytes \<Rightarrow> unit io" where
  "atomic_write os name b =
     bindIO (occupied os name) (\<lambda>taken.
     if taken then raiseIO (overwrite_error name)
     else
       bindIO (mkstemp os (46 # name @ [46])) (\<lambda>tmp.
       finallyIO (fill_and_link os tmp name b) (unlink os tmp)))"

text \<open>The files of one response, the latest first in \<open>created\<close>; an error removes them again.\<close>

fun roll_back :: "os \<Rightarrow> pystr list \<Rightarrow> unit io" where
  "roll_back os [] = returnIO ()"
| "roll_back os (name # created) = bindIO (ignore_OSError (unlink os name)) (\<lambda>_. roll_back os created)"

fun write_all :: "os \<Rightarrow> (pystr \<times> bytes) list \<Rightarrow> pystr list \<Rightarrow> unit io" where
  "write_all os [] created = returnIO ()"
| "write_all os ((name, b) # files) created = (\<lambda>d.
     case atomic_write os name b d of
       (d1, Inr _) \<Rightarrow> write_all os files (name # created) d1
     | (d1, Inl e) \<Rightarrow> bindIO (roll_back os created) (\<lambda>_. raiseIO e) d1)"

section \<open>Persisting a response\<close>

text \<open>A symbolic link is refused before anything else, dangling or not. With \<open>exist_ok\<close>, \<open>mkdir\<close> of a
  directory that is there ignores every \<open>OSError\<close>.\<close>

definition prepare_folder :: "os \<Rightarrow> unit io" where
  "prepare_folder os =
     bindIO (syscall os LookFolder) (\<lambda>_ d.
     case folder d of
       Some (Symlink _) \<Rightarrow> (d, Inl (config_error_of ''output_dir must not be a symbolic link''))
     | Some (Plain _ _) \<Rightarrow> (d, Inl (config_error_of ''output_dir must be a directory''))
     | x \<Rightarrow>
         bindIO (if x = None then syscall os MakeFolder else ignore_OSError (syscall os MakeFolder)) (\<lambda>_.
         bindIO (\<lambda>d. (d\<lparr>folder := Some Folder\<rparr>, Inr ())) (\<lambda>_.
         ignore_OSError (syscall os ModeFolder))) d)"

fun check_free :: "os \<Rightarrow> pystr list \<Rightarrow> unit io" where
  "check_free os [] = returnIO ()"
| "check_free os (name # rest) =
     bindIO (occupied os name) (\<lambda>taken.
     if taken then raiseIO (overwrite_error name) else check_free os rest)"

definition requested_paths :: "artifacts \<Rightarrow> pystr list" where
  "requested_paths a = List.map_filter id [wav_path a, transcript_path a, Some (manifest_path a)]"

text \<open>The files and what goes into them: everything that can fail without touching the disk.\<close>

definition artifact_files :: "pystr \<Rightarrow> voice_response \<Rightarrow> artifacts \<Rightarrow> exc + (pystr \<times> bytes) list" where
  "artifact_files created_at r a =
     bindR (case wav_path a of
              None \<Rightarrow> Inr None
            | Some _ \<Rightarrow> bindR (create_pcm16_wav (pcm_audio r) (voice_sample_rate r)) (\<lambda>b. Inr (Some b))) (\<lambda>wav.
     bindR (encode_utf8 (transcript r)) (\<lambda>text_bytes.
     bindR (rounded_duration r) (\<lambda>duration.
     bindR (encode_utf8 (json_pretty json_str 0 (PDict (manifest created_at r a wav duration text_bytes)) @ [10])) (\<lambda>manifest_bytes.
     Inr (List.map_filter id
       [case (wav_path a, wav) of (Some p, Some b) \<Rightarrow> Some (p, b) | _ \<Rightarrow> None,
        map_option (\<lambda>p. (p, text_bytes)) (transcript_path a), Some (manifest_path a, manifest_bytes)])))))"

definition persist_voice_response :: "os \<Rightarrow> pystr \<Rightarrow> voice_response \<Rightarrow> bool \<Rightarrow> bool \<Rightarrow> artifacts io" where
  "persist_voice_response os created_at r persist_audio persist_transcript =
     (if \<not> persist_audio \<and> \<not> persist_transcript
      then raiseIO (config_error_of ''at least one of persist_audio or persist_transcript must be enabled'')
      else
        let a = artifact_paths r persist_audio persist_transcript in
        bindIO (prepare_folder os) (\<lambda>_.
        bindIO (check_free os (requested_paths a)) (\<lambda>_.
        bindIO (liftIO (artifact_files created_at r a)) (\<lambda>files.
        bindIO (write_all os files []) (\<lambda>_.
        returnIO a)))))"

end
