(* ===== verification/Voice_Cli.thy ===== *)
theory Voice_Cli
  imports Voice_Client Voice_Files Registry_Loader
begin

text \<open>
  \<open>src/sentinel_core/xai_voice.py\<close>, the command line: the instructions file, the prompts, one session
  with its turns and recordings, and the exit code. The parsed arguments are the input
  (\<open>argparse\<close> is not modelled), the environment's key and the instructions file are given by what
  reading them yields, and what is printed is not modelled except the message of \<open>main\<close>. An interrupt
  comes from the keyboard while the program waits for a prompt.
\<close>

section \<open>Input\<close>

record instructions_file =
  file_size :: "exc + int"
  file_bytes :: "exc + bytes"

definition read_instructions :: "instructions_file option \<Rightarrow> exc + pystr option" where
  "read_instructions file =
     (case file of
        None \<Rightarrow> Inr None
      | Some f \<Rightarrow>
          (case file_size f of
             Inl e \<Rightarrow> Inl (if is_OSError e then config_error_of ''instructions file could not be read'' else e)
           | Inr bytes_there \<Rightarrow>
               if 64000 < bytes_there then Inl (config_error_of ''instructions file exceeded the size limit'')
               else
                 (case bindR (file_bytes f) read_text of
                    Inl e \<Rightarrow>
                      Inl (if is_OSError e \<or> e = UnicodeDecodeError \<or> e = UnicodeEncodeError
                        then config_error_of ''instructions file must be readable UTF-8'' else e)
                  | Inr text \<Rightarrow>
                      bindR (validate_non_empty_text text ''application instructions'' 32000) (\<lambda>_.
                      Inr (Some (strip text))))))"

text \<open>What is typed: a line, or an interrupt; the end of the list is the end of the input. Of the lines that
  could be an exit command only those of ASCII letters are, so lower case is needed for these only.\<close>

datatype typed = Line pystr | Break

datatype ask = Ask pystr | Stop

fun interactive_prompts :: "typed list \<Rightarrow> ask list" where
  "interactive_prompts [] = []"
| "interactive_prompts (Break # _) = [Stop]"
| "interactive_prompts (Line prompt # rest) =
     (if ascii_lower (strip prompt) \<in> {u ''/quit'', u ''/exit''} then []
      else if strip prompt \<noteq> [] then Ask prompt # interactive_prompts rest
      else interactive_prompts rest)"

record cli_args =
  arg_prompt :: "pystr option"
  arg_model :: pystr
  arg_voice :: pystr
  instructions_path :: "instructions_file option"
  arg_effort :: pystr
  arg_rate :: int
  resumption :: bool
  record_audio :: bool
  record_transcript :: bool
  no_live_transcript :: bool
  arg_agent :: "pystr option"
  allow_undocumented :: bool

definition cli_prompts :: "cli_args \<Rightarrow> typed list \<Rightarrow> ask list" where
  "cli_prompts args keys = (case arg_prompt args of Some p \<Rightarrow> [Ask p] | None \<Rightarrow> interactive_prompts keys)"

section \<open>The session\<close>

text \<open>What the session runs in: the Unicode tables, the network, the output directory's calls, the clock and
  the terminal.\<close>

record surroundings =
  tables :: unicode_lib
  peer :: net
  machine :: os
  clock :: "wire_log \<Rightarrow> pystr"
  screen :: "pystr \<Rightarrow> exc option"

definition write_transcript_delta :: "(pystr \<Rightarrow> exc option) \<Rightarrow> pystr \<Rightarrow> exc option" where
  "write_transcript_delta out delta = out (safe_terminal_text delta)"

datatype cli_end = Finished | Failed exc | Interrupted

definition record_response :: "surroundings \<Rightarrow> cli_args \<Rightarrow> wire_log \<Rightarrow> voice_response \<Rightarrow> unit io" where
  "record_response env args w r =
     (if record_audio args \<or> record_transcript args
      then bindIO (persist_voice_response (machine env) (clock env w) r (record_audio args) (record_transcript args))
             (\<lambda>_. returnIO ())
      else returnIO ())"

fun run_prompts ::
    "surroundings \<Rightarrow> cli_args \<Rightarrow> client \<Rightarrow> wire_log \<Rightarrow> disk \<Rightarrow> ask list \<Rightarrow> (client \<times> wire_log \<times> disk \<times> cli_end) option" where
  "run_prompts env args s w d [] = Some (s, w, d, Finished)"
| "run_prompts env args s w d (Stop # _) = Some (s, w, d, Interrupted)"
| "run_prompts env args s w d (Ask prompt # rest) =
     (case run_turn (tables env) (peer env) s w prompt of
        None \<Rightarrow> None
      | Some (s1, w1, Inl e) \<Rightarrow> Some (s1, w1, d, Failed e)
      | Some (s1, w1, Inr r) \<Rightarrow>
          (case record_response env args w1 r d of
             (d1, Inl e) \<Rightarrow> Some (s1, w1, d1, Failed e)
           | (d1, Inr _) \<Rightarrow> run_prompts env args s1 w1 d1 rest))"

text \<open>\<open>async with\<close>: entering connects, leaving closes in any case.\<close>

definition run_session ::
    "surroundings \<Rightarrow> cli_args \<Rightarrow> client \<Rightarrow> disk \<Rightarrow> ask list \<Rightarrow> (client \<times> wire_log \<times> disk \<times> cli_end) option" where
  "run_session env args s d prompts =
     (case connect (tables env) (peer env) s [] of
        None \<Rightarrow> None
      | Some (s1, w1, Inl e) \<Rightarrow> Some (s1, w1, d, Failed e)
      | Some (s1, w1, Inr _) \<Rightarrow>
          (case run_prompts env args s1 w1 d prompts of
             None \<Rightarrow> None
           | Some (s2, w2, d2, r) \<Rightarrow> (let (s3, w3) = close s2 w2 in Some (s3, w3, d2, r))))"

definition cli_config :: "cli_args \<Rightarrow> pystr option \<Rightarrow> voice_config" where
  "cli_config args instr =
     \<lparr>model = arg_model args, voice = arg_voice args, instructions = instr, session_rate = arg_rate args,
      reasoning_effort = arg_effort args, resumption_enabled = PBool (resumption args), event_limit = PInt 2097152,
      audio_limit = PInt 67108864, transcript_limit = PInt 2097152, response_event_limit = PInt 10000,
      open_timeout_seconds = Integer 15, receive_timeout_seconds = Integer 120, close_timeout_seconds = Integer 5\<rparr>"

definition cli_client :: "surroundings \<Rightarrow> cli_args \<Rightarrow> pystr option \<Rightarrow> exc + client" where
  "cli_client env args api_key =
     (case api_key of
        None \<Rightarrow> Inl (config_error_of ''XAI_API_KEY is not set'')
      | Some key \<Rightarrow>
          bindR (read_instructions (instructions_path args)) (\<lambda>instr.
          bindR (make_config (tables env) (cli_config args instr)) (\<lambda>config.
          make_client key config (arg_agent args) (allow_undocumented args)
            (if no_live_transcript args then None else Some (write_transcript_delta (screen env))))))"

definition run_cli ::
    "surroundings \<Rightarrow> cli_args \<Rightarrow> pystr option \<Rightarrow> typed list \<Rightarrow> disk \<Rightarrow> (wire_log \<times> disk \<times> cli_end) option" where
  "run_cli env args api_key keys d =
     (case cli_client env args api_key of
        Inl e \<Rightarrow> Some ([], d, Failed e)
      | Inr s \<Rightarrow>
          (case run_session env args s d (cli_prompts args keys) of
             None \<Rightarrow> None
           | Some (_, w, d', r) \<Rightarrow> Some (w, d', r)))"

section \<open>The exit code\<close>

fun voice_error_text :: "exc \<Rightarrow> msg option" where
  "voice_error_text (XaiVoiceConfigurationError m) = Some m"
| "voice_error_text (XaiVoiceProtocolError m) = Some m"
| "voice_error_text (XaiVoiceRemoteError m) = Some m"
| "voice_error_text _ = None"

definition exit_status :: "cli_end \<Rightarrow> int \<times> msg" where
  "exit_status r =
     (case r of
        Finished \<Rightarrow> (0, [])
      | Interrupted \<Rightarrow> (130, [Txt ''Interrupted.''])
      | Failed e \<Rightarrow>
          (case voice_error_text e of
             Some m \<Rightarrow> (2, Txt ''ERROR: '' # m)
           | None \<Rightarrow> (1, [Txt ''ERROR: voice session failed closed''])))"

definition main :: "surroundings \<Rightarrow> cli_args \<Rightarrow> pystr option \<Rightarrow> typed list \<Rightarrow> disk \<Rightarrow> (wire_log \<times> disk \<times> int \<times> msg) option" where
  "main env args api_key keys d =
     (case run_cli env args api_key keys d of None \<Rightarrow> None | Some (w, d', r) \<Rightarrow> Some (w, d', exit_status r))"

end
