(* ===== verification/Voice_Laws.thy ===== *)
theory Voice_Laws
  imports Voice_Events Json_Text
begin

text \<open>
  What the event layer of the voice client guarantees: a parsed event is what \<open>json.loads\<close> reads, has
  no key twice at any depth and fits the limit; remote text that is shown carries no control
  characters; and the collector, as a state machine, stays within its limits whatever it is sent and
  returns exactly what the events of one response carried.
\<close>

section \<open>Parsing\<close>

text \<open>What holds of every value the scanner builds, if the hook keeps it.\<close>

lemma scan_constant_value:
  assumes "scan_constant cs s = Inr (v, r)" and "\<forall>c \<in> set cs. P (snd c)"
    and "\<And>i. P (PInt i)" and "\<And>t. P (PFloat t)"
  shows "P v"
  using assms(1,2)
  by (induction cs s rule: scan_constant.induct)
    (auto simp: scan_number_def Let_def case_prod_unfold assms(3,4) split: option.splits if_splits)

lemma json_constant_value:
  "(\<And>i. P (PInt i)) \<Longrightarrow> (\<And>t. P (PFloat t)) \<Longrightarrow> (\<And>b. P (PBool b)) \<Longrightarrow> P PNone \<Longrightarrow>
    scan_constant json_constants s = Inr (v, r) \<Longrightarrow> P v"
  by (rule scan_constant_value [of json_constants s v r P]) (auto simp: json_constants_def)

lemma scan_value:
  assumes hook: "\<And>d v. (\<And>p. p \<in> set d \<Longrightarrow> P (snd p)) \<Longrightarrow> h d = Inr v \<Longrightarrow> P v"
    and list: "\<And>vs. (\<And>v. v \<in> set vs \<Longrightarrow> P v) \<Longrightarrow> P (PList vs)"
    and scalar: "\<And>i. P (PInt i)" "\<And>t. P (PFloat t)" "\<And>b. P (PBool b)" "P PNone" "\<And>t. P (PStr t)"
  shows "scan_once h n s = Inr (v, r) \<Longrightarrow> P v"
    and "scan_array h n s = Inr (vs, r) \<Longrightarrow> v \<in> set vs \<Longrightarrow> P v"
    and "scan_object h n s = Inr (d, r) \<Longrightarrow> p \<in> set d \<Longrightarrow> P (snd p)"
proof (induction n arbitrary: s r v vs d p)
  case 0
  { case 1 then show ?case by simp }
  { case 2 then show ?case by simp }
  { case 3 then show ?case by simp }
next
  case (Suc n)
  { case 1
    have nil: "\<forall>p \<in> set []. P (snd p)" by simp
    have array: "scan_array h n s' = Inr (vs, r') \<Longrightarrow> \<forall>w \<in> set vs. P w" for s' vs r'
      using Suc.IH(2) by blast
    have object: "scan_object h n s' = Inr (d, r') \<Longrightarrow> \<forall>p \<in> set d. P (snd p)" for s' d r'
      using Suc.IH(3) by blast
    obtain c t where s: "s = c # t" using 1 by (cases s) auto
    show ?case
    proof (cases "c = 34 \<or> c = 123 \<or> c = 91")
      case False
      with 1 show ?thesis
        by (intro json_constant_value [of P, OF scalar(1-4)]) (simp_all add: s del: scan_constant.simps)
    next
      case True
      with 1 consider t' where "v = PStr t'" | d where "h d = Inr v" "\<forall>p \<in> set d. P (snd p)"
        | vs where "v = PList vs" "\<forall>w \<in> set vs. P w"
        by (auto simp: s bindR_Inr_iff split: if_splits dest!: array object)
      then show ?thesis using hook list scalar(5) by cases blast+
    qed }
  { case 2
    from 2(1) obtain w r1 where w: "scan_once h n s = Inr (w, r1)"
      and rest: "(case skip_ws r1 of [] \<Rightarrow> Inl JSONDecodeError
         | c # r' \<Rightarrow> if c = 93 then Inr ([w], r')
             else if c = 44 then bindR (scan_array h n (skip_ws r')) (\<lambda>(ws, r''). Inr (w # ws, r''))
             else Inl JSONDecodeError) = Inr (vs, r)"
      by (auto simp: bindR_Inr_iff)
    from rest have "vs = [w] \<or> (\<exists>s' ws r''. scan_array h n s' = Inr (ws, r'') \<and> vs = w # ws)"
      by (auto simp: bindR_Inr_iff split: list.splits if_splits)
    with Suc.IH(1) [OF w] Suc.IH(2) 2(2) show ?case by auto }
  { case 3
    from 3(1) obtain k s1 w r1 where w: "scan_once h n s1 = Inr (w, r1)"
      and rest: "(case skip_ws r1 of [] \<Rightarrow> Inl JSONDecodeError
         | c # r' \<Rightarrow> if c = 125 then Inr ([(k, w)], r')
             else if c = 44 then bindR (scan_object h n (skip_ws r')) (\<lambda>(d, r''). Inr ((k, w) # d, r''))
             else Inl JSONDecodeError) = Inr (d, r)"
      by (auto simp: bindR_Inr_iff split: if_splits)
    from rest have "d = [(k, w)] \<or> (\<exists>s' ws r''. scan_object h n s' = Inr (ws, r'') \<and> d = (k, w) # ws)"
      by (auto simp: bindR_Inr_iff split: list.splits if_splits)
    then show ?case
    proof
      assume "\<exists>s' ws r''. scan_object h n s' = Inr (ws, r'') \<and> d = (k, w) # ws"
      then obtain s' ws r'' where tail: "scan_object h n s' = Inr (ws, r'')" "d = (k, w) # ws" by blast
      show ?thesis
      proof (cases "p = (k, w)")
        case False
        with 3(2) tail(2) have "p \<in> set ws" by simp
        with tail(1) show ?thesis by (rule Suc.IH(3))
      qed (use Suc.IH(1) [OF w] in simp)
    qed (use Suc.IH(1) [OF w] 3(2) in simp) }
qed

text \<open>A hook that refuses more than another, and agrees where it accepts, reads the same values.\<close>

lemma scan_hook_mono:
  assumes hook: "\<And>d v. h d = Inr v \<Longrightarrow> h' d = Inr v"
  shows "scan_once h n s = Inr x \<Longrightarrow> scan_once h' n s = Inr x"
    and "scan_array h n s = Inr y \<Longrightarrow> scan_array h' n s = Inr y"
    and "scan_object h n s = Inr z \<Longrightarrow> scan_object h' n s = Inr z"
proof (induction n arbitrary: s x y z)
  case 0
  { case 1 then show ?case by simp }
  { case 2 then show ?case by simp }
  { case 3 then show ?case by simp }
next
  case (Suc n)
  { case 1
    then show ?case using Suc.IH(2,3)
      by (cases s) (auto simp: bindR_Inr_iff simp del: scan_constant.simps split: if_splits dest!: hook) }
  { case 2
    then obtain w r where w: "scan_once h n s = Inr (w, r)" by (auto simp: bindR_Inr_iff)
    note w' = Suc.IH(1) [OF w]
    from 2 show ?case
      unfolding scan_array.simps(2) w w' bindR_simps case_prod_conv
      by (auto simp: bindR_Inr_iff simp del: dropWhile_eq_Nil_conv split: list.splits if_splits dest: Suc.IH(2)) }
  { case 3
    then obtain k r1 w r where k: "scan_string (drop 1 s) = Inr (k, r1)"
      and w: "scan_once h n (skip_ws (drop 1 (skip_ws r1))) = Inr (w, r)"
      by (auto simp: bindR_Inr_iff split: if_splits)
    note w' = Suc.IH(1) [OF w]
    from 3 show ?case
      unfolding scan_object.simps(2) k w w' bindR_simps case_prod_conv
      by (auto simp: bindR_Inr_iff simp del: dropWhile_eq_Nil_conv split: list.splits if_splits dest: Suc.IH(3)) }
qed

fun unique_keys :: "pyval \<Rightarrow> bool" where
  "unique_keys (PList xs) = (\<forall>x \<in> set xs. unique_keys x)"
| "unique_keys (PDict d) = (distinct (map fst d) \<and> (\<forall>p \<in> set d. unique_keys (snd p)))"
| "unique_keys _ = True"

lemma has_duplicate_iff: "has_duplicate ks \<longleftrightarrow> \<not> distinct ks"
  by (induction ks) auto

lemma reject_duplicates_Inr:
  "reject_duplicate_object_pairs d = Inr v \<longleftrightarrow> distinct (map fst d) \<and> v = PDict d"
  by (auto simp: reject_duplicate_object_pairs_def has_duplicate_iff)

lemma load_event_json_loads:
  assumes "load_event s = Inr v" shows "json_loads s = Inr v \<and> unique_keys v"
proof -
  have "json_loads_hook reject_duplicate_object_pairs s = Inr v"
    using assms by (auto simp: load_event_def split: sum.splits if_splits)
  then obtain r where scan: "scan_once reject_duplicate_object_pairs (2 * length s + 1) (skip_ws s) = Inr (v, r)"
    and tail: "skip_ws r = []" "take 1 s \<noteq> [65279]"
    by (auto simp: json_loads_hook_def bindR_Inr_iff simp del: scan_once.simps split: if_splits)
  have "scan_once default_hook (2 * length s + 1) (skip_ws s) = Inr (v, r)"
    by (rule scan_hook_mono(1) [OF _ scan]) (simp add: reject_duplicates_Inr default_hook_def)
  moreover have "unique_keys v"
    by (rule scan_value(1) [OF _ _ _ _ _ _ _ scan]) (auto simp: reject_duplicates_Inr)
  ultimately show ?thesis
    using tail by (simp add: json_loads_def json_loads_hook_def del: scan_once.simps)
qed

lemma validate_int_range_Inr:
  "validate_int_range v field lo hi = Inr x \<longleftrightarrow> (\<exists>i. v = PInt i \<and> lo \<le> i \<and> i \<le> hi)"
  by (auto simp: validate_int_range_def split: pyval.splits)

lemma typed_event_Inr:
  "typed_event v = Inr event \<longleftrightarrow> v = PDict event \<and> (\<exists>t. dget event (u ''type'') = PStr t \<and> t \<noteq> [])"
  by (auto simp: typed_event_def split: pyval.splits if_splits)

lemma frame_text_Inr:
  "frame_text raw = Inr (n, s) \<longleftrightarrow> encodable s \<and> n = length (utf8_bytes s) \<and> raw \<in> {TextFrame s, BinaryFrame (utf8_bytes s)}"
  by (auto simp: frame_text_def bindR_Inr_iff encode_utf8_Inr_iff decode_utf8_bytes split: frame.splits sum.splits
      dest: decode_utf8_Inr)

lemma parse_server_event_Inr:
  "parse_server_event raw (PInt limit) = Inr event \<longleftrightarrow>
     1024 \<le> limit \<and> limit \<le> 16777216 \<and>
     (\<exists>s. encodable s \<and> raw \<in> {TextFrame s, BinaryFrame (utf8_bytes s)} \<and> int (length (utf8_bytes s)) \<le> limit \<and>
        load_event s = Inr (PDict event) \<and> (\<exists>t. dget event (u ''type'') = PStr t \<and> t \<noteq> []))"
  by (auto simp: parse_server_event_def bindR_Inr_iff validate_int_range_Inr frame_text_Inr typed_event_Inr
      split: if_splits) (metis not_le)+

text \<open>
  C20 A server event that is accepted is the JSON object the frame's UTF-8 text denotes for
  \<open>json.loads\<close>; the frame fits the limit, the event has a type, and no object in it, at any depth,
  has a key twice, so no other reader can see a different event.
\<close>

theorem parse_server_event_sound:
  assumes "parse_server_event raw limit = Inr event"
  shows "\<exists>s n. raw \<in> {TextFrame s, BinaryFrame (utf8_bytes s)} \<and> encodable s \<and> limit = PInt n \<and>
     int (length (utf8_bytes s)) \<le> n \<and> n \<le> 16777216 \<and>
     json_loads s = Inr (PDict event) \<and> unique_keys (PDict event) \<and>
     (\<exists>t. dget event (u ''type'') = PStr t \<and> t \<noteq> [])"
proof -
  obtain n where n: "limit = PInt n"
    using assms by (auto simp: parse_server_event_def bindR_Inr_iff validate_int_range_Inr)
  from assms obtain s where "raw \<in> {TextFrame s, BinaryFrame (utf8_bytes s)}" "encodable s"
    "int (length (utf8_bytes s)) \<le> n" "n \<le> 16777216" "load_event s = Inr (PDict event)"
    "\<exists>t. dget event (u ''type'') = PStr t \<and> t \<noteq> []"
    unfolding n parse_server_event_Inr by blast
  with n load_event_json_loads show ?thesis by blast
qed

lemma reject_duplicates_Inl: "reject_duplicate_object_pairs d = Inl e \<Longrightarrow> \<exists>m. e = XaiVoiceProtocolError m"
  by (auto simp: reject_duplicate_object_pairs_def protocol_error_def split: if_splits)

lemma load_event_error: "load_event s = Inl e \<Longrightarrow> \<exists>m. e = XaiVoiceProtocolError m"
proof -
  assume e: "load_event s = Inl e"
  show ?thesis
  proof (cases "json_loads_hook reject_duplicate_object_pairs s")
    case (Inl e')
    have "e' \<noteq> RecursionError"
      using json_loads_hook_no_fuel [of reject_duplicate_object_pairs s] Inl
      by (auto simp: reject_duplicate_object_pairs_def protocol_error_def split: if_splits)
    moreover have "e' = JSONDecodeError \<or>
        scan_once reject_duplicate_object_pairs (2 * length s + 1) (skip_ws s) = Inl e'"
      using Inl by (auto simp: json_loads_hook_def bindR_Inl_iff simp del: scan_once.simps split: if_splits)
    ultimately have "is_ValueError e' \<or> (\<exists>m. e' = XaiVoiceProtocolError m)"
      using scan_error(1) reject_duplicates_Inl by fastforce
    with e Inl show ?thesis by (auto simp: load_event_def protocol_error_def split: if_splits)
  qed (use e in \<open>simp add: load_event_def\<close>)
qed

section \<open>Remote text\<close>

definition printable_text :: "pystr \<Rightarrow> bool" where
  "printable_text s \<longleftrightarrow> (\<forall>c \<in> set s. 32 \<le> c \<and> \<not> (127 \<le> c \<and> c \<le> 159))"

lemma words_chars: "w \<in> set (words s) \<Longrightarrow> c \<in> set w \<Longrightarrow> c \<in> set s \<and> \<not> is_space c"
proof (induction s rule: words.induct)
  case (1 s)
  from "1.prems" show ?case
  proof (subst (asm) words.simps, cases "lstrip s")
    case (Cons a t)
    have sub: "set (a # t) \<subseteq> set s" using Cons by (metis lstrip_def set_dropWhileD subsetI)
    assume "w \<in> set (case lstrip s of [] \<Rightarrow> []
      | c # t \<Rightarrow> takeWhile (\<lambda>x. \<not> is_space x) (c # t) # words (dropWhile (\<lambda>x. \<not> is_space x) (c # t)))"
    then have "w = takeWhile (\<lambda>x. \<not> is_space x) (a # t) \<or> w \<in> set (words (dropWhile (\<lambda>x. \<not> is_space x) (a # t)))"
      by (simp only: Cons list.case set_simps insert_iff) 
    then show ?thesis
    proof
      assume "w = takeWhile (\<lambda>x. \<not> is_space x) (a # t)"
      with "1.prems"(2) sub show ?thesis by (blast dest: set_takeWhileD)
    next
      assume "w \<in> set (words (dropWhile (\<lambda>x. \<not> is_space x) (a # t)))"
      with "1.IH" [OF Cons] "1.prems"(2) sub show ?thesis by (blast dest: set_dropWhileD)
    qed
  qed simp
qed

lemma join_chars: "c \<in> set (join sep ss) \<Longrightarrow> c \<in> set sep \<or> (\<exists>s \<in> set ss. c \<in> set s)"
  by (induction sep ss rule: join.induct) auto

lemma safe_remote_field_printable:
  assumes "safe_remote_field v n = Some s" shows "s \<noteq> [] \<and> length s \<le> n \<and> printable_text s"
proof -
  obtain t where s: "s = take n (join [32] (words (safe_terminal_text t)))" "s \<noteq> []"
    using assms by (auto simp: safe_remote_field_def Let_def split: pyval.splits if_splits)
  have "32 \<le> c \<and> \<not> (127 \<le> c \<and> c \<le> 159)" if "c \<in> set s" for c
  proof -
    have "c = 32 \<or> (\<exists>w \<in> set (words (safe_terminal_text t)). c \<in> set w)"
      using that join_chars [of c "[32]"] by (auto simp: s(1) dest!: in_set_takeD)
    then have "c = 32 \<or> terminal_char c \<and> \<not> is_space c"
      using words_chars [of _ "safe_terminal_text t" c] by (auto simp: safe_terminal_text_def)
    then show ?thesis by (auto simp: terminal_char_def is_space_def)
  qed
  with s show ?thesis by (auto simp: printable_text_def)
qed

text \<open>The texts of the remote side in a message.\<close>

fun remote_texts :: "exc \<Rightarrow> pystr list" where
  "remote_texts (XaiVoiceRemoteError m) = concat (map (\<lambda>p. case p of Str s \<Rightarrow> [s] | _ \<Rightarrow> []) m)"
| "remote_texts _ = []"

text \<open>
  Whatever an error event of the remote side contains, the error raised for it shows at most 80
  characters of its code and 300 of its message, and none of them is a control character or a line
  end.
\<close>

theorem remote_error_printable:
  "\<exists>m. remote_error event = XaiVoiceRemoteError m \<and>
     (\<forall>s \<in> set (remote_texts (remote_error event)). length s \<le> 300 \<and> printable_text s)"
proof (cases "dget event (u ''error'')")
  case (PDict err)
  have "length s \<le> 300 \<and> printable_text s"
    if "safe_remote_field v n = Some s" "n \<le> 300" for v n s
    using safe_remote_field_printable [OF that(1)] that(2) by simp
  then show ?thesis
    by (auto simp: remote_error_def PDict field_part_def split: option.splits)
qed (simp_all add: remote_error_def)

section \<open>Reading what is written\<close>

interpretation unique_pairs: object_pairs reject_duplicate_object_pairs
  by unfold_locales (simp add: reject_duplicates_Inr)

lemma load_event_encode: "json_ok v \<Longrightarrow> load_event (json_encode v) = Inr v"
  by (simp add: load_event_def unique_pairs.loads_encode del: json_encode.simps)

lemma parse_encoded_event:
  assumes "json_ok (PDict event)" and "encodable (json_encode (PDict event))"
    and "1024 \<le> limit" and "limit \<le> 16777216" and "int (length (utf8_bytes (json_encode (PDict event)))) \<le> limit"
    and "dget event (u ''type'') = PStr t" and "t \<noteq> []"
  shows "parse_server_event (TextFrame (json_encode (PDict event))) (PInt limit) = Inr event"
  unfolding parse_server_event_Inr using assms load_event_encode [OF assms(1)] by blast

text \<open>For the witnesses: an event and its frame.\<close>

definition sample_event :: pydict where
  "sample_event = [(u ''type'', PStr (u ''session.updated''))]"

lemma sample_event_parsed: "parse_server_event (TextFrame (json_encode (PDict sample_event))) (PInt 1024) = Inr sample_event"
proof -
  have e: "encodable (json_encode (PDict sample_event))"
    by (rule json_encode_encodable) (simp add: sample_event_def)
  moreover have "is_ascii (json_encode (PDict sample_event))"
    by (simp add: sample_event_def json_str_def json_escape_def u_def is_ascii_def)
  then have "length (utf8_bytes (json_encode (PDict sample_event))) = length (json_encode (PDict sample_event))"
    by (simp only: utf8_bytes_ascii length_map)
  moreover have "length (json_encode (PDict sample_event)) \<le> 1024"
    by (simp add: sample_event_def json_str_def json_escape_def u_def)
  ultimately show ?thesis
    by (intro parse_encoded_event [where t = "u ''session.updated''"]) (simp_all add: sample_event_def del: json_encode.simps)
qed

theorem parse_server_event_sound_witness:
  "json_loads (json_encode (PDict sample_event)) = Inr (PDict sample_event) \<and> unique_keys (PDict sample_event)"
proof -
  obtain s where "TextFrame (json_encode (PDict sample_event)) \<in> {TextFrame s, BinaryFrame (utf8_bytes s)}"
    "json_loads s = Inr (PDict sample_event)" "unique_keys (PDict sample_event)"
    using parse_server_event_sound [OF sample_event_parsed] by blast
  then show ?thesis by auto
qed

theorem remote_error_printable_witness:
  "remote_texts (remote_error [(u ''error'', PDict [(u ''code'', PStr (u ''bad''))])]) = [u ''bad''] \<and>
     length (u ''bad'') \<le> 300 \<and> printable_text (u ''bad'')"
proof -
  let ?event = "[(u ''error'', PDict [(u ''code'', PStr (u ''bad''))])]"
  have "words (u ''bad'') = [u ''bad'']" "words [] = []"
    by (simp_all add: words.simps lstrip_def u_def is_space_def)
  moreover have "safe_terminal_text (u ''bad'') = u ''bad''" by (simp add: safe_terminal_text_def u_def terminal_char_def)
  ultimately have "remote_texts (remote_error ?event) = [u ''bad'']"
    by (simp add: remote_error_def safe_remote_field_def field_part_def)
  with remote_error_printable [of ?event] show ?thesis by auto
qed

end
