(* ===== verification/Collector_Laws.thy ===== *)
theory Collector_Laws
  imports Voice_Laws
begin

text \<open>
  The response collector of the voice client as a state machine. What a history of accepted events
  carried is defined on the list of events; the collector's parts, counters and flags are shown to be
  exactly that, for every history, and so is the response it returns in the end.
\<close>

section \<open>What a history of events carries\<close>

definition event_type :: "pydict \<Rightarrow> pystr option" where
  "event_type e = (case dget e (u ''type'') of PStr t \<Rightarrow> if t = [] then None else Some t | _ \<Rightarrow> None)"

definition delta_of :: "pydict \<Rightarrow> pystr option" where
  "delta_of e = (case validated_transcript_delta e of Inr d \<Rightarrow> d | Inl _ \<Rightarrow> None)"

definition chunk_of :: "pydict \<Rightarrow> bytes option" where
  "chunk_of e =
     (case dget e (u ''type'') of
        PStr t \<Rightarrow>
          if one_of AUDIO_DELTA_EVENT_TYPES t then
            (case dget e (u ''delta'') of PStr s \<Rightarrow> (case decode_audio s of Inr b \<Rightarrow> Some b | Inl _ \<Rightarrow> None) | _ \<Rightarrow> None)
          else None
      | _ \<Rightarrow> None)"

definition created_id_of :: "pydict \<Rightarrow> pystr option" where
  "created_id_of e =
     (if dget e (u ''type'') = PStr (u ''response.created'') then
        (case dget e (u ''response'') of PDict r \<Rightarrow> as_str (dget r (u ''id'')) | _ \<Rightarrow> None)
      else None)"

definition deltas :: "pydict list \<Rightarrow> pystr" where
  "deltas es = concat (List.map_filter delta_of es)"

definition audio_of :: "pydict list \<Rightarrow> bytes" where
  "audio_of es = concat (List.map_filter chunk_of es)"

definition audio_done_in :: "pydict list \<Rightarrow> bool" where
  "audio_done_in es \<longleftrightarrow> (\<exists>e \<in> set es. dget e (u ''type'') = PStr (u ''response.output_audio.done''))"

text \<open>The collector after a history.\<close>

definition collected :: "int \<Rightarrow> int \<Rightarrow> int \<Rightarrow> int \<Rightarrow> pydict list \<Rightarrow> collector" where
  "collected rate audio text events es =
     \<lparr>sample_rate = rate, max_audio_bytes = audio, max_transcript_bytes = text, max_response_events = events,
      active_id = (case List.map_filter created_id_of es of [] \<Rightarrow> None | i # _ \<Rightarrow> Some i),
      transcript_parts = List.map_filter delta_of es, audio_parts = List.map_filter chunk_of es,
      audio_bytes = length (audio_of es), transcript_bytes = length (utf8_bytes (deltas es)),
      event_count = length es, done_seen = audio_done_in es, seen_types = List.map_filter event_type es\<rparr>"

lemma map_filter_snoc: "List.map_filter f (xs @ [x]) = List.map_filter f xs @ (case f x of None \<Rightarrow> [] | Some y \<Rightarrow> [y])"
  by (induction xs) (auto simp: map_filter_simps split: option.split)

lemma utf8_bytes_append [simp]: "utf8_bytes (s @ t) = utf8_bytes s @ utf8_bytes t"
  by (simp add: utf8_bytes_def)

lemma utf8_bytes_Nil [simp]: "utf8_bytes [] = []"
  by (simp add: utf8_bytes_def)

lemma collected_Nil: "collected r a t n [] = new_collector r a t n"
  by (simp add: collected_def new_collector_def map_filter_simps audio_of_def deltas_def audio_done_in_def utf8_bytes_def)

section \<open>The state machine\<close>

text \<open>The collector is sent events, accepts each, and none completes the response.\<close>

inductive collecting :: "collector \<Rightarrow> pydict list \<Rightarrow> collector \<Rightarrow> bool" for c0 where
  start: "collecting c0 [] c0"
| step: "collecting c0 es c \<Longrightarrow> consume c e = (c', Inr None) \<Longrightarrow> collecting c0 (es @ [e]) c'"

text \<open>Any events and any outcomes: what can be reached at all.\<close>

inductive reachable :: "collector \<Rightarrow> collector \<Rightarrow> bool" for c0 where
  start: "reachable c0 c0"
| step: "reachable c0 c \<Longrightarrow> consume c e = (c', r) \<Longrightarrow> reachable c0 c'"
| reset: "reachable c0 c \<Longrightarrow> reachable c0 (reset c)"

lemma one_of_names:
  "\<not> one_of TRANSCRIPT_DELTA_EVENT_TYPES (u ''response.created'')"
  "\<not> one_of AUDIO_DELTA_EVENT_TYPES (u ''response.created'')"
  "\<not> one_of TRANSCRIPT_DELTA_EVENT_TYPES (u ''response.done'')"
  "\<not> one_of AUDIO_DELTA_EVENT_TYPES (u ''response.done'')"
  "\<not> one_of TRANSCRIPT_DELTA_EVENT_TYPES (u ''response.output_audio.done'')"
  "\<not> one_of AUDIO_DELTA_EVENT_TYPES (u ''response.output_audio.done'')"
  by (simp_all add: one_of_def TRANSCRIPT_DELTA_EVENT_TYPES_def AUDIO_DELTA_EVENT_TYPES_def)

lemma transcript_not_audio: "one_of TRANSCRIPT_DELTA_EVENT_TYPES t \<Longrightarrow> \<not> one_of AUDIO_DELTA_EVENT_TYPES t"
  by (auto simp: one_of_def TRANSCRIPT_DELTA_EVENT_TYPES_def AUDIO_DELTA_EVENT_TYPES_def)

lemma delta_transcript:
  "dget e (u ''type'') = PStr t \<Longrightarrow> validated_transcript_delta e = Inr (Some s) \<Longrightarrow> one_of TRANSCRIPT_DELTA_EVENT_TYPES t"
  by (auto simp: validated_transcript_delta_def split: if_splits)

text \<open>One accepted event that does not complete the response, by its kind.\<close>

definition counted :: "collector \<Rightarrow> pystr \<Rightarrow> collector" where
  "counted c t = c\<lparr>event_count := event_count c + 1, seen_types := seen_types c @ [t]\<rparr>"

lemma counted_simps [simp]:
  "sample_rate (counted c t) = sample_rate c" "max_audio_bytes (counted c t) = max_audio_bytes c"
  "max_transcript_bytes (counted c t) = max_transcript_bytes c" "active_id (counted c t) = active_id c"
  "transcript_parts (counted c t) = transcript_parts c" "audio_parts (counted c t) = audio_parts c"
  "audio_bytes (counted c t) = audio_bytes c" "transcript_bytes (counted c t) = transcript_bytes c"
  "done_seen (counted c t) = done_seen c" "event_count (counted c t) = event_count c + 1"
  "seen_types (counted c t) = seen_types c @ [t]" "max_response_events (counted c t) = max_response_events c"
  by (simp_all add: counted_def)

definition countable :: "collector \<Rightarrow> pydict \<Rightarrow> pystr \<Rightarrow> bool" where
  "countable c e t \<longleftrightarrow> dget e (u ''type'') = PStr t \<and> t \<noteq> [] \<and> int (event_count c) < max_response_events c"

inductive accepts :: "collector \<Rightarrow> pydict \<Rightarrow> collector \<Rightarrow> bool" where
  created: "countable c e (u ''response.created'') \<Longrightarrow> active_id c = None \<Longrightarrow> created_id_of e = Some i \<Longrightarrow>
    remote_id i \<Longrightarrow> accepts c e (counted c (u ''response.created'')\<lparr>active_id := Some i\<rparr>)"
| delta: "countable c e t \<Longrightarrow> active_id c \<noteq> None \<Longrightarrow> validated_transcript_delta e = Inr (Some s) \<Longrightarrow>
    encodable s \<Longrightarrow> int (transcript_bytes c + length (utf8_bytes s)) \<le> max_transcript_bytes c \<Longrightarrow>
    accepts c e (counted c t\<lparr>transcript_parts := transcript_parts c @ [s],
      transcript_bytes := transcript_bytes c + length (utf8_bytes s)\<rparr>)"
| audio: "countable c e t \<Longrightarrow> active_id c \<noteq> None \<Longrightarrow> one_of AUDIO_DELTA_EVENT_TYPES t \<Longrightarrow> chunk_of e = Some b \<Longrightarrow>
    int (audio_bytes c + length b) \<le> max_audio_bytes c \<Longrightarrow>
    accepts c e (counted c t\<lparr>audio_parts := audio_parts c @ [b], audio_bytes := audio_bytes c + length b\<rparr>)"
| audio_done: "countable c e (u ''response.output_audio.done'') \<Longrightarrow> active_id c \<noteq> None \<Longrightarrow>
    accepts c e (counted c (u ''response.output_audio.done'')\<lparr>done_seen := True\<rparr>)"
| other: "countable c e t \<Longrightarrow> t \<notin> {u ''response.created'', u ''response.output_audio.done'', u ''response.done''} \<Longrightarrow>
    \<not> one_of TRANSCRIPT_DELTA_EVENT_TYPES t \<Longrightarrow> \<not> one_of AUDIO_DELTA_EVENT_TYPES t \<Longrightarrow> accepts c e (counted c t)"

lemma consume_counted_iff:
  "countable c e t \<Longrightarrow> consume c e = consume_counted (counted c t) t e"
  by (simp add: consume_def countable_def counted_def Let_def)

lemma not_transcript: "dget e (u ''type'') = PStr t \<Longrightarrow> \<not> one_of TRANSCRIPT_DELTA_EVENT_TYPES t \<Longrightarrow>
    validated_transcript_delta e = Inr None"
  by (simp add: validated_transcript_delta_def)

lemma is_transcript: "dget e (u ''type'') = PStr t \<Longrightarrow> one_of TRANSCRIPT_DELTA_EVENT_TYPES t \<Longrightarrow>
    validated_transcript_delta e \<noteq> Inr None"
  by (auto simp: validated_transcript_delta_def Let_def split: if_splits pyval.splits)

lemma keep_on_error_None: "keep_on_error c r = (c', Inr None) \<longleftrightarrow> r = Inr c'"
  by (auto simp: keep_on_error_def split: sum.splits)

lemma require_active_Inr: "require_active_response c t = Inr i \<longleftrightarrow> active_id c = Some i"
  by (auto simp: require_active_response_def split: option.splits)

lemma created_response_id_Inr:
  "dget e (u ''type'') = PStr (u ''response.created'') \<Longrightarrow>
    created_response_id c e = Inr i \<longleftrightarrow> active_id c = None \<and> created_id_of e = Some i \<and> remote_id i"
  by (auto simp: created_response_id_def created_id_of_def as_str_def remote_id_def split: pyval.splits if_splits)

lemma add_transcript_Inr:
  "add_transcript c t s = Inr c' \<longleftrightarrow> active_id c \<noteq> None \<and> encodable s \<and>
     int (transcript_bytes c + length (utf8_bytes s)) \<le> max_transcript_bytes c \<and>
     c' = c\<lparr>transcript_parts := transcript_parts c @ [s], transcript_bytes := transcript_bytes c + length (utf8_bytes s)\<rparr>"
  by (auto simp: add_transcript_def bindR_Inr_iff require_active_Inr encode_utf8_Inr_iff Let_def)

lemma decode_audio_not_Nil: "decode_audio s = Inr b \<Longrightarrow> b \<noteq> [] \<and> s = b64encode b"
  by (auto simp: decode_audio_def split: sum.splits if_splits)

lemma decode_audio_encode:
  assumes "b \<noteq> []" shows "decode_audio (b64encode b) = Inr b"
proof -
  have small: "c < 128" if "c \<in> set (b64encode b)" for c
    using from_to_urlsafe [OF that] by (auto simp: to_urlsafe_def split: if_splits)
  then have "is_ascii (b64encode b)" by (auto simp: is_ascii_def)
  moreover have "map unat (map byte (b64encode b)) = b64encode b"
    using small by (simp add: comp_def) (rule map_idI, fastforce)
  moreover have "b64encode b \<noteq> [] \<and> unat (byte (hd (b64encode b))) \<noteq> 61"
    using assms by (cases b rule: b64encode.cases) simp_all
  ultimately show ?thesis
    using assms by (simp add: decode_audio_def encode_ascii_def a2b_base64_def hd_map a2b_loop_b64encode)
qed

text \<open>Audio chunks are a strict codec: exactly the canonical text of a chunk is accepted.\<close>

interpretation audio_b64: strict_codec b64encode decode_audio "\<lambda>b. b \<noteq> []"
  by unfold_locales (simp_all add: decode_audio_encode decode_audio_not_Nil [THEN conjunct1]
      decode_audio_not_Nil [THEN conjunct2, symmetric])

lemma decode_audio_Nil: "decode_audio [] \<noteq> Inr b"
  unfolding audio_b64.dec_iff by (cases b rule: b64encode.cases) auto

lemma add_audio_Inr:
  "dget e (u ''type'') = PStr t \<Longrightarrow> one_of AUDIO_DELTA_EVENT_TYPES t \<Longrightarrow>
   add_audio c t e = Inr c' \<longleftrightarrow> active_id c \<noteq> None \<and>
     (\<exists>b. chunk_of e = Some b \<and> int (audio_bytes c + length b) \<le> max_audio_bytes c \<and>
       c' = c\<lparr>audio_parts := audio_parts c @ [b], audio_bytes := audio_bytes c + length b\<rparr>)"
  using decode_audio_Nil
  by (cases "dget e (u ''delta'')")
    (auto simp: add_audio_def bindR_Inr_iff if_Inl_eq_Inr require_active_Inr chunk_of_def Let_def not_less
      split: sum.splits)

lemma consume_None_iff: "consume c e = (c', Inr None) \<longleftrightarrow> accepts c e c'"
proof
  assume c: "consume c e = (c', Inr None)"
  then obtain t where t: "countable c e t"
    by (auto simp: consume_def countable_def Let_def split: pyval.splits if_splits)
  then have type: "dget e (u ''type'') = PStr t" by (simp add: countable_def)
  from c have c: "consume_counted (counted c t) t e = (c', Inr None)" by (simp add: consume_counted_iff [OF t])
  show "accepts c e c'"
  proof (cases "t = u ''response.created''")
    case True
    with c t type show ?thesis
      by (auto simp: consume_counted_def keep_on_error_None bindR_Inr_iff created_response_id_Inr intro: accepts.created)
  next
    case False
    note other = False
    show ?thesis
    proof (cases "one_of TRANSCRIPT_DELTA_EVENT_TYPES t")
      case True
      with other c t is_transcript [OF type True] show ?thesis
        by (auto simp: consume_counted_def keep_on_error_None add_transcript_Inr intro: accepts.delta
            split: sum.splits option.splits)
    next
      case False
      with other c type have "(if one_of AUDIO_DELTA_EVENT_TYPES t then keep_on_error (counted c t) (add_audio (counted c t) t e)
            else if t = u ''response.output_audio.done''
            then keep_on_error (counted c t) (bindR (require_active_response (counted c t) t)
              (\<lambda>_. Inr (counted c t\<lparr>done_seen := True\<rparr>)))
            else if t = u ''response.done'' then
              (case complete_response (counted c t) t e of
                 Inl x \<Rightarrow> (counted c t, Inl x)
               | Inr completed \<Rightarrow> (reset (counted c t), Inr (Some completed)))
            else (counted c t, Inr None)) = (c', Inr None)"
        by (simp add: consume_counted_def not_transcript)
      with other False t type show ?thesis
        by (auto simp: keep_on_error_None add_audio_Inr bindR_Inr_iff require_active_Inr
            intro: accepts.audio accepts.audio_done accepts.other split: if_splits sum.splits)
    qed
  qed
next
  assume "accepts c e c'"
  then show "consume c e = (c', Inr None)"
  proof cases
    case (created i)
    then show ?thesis
      by (simp add: consume_counted_iff) (simp add: consume_counted_def keep_on_error_None bindR_Inr_iff
          created_response_id_Inr countable_def)
  next
    case (delta t s)
    then have "one_of TRANSCRIPT_DELTA_EVENT_TYPES t" using delta_transcript by (auto simp: countable_def)
    with delta show ?thesis
      by (simp add: consume_counted_iff) (auto simp: consume_counted_def keep_on_error_None add_transcript_Inr one_of_names)
  next
    case (audio t b)
    then have "\<not> one_of TRANSCRIPT_DELTA_EVENT_TYPES t" "t \<noteq> u ''response.created''"
      using transcript_not_audio one_of_names by blast+
    with audio show ?thesis
      by (simp add: consume_counted_iff) (simp add: consume_counted_def not_transcript keep_on_error_None add_audio_Inr
          countable_def)
  next
    case audio_done
    then show ?thesis
      by (simp add: consume_counted_iff) (auto simp: consume_counted_def not_transcript keep_on_error_None
          one_of_names bindR_Inr_iff require_active_Inr countable_def)
  next
    case (other t)
    then show ?thesis
      by (simp add: consume_counted_iff) (simp add: consume_counted_def not_transcript countable_def)
  qed
qed

section \<open>The state is what the history carried\<close>

lemma accepted_delta:
  assumes "accepts c e c'"
  shows "dget e (u ''type'') = PStr t \<Longrightarrow> \<not> one_of TRANSCRIPT_DELTA_EVENT_TYPES t \<Longrightarrow> delta_of e = None"
    and "dget e (u ''type'') = PStr t \<Longrightarrow> \<not> one_of AUDIO_DELTA_EVENT_TYPES t \<Longrightarrow> chunk_of e = None"
    and "dget e (u ''type'') = PStr t \<Longrightarrow> t \<noteq> u ''response.created'' \<Longrightarrow> created_id_of e = None"
  by (simp_all add: delta_of_def not_transcript chunk_of_def created_id_of_def)

lemma collected_step:
  assumes "accepts (collected r a t n es) e c'"
  shows "c' = collected r a t n (es @ [e])"
proof -
  define c where "c = collected r a t n es"
  have type: "countable c e x \<Longrightarrow> event_type e = Some x \<and> dget e (u ''type'') = PStr x" for x
    by (simp add: countable_def event_type_def)
  have snoc: "collected r a t n (es @ [e]) =
     \<lparr>sample_rate = r, max_audio_bytes = a, max_transcript_bytes = t, max_response_events = n,
      active_id = (case active_id c of None \<Rightarrow> created_id_of e | Some i \<Rightarrow> Some i),
      transcript_parts = transcript_parts c @ (case delta_of e of None \<Rightarrow> [] | Some s \<Rightarrow> [s]),
      audio_parts = audio_parts c @ (case chunk_of e of None \<Rightarrow> [] | Some b \<Rightarrow> [b]),
      audio_bytes = audio_bytes c + (case chunk_of e of None \<Rightarrow> 0 | Some b \<Rightarrow> length b),
      transcript_bytes = transcript_bytes c + (case delta_of e of None \<Rightarrow> 0 | Some s \<Rightarrow> length (utf8_bytes s)),
      event_count = event_count c + 1,
      done_seen = (done_seen c \<or> dget e (u ''type'') = PStr (u ''response.output_audio.done'')),
      seen_types = seen_types c @ (case event_type e of None \<Rightarrow> [] | Some x \<Rightarrow> [x])\<rparr>"
    by (auto simp: collected_def c_def map_filter_snoc audio_of_def deltas_def audio_done_in_def
        split: option.split list.split)
  have c: "sample_rate c = r" "max_audio_bytes c = a" "max_transcript_bytes c = t" "max_response_events c = n"
    by (simp_all add: c_def collected_def)
  have "accepts c e c'" using assms by (simp add: c_def)
  then show ?thesis
  proof cases
    case (created i)
    with type [OF created(2)] accepted_delta [OF \<open>accepts c e c'\<close>] show ?thesis unfolding snoc
      by (simp add: counted_def c one_of_names)
  next
    case (delta x s)
    with type [OF delta(2)] have "one_of TRANSCRIPT_DELTA_EVENT_TYPES x" using delta_transcript by blast
    moreover from this have "x \<noteq> u ''response.output_audio.done''" using one_of_names by blast
    ultimately show ?thesis unfolding snoc using delta type [OF delta(2)] accepted_delta [OF \<open>accepts c e c'\<close>] transcript_not_audio one_of_names
      by (auto simp: counted_def c delta_of_def)
  next
    case (audio x b)
    then have "x \<noteq> u ''response.output_audio.done''" "x \<noteq> u ''response.created''"
      "\<not> one_of TRANSCRIPT_DELTA_EVENT_TYPES x"
      using one_of_names transcript_not_audio by blast+
    with audio type [OF audio(2)] accepted_delta [OF \<open>accepts c e c'\<close>] transcript_not_audio one_of_names show ?thesis unfolding snoc
      by (auto simp: counted_def c)
  next
    case audio_done
    with type [OF audio_done(2)] accepted_delta [OF \<open>accepts c e c'\<close>] show ?thesis unfolding snoc
      by (auto simp: counted_def c one_of_names)
  next
    case (other x)
    with type [OF other(2)] accepted_delta [OF \<open>accepts c e c'\<close>] show ?thesis unfolding snoc
      by (auto simp: counted_def c split: option.split)
  qed
qed

lemma collecting_state:
  assumes "collecting c0 es c" and "c0 = new_collector r a t n"
  shows "c = collected r a t n es"
  using assms(1)
proof induction
  case start
  then show ?case by (simp add: assms(2) collected_Nil)
next
  case (step es c e c')
  then show ?case using collected_step by (simp add: consume_None_iff)
qed

section \<open>Completion\<close>

lemma consume_Some_iff:
  "consume c e = (c', Inr (Some response)) \<longleftrightarrow>
     countable c e (u ''response.done'') \<and> c' = reset (counted c (u ''response.done'')) \<and>
     (\<exists>i st. active_id c = Some i \<and> done_status e = Inr st \<and> even (length (concat (audio_parts c))) \<and>
        response = \<lparr>voice_response_id = i, transcript = concat (transcript_parts c),
          pcm_audio = concat (audio_parts c), voice_sample_rate = sample_rate c, voice_status = st,
          audio_done_seen = done_seen c, event_types = seen_types c @ [u ''response.done'']\<rparr>)"
    (is "_ \<longleftrightarrow> ?rhs")
proof -
  have complete: "complete_response (counted c x) x e = Inr response \<longleftrightarrow>
     (\<exists>i st. active_id c = Some i \<and> done_status e = Inr st \<and> even (length (concat (audio_parts c))) \<and>
        response = \<lparr>voice_response_id = i, transcript = concat (transcript_parts c),
          pcm_audio = concat (audio_parts c), voice_sample_rate = sample_rate c, voice_status = st,
          audio_done_seen = done_seen c, event_types = seen_types c @ [x]\<rparr>)" for x
    by (auto simp: complete_response_def bindR_Inr_iff if_Inl_eq_Inr require_active_Inr Let_def)
  have no_keep: "keep_on_error d r \<noteq> (c', Inr (Some response))" for d r
    by (simp add: keep_on_error_def split: sum.split)
  show ?thesis
  proof
    assume c: "consume c e = (c', Inr (Some response))"
    then obtain t where t: "countable c e t"
      by (auto simp: consume_def countable_def Let_def split: pyval.splits if_splits)
    with c have "consume_counted (counted c t) t e = (c', Inr (Some response))" by (simp add: consume_counted_iff)
    then have "t = u ''response.done''" "complete_response (counted c t) t e = Inr response" "c' = reset (counted c t)"
      by (auto simp: consume_counted_def no_keep split: if_splits sum.splits option.splits)
    with t complete show ?rhs by simp
  next
    assume r: ?rhs
    then have "complete_response (counted c (u ''response.done'')) (u ''response.done'') e = Inr response"
      unfolding complete by blast
    moreover have "validated_transcript_delta e = Inr None"
      using r by (intro not_transcript) (auto simp: countable_def one_of_names)
    ultimately show "consume c e = (c', Inr (Some response))"
      using r by (simp add: consume_counted_iff [OF conjunct1 [OF r]]) (simp add: consume_counted_def one_of_names)
  qed
qed

lemma reset_collected [simp]: "reset (counted (collected r a t n es) x) = new_collector r a t n"
  by (simp add: reset_def new_collector_def collected_def counted_def)

lemma collecting_one_id:
  assumes "collecting c0 es c" and "c0 = new_collector r a t n"
  shows "length (List.map_filter created_id_of es) \<le> 1"
  using assms(1)
proof induction
  case (step es c e c')
  note state = collecting_state [OF step.hyps(1) assms(2)]
  from step.hyps(2) have "accepts c e c'" by (simp add: consume_None_iff)
  then show ?case
  proof cases
    case (created i)
    then have "List.map_filter created_id_of es = []" by (simp add: state collected_def split: list.splits)
    then show ?thesis by (simp add: map_filter_snoc split: option.split)
  qed (use step.IH in \<open>auto simp: map_filter_snoc created_id_of_def countable_def one_of_names
      dest: delta_transcript split: option.split\<close>)
qed (simp add: map_filter_simps)

section \<open>Limits\<close>

definition within_limits :: "collector \<Rightarrow> bool" where
  "within_limits c \<longleftrightarrow>
     audio_bytes c = length (concat (audio_parts c)) \<and> int (audio_bytes c) \<le> max_audio_bytes c \<and>
     transcript_bytes c = length (utf8_bytes (concat (transcript_parts c))) \<and>
     int (transcript_bytes c) \<le> max_transcript_bytes c \<and>
     length (seen_types c) \<le> event_count c \<and> int (length (seen_types c)) \<le> max_response_events c \<and>
     (active_id c = None \<longrightarrow> transcript_parts c = [] \<and> audio_parts c = [] \<and> \<not> done_seen c) \<and>
     (\<forall>i. active_id c = Some i \<longrightarrow> remote_id i)"

lemma within_limits_accepts: "accepts c e c' \<Longrightarrow> within_limits c \<Longrightarrow> within_limits c'"
  by (induction rule: accepts.induct) (auto simp: within_limits_def countable_def)

lemma consume_cases:
  assumes "consume c e = (c', r)"
  shows "c' = c \<or> c' = c\<lparr>event_count := event_count c + 1\<rparr> \<or>
     (\<exists>t. countable c e t \<and> (c' = counted c t \<or> c' = reset (counted c t))) \<or> accepts c e c'"
proof (cases "\<exists>t. countable c e t")
  case True
  then obtain t where t: "countable c e t" by blast
  with assms have "consume_counted (counted c t) t e = (c', r)" by (simp add: consume_counted_iff)
  then have "c' = counted c t \<or> c' = reset (counted c t) \<or> r = Inr None"
    by (auto simp: consume_counted_def keep_on_error_def split: if_splits sum.splits option.splits)
  with t assms show ?thesis using consume_None_iff by blast
next
  case False
  with assms show ?thesis
    by (auto simp: consume_def countable_def Let_def split: pyval.splits if_splits)
qed

lemma within_limits_step:
  assumes "within_limits c" and "consume c e = (c', r)"
  shows "within_limits c'"
  using consume_cases [OF assms(2)] assms(1) within_limits_accepts [of c e c']
  by (auto simp: within_limits_def countable_def reset_def)

lemma make_collector_Inr:
  "make_collector r a t n = Inr c \<longleftrightarrow>
     r \<in> set ALLOWED_SAMPLE_RATES \<and> 1024 \<le> a \<and> a \<le> 536870912 \<and> 1024 \<le> t \<and> t \<le> 16777216 \<and>
     100 \<le> n \<and> n \<le> 100000 \<and> c = new_collector r a t n"
  by (auto simp: make_collector_def bindR_Inr_iff validate_int_range_Inr)

lemma within_limits_new: "0 \<le> a \<Longrightarrow> 0 \<le> t \<Longrightarrow> 0 \<le> n \<Longrightarrow> within_limits (new_collector r a t n)"
  by (simp add: within_limits_def new_collector_def)

lemma within_limits_reset: "within_limits c \<Longrightarrow> within_limits (reset c)"
  by (simp add: within_limits_def reset_def)

lemma reachable_within_limits: "reachable c0 c \<Longrightarrow> within_limits c0 \<Longrightarrow> within_limits c"
  by (induction rule: reachable.induct) (auto intro: within_limits_step within_limits_reset)

text \<open>
  Whatever events a collector is sent, in whatever order, accepted or refused, its counters are the
  sizes of what it holds, it never holds more audio, text or event types than its limits, and it holds
  no content without an active response that has a well-formed id.
\<close>

theorem collector_within_limits:
  assumes "make_collector r a t n = Inr c0" and "reachable c0 c"
  shows "within_limits c"
  using assms(2) by (rule reachable_within_limits) (use assms(1) in \<open>simp add: make_collector_Inr within_limits_new\<close>)

lemma collecting_reachable: "collecting c0 es c \<Longrightarrow> reachable c0 c"
  by (induction rule: collecting.induct) (auto intro: reachable.intros)

lemma completed_exact:
  assumes "make_collector r a t n = Inr c0" and "collecting c0 es c"
    and "consume c e = (c', Inr (Some response))"
  shows "c' = c0 \<and> dget e (u ''type'') = PStr (u ''response.done'') \<and>
     List.map_filter created_id_of es = [voice_response_id response] \<and> remote_id (voice_response_id response) \<and>
     transcript response = deltas es \<and> int (length (utf8_bytes (transcript response))) \<le> t \<and>
     pcm_audio response = audio_of es \<and> int (length (pcm_audio response)) \<le> a \<and> even (length (pcm_audio response)) \<and>
     done_status e = Inr (voice_status response) \<and> audio_done_seen response = audio_done_in es \<and>
     event_types response = List.map_filter event_type (es @ [e]) \<and> int (length (es @ [e])) \<le> n \<and>
     voice_sample_rate response = r"
proof -
  have c0: "c0 = new_collector r a t n" using assms(1) by (simp add: make_collector_Inr)
  have state: "c = collected r a t n es" using assms(2) c0 by (rule collecting_state)
  have limits: "within_limits c"
    using collecting_reachable [OF assms(2)] by (rule reachable_within_limits)
      (use assms(1) in \<open>simp add: make_collector_Inr within_limits_new\<close>)
  obtain i st where fin: "countable c e (u ''response.done'')" "c' = reset (counted c (u ''response.done''))"
      "active_id c = Some i" "done_status e = Inr st" "even (length (concat (audio_parts c)))"
    and response: "response = \<lparr>voice_response_id = i, transcript = concat (transcript_parts c),
          pcm_audio = concat (audio_parts c), voice_sample_rate = sample_rate c, voice_status = st,
          audio_done_seen = done_seen c, event_types = seen_types c @ [u ''response.done'']\<rparr>"
    using assms(3) unfolding consume_Some_iff by blast
  have type: "dget e (u ''type'') = PStr (u ''response.done'')" using fin(1) by (simp add: countable_def)
  then have "event_type e = Some (u ''response.done'')" by (simp add: event_type_def)
  moreover have "List.map_filter created_id_of es = [i]"
    using collecting_one_id [OF assms(2) c0] fin(3)
    by (auto simp: state collected_def split: list.splits)
  moreover have "c' = c0" using fin(2) by (simp add: state c0)
  ultimately show ?thesis
    using fin limits type unfolding response
    by (simp add: state collected_def within_limits_def countable_def deltas_def audio_of_def map_filter_snoc)
qed

text \<open>
  C18 A response is exactly what its events carried: when the collector completes one, exactly one
  event of the history announced its id, its transcript and audio are the deltas and chunks of the
  history in order and within the limits, the audio has whole samples, the status is that of the last
  event, every event type is listed, and the collector is as new.
\<close>

theorem completed_response_exact:
  assumes "make_collector r a t n = Inr c0" and "collecting c0 es c"
    and "consume c e = (c', Inr (Some response))"
  shows "c' = c0 \<and> dget e (u ''type'') = PStr (u ''response.done'') \<and>
     List.map_filter created_id_of es = [voice_response_id response] \<and> remote_id (voice_response_id response) \<and>
     transcript response = deltas es \<and> int (length (utf8_bytes (transcript response))) \<le> t \<and>
     pcm_audio response = audio_of es \<and> int (length (pcm_audio response)) \<le> a \<and> even (length (pcm_audio response)) \<and>
     done_status e = Inr (voice_status response) \<and> audio_done_seen response = audio_done_in es \<and>
     event_types response = List.map_filter event_type (es @ [e]) \<and> int (length (es @ [e])) \<le> n \<and>
     voice_sample_rate response = r"
  using assms by (rule completed_exact)

section \<open>Delivery\<close>

text \<open>An event that a collector with an active response takes, as far as the sizes allow.\<close>

definition content_event :: "pydict \<Rightarrow> bool" where
  "content_event e \<longleftrightarrow>
     (\<exists>x. dget e (u ''type'') = PStr x \<and> x \<noteq> [] \<and> x \<noteq> u ''response.created'' \<and> x \<noteq> u ''response.done'' \<and>
        (one_of AUDIO_DELTA_EVENT_TYPES x \<longrightarrow> chunk_of e \<noteq> None)) \<and>
     (\<exists>d. validated_transcript_delta e = Inr d \<and> (\<forall>s. d = Some s \<longrightarrow> encodable s))"

lemma content_accepted:
  assumes e: "content_event e" and active: "active_id c \<noteq> None" and count: "int (event_count c) < max_response_events c"
    and texts: "int (transcript_bytes c + (case delta_of e of None \<Rightarrow> 0 | Some s \<Rightarrow> length (utf8_bytes s))) \<le> max_transcript_bytes c"
    and audio: "int (audio_bytes c + (case chunk_of e of None \<Rightarrow> 0 | Some b \<Rightarrow> length b)) \<le> max_audio_bytes c"
  shows "\<exists>c'. accepts c e c'"
proof -
  obtain x d where x: "dget e (u ''type'') = PStr x" "x \<noteq> []" "x \<noteq> u ''response.created''" "x \<noteq> u ''response.done''"
      "one_of AUDIO_DELTA_EVENT_TYPES x \<Longrightarrow> chunk_of e \<noteq> None"
    and d: "validated_transcript_delta e = Inr d" "\<And>s. d = Some s \<Longrightarrow> encodable s"
    using e unfolding content_event_def by blast
  have countable: "countable c e x" using x count by (simp add: countable_def)
  show ?thesis
  proof (cases d)
    case (Some s)
    then have "int (transcript_bytes c + length (utf8_bytes s)) \<le> max_transcript_bytes c"
      using texts d(1) by (simp add: delta_of_def)
    with Some d countable active show ?thesis by (blast intro: accepts.delta)
  next
    case None
    show ?thesis
    proof (cases "one_of AUDIO_DELTA_EVENT_TYPES x")
      case True
      then obtain b where b: "chunk_of e = Some b" using x(5) by blast
      with audio have "int (audio_bytes c + length b) \<le> max_audio_bytes c" by simp
      with True b countable active show ?thesis by (blast intro: accepts.audio)
    next
      case False
      show ?thesis
      proof (cases "x = u ''response.output_audio.done''")
        case True
        with countable active show ?thesis by (blast intro: accepts.audio_done)
      next
        case other: False
        have "\<not> one_of TRANSCRIPT_DELTA_EVENT_TYPES x" using None d(1) is_transcript [OF x(1)] by blast
        with False other x countable show ?thesis by (blast intro: accepts.other)
      qed
    qed
  qed
qed

lemma collected_fields:
  "transcript_bytes (collected r a t n es) = length (utf8_bytes (deltas es))"
  "audio_bytes (collected r a t n es) = length (audio_of es)" "event_count (collected r a t n es) = length es"
  "max_transcript_bytes (collected r a t n es) = t" "max_audio_bytes (collected r a t n es) = a"
  "max_response_events (collected r a t n es) = n"
  by (simp_all add: collected_def)

lemma content_snoc:
  "deltas (es @ [e]) = deltas es @ (case delta_of e of None \<Rightarrow> [] | Some s \<Rightarrow> s)"
  "audio_of (es @ [e]) = audio_of es @ (case chunk_of e of None \<Rightarrow> [] | Some b \<Rightarrow> b)"
  by (simp_all add: deltas_def audio_of_def map_filter_snoc split: option.split)

lemma active_snoc:
  "active_id (collected r a t n es) \<noteq> None \<Longrightarrow> active_id (collected r a t n (es @ [e])) = active_id (collected r a t n es)"
  by (auto simp: collected_def map_filter_snoc split: list.splits)

lemma content_delivered:
  assumes "collecting (new_collector r a t n) [first] (collected r a t n [first])"
    and "active_id (collected r a t n [first]) \<noteq> None"
    and "\<forall>e \<in> set mid. content_event e" and "int (length (first # mid)) \<le> n"
    and "int (length (utf8_bytes (deltas (first # mid)))) \<le> t" and "int (length (audio_of (first # mid))) \<le> a"
  shows "collecting (new_collector r a t n) (first # mid) (collected r a t n (first # mid)) \<and>
     active_id (collected r a t n (first # mid)) \<noteq> None"
  using assms(3-6)
proof (induction mid rule: rev_induct)
  case Nil
  then show ?case using assms(1,2) by simp
next
  case (snoc e mid)
  let ?c = "collected r a t n (first # mid)"
  have sizes: "deltas (first # mid @ [e]) = deltas (first # mid) @ (case delta_of e of None \<Rightarrow> [] | Some s \<Rightarrow> s)"
    "audio_of (first # mid @ [e]) = audio_of (first # mid) @ (case chunk_of e of None \<Rightarrow> [] | Some b \<Rightarrow> b)"
    using content_snoc [of "first # mid" e] by simp_all
  have IH: "collecting (new_collector r a t n) (first # mid) ?c" "active_id ?c \<noteq> None"
    using snoc by (simp_all add: sizes)
  have "\<exists>c'. accepts ?c e c'"
    using snoc.prems IH(2) unfolding sizes
    by (intro content_accepted) (auto simp: collected_fields split: option.splits)
  then obtain c' where "consume ?c e = (c', Inr None)" unfolding consume_None_iff by blast
  from collecting.step [OF IH(1) this] have step: "collecting (new_collector r a t n) (first # mid @ [e]) c'" by simp
  with collecting_state [OF step refl] have c': "c' = collected r a t n (first # mid @ [e])" by simp
  have "active_id (collected r a t n (first # mid @ [e])) \<noteq> None"
    using IH(2) active_snoc [of r a t n "first # mid" e] by simp
  with step show ?case by (simp add: c')
qed

text \<open>
  C19 A well-formed response is always delivered: after an event that announces an id, any events with
  well-formed content within the limits, and a final event with a proper status, the collector returns
  the response with all of it.
\<close>

theorem response_delivered:
  assumes "make_collector r a t n = Inr c0"
    and "dget first (u ''type'') = PStr (u ''response.created'')" and "created_id_of first = Some i" and "remote_id i"
    and "\<forall>e \<in> set mid. content_event e"
    and "dget final (u ''type'') = PStr (u ''response.done'')" and "done_status final = Inr st"
    and "int (length mid) + 2 \<le> n" and "int (length (utf8_bytes (deltas mid))) \<le> t"
    and "int (length (audio_of mid)) \<le> a" and "even (length (audio_of mid))"
  shows "\<exists>c. collecting c0 (first # mid) c \<and>
     consume c final = (c0, Inr (Some \<lparr>voice_response_id = i, transcript = deltas mid, pcm_audio = audio_of mid,
       voice_sample_rate = r, voice_status = st, audio_done_seen = audio_done_in mid,
       event_types = List.map_filter event_type (first # mid @ [final])\<rparr>))"
proof -
  let ?c = "collected r a t n (first # mid)"
  have c0: "c0 = new_collector r a t n" using assms(1) by (simp add: make_collector_Inr)
  have none: "delta_of first = None" "chunk_of first = None"
    using assms(2) by (simp_all add: delta_of_def not_transcript one_of_names chunk_of_def)
  then have same: "deltas (first # mid) = deltas mid" "audio_of (first # mid) = audio_of mid"
    by (simp_all add: deltas_def audio_of_def map_filter_simps)
  have "\<exists>c'. accepts c0 first c'"
    using assms(2-4,8) accepts.created [of c0 first i] by (auto simp: c0 new_collector_def countable_def)
  then obtain c' where "consume c0 first = (c', Inr None)" unfolding consume_None_iff by blast
  from collecting.step [OF collecting.start this] have start: "collecting c0 [first] c'" by simp
  then have "c' = collected r a t n [first]" using c0 by (rule collecting_state)
  with start have "collecting (new_collector r a t n) [first] (collected r a t n [first])" by (simp add: c0)
  moreover have "active_id (collected r a t n [first]) \<noteq> None"
    using assms(3) by (simp add: collected_def map_filter_simps)
  ultimately have collecting: "collecting c0 (first # mid) ?c" and active: "active_id ?c \<noteq> None"
    using content_delivered [of r a t n first mid] assms(5,8-10) same by (simp_all add: c0)
  have id: "active_id ?c = Some i" using assms(3) by (simp add: collected_def map_filter_simps)
  have types: "event_type first = Some (u ''response.created'')" "event_type final = Some (u ''response.done'')"
    using assms(2,6) by (simp_all add: event_type_def)
  have fin: "countable ?c final (u ''response.done'')" using assms(6,8) by (simp add: countable_def collected_def)
  have audio: "concat (audio_parts ?c) = audio_of mid" "concat (transcript_parts ?c) = deltas mid"
    using same by (simp_all add: collected_def audio_of_def deltas_def)
  have "List.map_filter event_type (first # mid @ [final]) = seen_types ?c @ [u ''response.done'']"
    using map_filter_snoc [of event_type "first # mid" final] types by (simp add: collected_def)
  moreover have "done_seen ?c = audio_done_in mid" using assms(2) by (simp add: collected_def audio_done_in_def)
  moreover have "sample_rate ?c = r" by (simp add: collected_def)
  ultimately have "consume ?c final = (c0, Inr (Some \<lparr>voice_response_id = i, transcript = deltas mid,
       pcm_audio = audio_of mid, voice_sample_rate = r, voice_status = st, audio_done_seen = audio_done_in mid,
       event_types = List.map_filter event_type (first # mid @ [final])\<rparr>))"
    using fin id assms(7,11) by (simp add: consume_Some_iff audio c0)
  with collecting show ?thesis by blast
qed

section \<open>A response\<close>

text \<open>For the witnesses: one text delta and two samples of silence.\<close>

definition voice_event :: "string \<Rightarrow> pydict \<Rightarrow> pydict" where
  "voice_event name content = (u ''type'', PStr (u name)) # content"

definition sample_created :: pydict where
  "sample_created = voice_event ''response.created'' [(u ''response'', PDict [(u ''id'', PStr (u ''r1''))])]"

definition sample_content :: "pydict list" where
  "sample_content =
     [voice_event ''response.text.delta'' [(u ''delta'', PStr (u ''hi''))],
      voice_event ''response.audio.delta'' [(u ''delta'', PStr (b64encode [0, 0]))],
      voice_event ''rate_limits.updated'' [], voice_event ''response.output_audio.done'' []]"

definition sample_done :: pydict where
  "sample_done = voice_event ''response.done'' [(u ''response'', PDict [(u ''status'', PStr (u ''completed''))])]"

definition sample_collector :: collector where
  "sample_collector = new_collector 24000 1024 1024 100"

lemma sample_collector_made: "make_collector 24000 1024 1024 100 = Inr sample_collector"
  by (simp add: make_collector_Inr ALLOWED_SAMPLE_RATES_def sample_collector_def)

lemma sample_chunk: "decode_audio (b64encode [0, 0]) = Inr [0, 0]"
  by (rule audio_b64.dec_enc) simp

lemma sample_content_parts:
  "deltas sample_content = u ''hi''" "audio_of sample_content = [0, 0]"
  "\<forall>e \<in> set sample_content. content_event e"
  using sample_chunk
  by (simp_all add: sample_content_def deltas_def audio_of_def map_filter_simps delta_of_def chunk_of_def
      voice_event_def validated_transcript_delta_def one_of_def TRANSCRIPT_DELTA_EVENT_TYPES_def
      AUDIO_DELTA_EVENT_TYPES_def content_event_def Let_def del: b64encode.simps)

theorem response_delivered_witness:
  "\<exists>c response. collecting sample_collector (sample_created # sample_content) c \<and>
     consume c sample_done = (sample_collector, Inr (Some response)) \<and>
     transcript response = u ''hi'' \<and> pcm_audio response = [0, 0]"
proof -
  have id: "created_id_of sample_created = Some (u ''r1'')" "remote_id (u ''r1'')"
    by (simp_all add: sample_created_def voice_event_def created_id_of_def remote_id_def remote_id_char_def
        is_alnum_def is_letter_def is_ascii_digit_def u_def)
  have types: "dget sample_created (u ''type'') = PStr (u ''response.created'')"
    "dget sample_done (u ''type'') = PStr (u ''response.done'')" "done_status sample_done = Inr (Some (u ''completed''))"
    by (simp_all add: sample_created_def sample_done_def voice_event_def done_status_def)
  have "utf8_bytes (u ''hi'') = map byte (u ''hi'')"
    by (rule utf8_bytes_ascii) (simp add: is_ascii_def u_def)
  then have "int (length (utf8_bytes (deltas sample_content))) \<le> 1024" by (simp add: sample_content_parts)
  moreover have "int (length sample_content) + 2 \<le> 100" by (simp add: sample_content_def)
  ultimately show ?thesis
    using response_delivered [OF sample_collector_made types(1) id sample_content_parts(3) types(2,3)]
    by (fastforce simp: sample_content_parts)
qed

lemma sample_run:
  "\<exists>c response. collecting sample_collector [sample_created] c \<and>
     consume c sample_done = (sample_collector, Inr (Some response))"
proof -
  define c where "c = counted sample_collector (u ''response.created'')\<lparr>active_id := Some (u ''r1'')\<rparr>"
  have "accepts sample_collector sample_created c"
    unfolding c_def
    by (rule accepts.created) (simp_all add: countable_def sample_created_def voice_event_def sample_collector_def
        new_collector_def created_id_of_def remote_id_def remote_id_char_def is_alnum_def is_letter_def
        is_ascii_digit_def u_def)
  then have "collecting sample_collector ([] @ [sample_created]) c"
    by (intro collecting.step [OF collecting.start]) (simp add: consume_None_iff)
  moreover have "\<exists>response. consume c sample_done = (sample_collector, Inr (Some response))"
    unfolding consume_Some_iff
    by (simp add: c_def countable_def sample_done_def voice_event_def sample_collector_def new_collector_def
        done_status_def reset_def counted_def)
  ultimately show ?thesis by auto
qed

theorem completed_response_exact_witness:
  "\<exists>response :: voice_response. List.map_filter created_id_of [sample_created] = [voice_response_id response] \<and>
     transcript response = deltas [sample_created]"
proof -
  obtain c response where "collecting sample_collector [sample_created] c"
    "consume c sample_done = (sample_collector, Inr (Some response))"
    using sample_run by blast
  from completed_response_exact [OF sample_collector_made this] show ?thesis
    by (elim conjE) (intro exI [of _ response] conjI)
qed

theorem collector_within_limits_witness: "within_limits (reset sample_collector)"
  by (rule collector_within_limits [OF sample_collector_made reachable.reset [OF reachable.start]])

end
