(* ===== verification/Client_Laws.thy ===== *)
theory Client_Laws
  imports Voice_Client Voice_Config_Laws
begin

text \<open>
  What the voice client guarantees against any server and network: a turn is sent at most once, on one
  connection, and never again; a turn that fails leaves the client closed and without a conversation;
  a turn on an open session reads a bounded number of frames; and the response it returns is exactly
  what the frames of the turn carried.
\<close>

section \<open>What is on the wire\<close>

text \<open>An event whose sending failed may have reached the server all the same, so it counts as well.\<close>

fun payloads :: "wire_log \<Rightarrow> pystr list" where
  "payloads [] = []"
| "payloads (Sent p # w) = p # payloads w"
| "payloads (Unsent p # w) = p # payloads w"
| "payloads (_ # w) = payloads w"

fun shown_text :: "wire_log \<Rightarrow> pystr" where
  "shown_text [] = []"
| "shown_text (Shown d # w) = d @ shown_text w"
| "shown_text (_ # w) = shown_text w"

fun is_received :: "wire \<Rightarrow> bool" where
  "is_received (Received _) = True"
| "is_received _ = False"

fun is_opened :: "wire \<Rightarrow> bool" where
  "is_opened (Opened _) = True"
| "is_opened (Refused _) = True"
| "is_opened _ = False"

fun events_read :: "pyval \<Rightarrow> wire_log \<Rightarrow> pydict list" where
  "events_read limit [] = []"
| "events_read limit (Received (Inr raw) # w) =
     (case parse_server_event raw limit of Inr e \<Rightarrow> e # events_read limit w | Inl _ \<Rightarrow> events_read limit w)"
| "events_read limit (_ # w) = events_read limit w"

lemma payloads_append [simp]: "payloads (v @ w) = payloads v @ payloads w"
  by (induction v rule: payloads.induct) simp_all

lemma shown_append [simp]: "shown_text (v @ w) = shown_text v @ shown_text w"
  by (induction v rule: shown_text.induct) simp_all

lemma events_read_append [simp]: "events_read limit (v @ w) = events_read limit v @ events_read limit w"
  by (induction v rule: events_read.induct) (simp_all split: sum.split)

section \<open>The client between events\<close>

text \<open>The fixed part of a client, and what a conversation id must be.\<close>

definition same_client :: "client \<Rightarrow> client \<Rightarrow> bool" where
  "same_client s s' \<longleftrightarrow>
     settings s' = settings s \<and> client_agent s' = client_agent s \<and> allow_agent s' = allow_agent s \<and> sink s' = sink s"

definition resumable :: "client \<Rightarrow> bool" where
  "resumable s \<longleftrightarrow> (\<forall>i. conversation s = Some i \<longrightarrow> remote_id i \<and> truthy (resumption_enabled (settings s)))"

definition shut :: "client \<Rightarrow> bool" where
  "shut s \<longleftrightarrow> \<not> connected s \<and> \<not> session_ready s \<and> conversation s = None"

lemma same_client_refl [simp]: "same_client s s"
  by (simp add: same_client_def)

lemma same_client_trans: "same_client s s1 \<Longrightarrow> same_client s1 s2 \<Longrightarrow> same_client s s2"
  by (simp add: same_client_def)

lemma update_ready [simp]:
  "same_client s (s'\<lparr>session_ready := b\<rparr>) \<longleftrightarrow> same_client s s'"
  "resumable (s'\<lparr>session_ready := b\<rparr>) \<longleftrightarrow> resumable s'"
  by (simp_all add: same_client_def resumable_def)

lemma close_spec: "close s w = (s', w') \<Longrightarrow>
    s' = s\<lparr>connected := False, session_ready := False\<rparr> \<and> (w' = w \<or> w' = w @ [Closed])"
  by (auto simp: close_def)

definition closing_log :: "wire_log \<Rightarrow> bool" where
  "closing_log new \<longleftrightarrow> new = [] \<or> new = [Closed]"

lemma closing_log_simps:
  "closing_log new \<Longrightarrow> payloads new = [] \<and> \<not> list_ex is_opened new \<and> filter is_received new = [] \<and> shown_text new = []"
  by (auto simp: closing_log_def)

lemma fail_closed_spec:
  "fail_closed s w = (s', w') \<Longrightarrow>
     shut s' \<and> same_client s s' \<and> resumable s' \<and> (\<exists>new. w' = w @ new \<and> closing_log new)"
  by (auto simp: fail_closed_def shut_def same_client_def resumable_def closing_log_def dest!: close_spec)

lemma receive_event_Inr:
  "receive_event n s w = (s1, w1, Inr event) \<Longrightarrow>
     connected s \<and> s1 = s \<and> (\<exists>raw. w1 = w @ [Received (Inr raw)] \<and>
       parse_server_event raw (event_limit (settings s)) = Inr event)"
  by (auto simp: receive_event_def Let_def split: if_splits sum.splits prod.splits)

lemma receive_event_Inl:
  "receive_event n s w = (s1, w1, Inl e) \<Longrightarrow>
     same_client s s1 \<and> (resumable s \<longrightarrow> resumable s1) \<and>
     (\<exists>new. w1 = w @ new \<and> payloads new = [] \<and> shown_text new = [] \<and> \<not> list_ex is_opened new \<and>
       length (filter is_received new) \<le> 1)"
  by (auto simp: receive_event_def Let_def same_client_def resumable_def dest!: close_spec
      split: if_splits sum.splits prod.splits)

lemma capture_Inr:
  assumes "capture_conversation_id s event = Inr s1"
  shows "same_client s s1 \<and> connected s1 = connected s \<and> session_ready s1 = session_ready s \<and>
     (resumable s \<longrightarrow> resumable s1)"
  using assms
  by (auto simp: capture_conversation_id_def same_client_def resumable_def split: if_splits pyval.splits)

lemma show_delta_spec:
  "show_delta s w delta = (w', r) \<Longrightarrow> \<exists>new. w' = w @ new \<and> payloads new = [] \<and> \<not> list_ex is_opened new \<and>
     filter is_received new = [] \<and> events_read limit new = [] \<and>
     (r = Inr () \<longrightarrow> sink s \<noteq> None \<longrightarrow> shown_text new = (case delta of None \<Rightarrow> [] | Some d \<Rightarrow> d))"
  by (auto simp: show_delta_def split: option.splits)

lemma turn_event_spec:
  assumes "turn_event s w c event = (s2, w2, r)"
  shows "same_client s s2 \<and> connected s2 = connected s \<and> session_ready s2 = session_ready s \<and>
     (resumable s \<longrightarrow> resumable s2) \<and>
     (\<exists>new. w2 = w @ new \<and> payloads new = [] \<and> \<not> list_ex is_opened new \<and> filter is_received new = [] \<and>
        events_read limit new = [] \<and>
        (\<forall>c' x. r = Inr (c', x) \<longrightarrow> consume c event = (c', Inr x) \<and>
          (sink s \<noteq> None \<longrightarrow> shown_text new = (case delta_of event of None \<Rightarrow> [] | Some d \<Rightarrow> d)) \<and>
          (\<forall>response. x = Some response \<longrightarrow> completion_error response = None)))"
proof (cases "capture_conversation_id s event")
  case (Inl e)
  with assms show ?thesis by (auto simp: turn_event_def)
next
  case (Inr s1)
  note capture = capture_Inr [OF Inr]
  show ?thesis
  proof (cases "dget event (u ''type'') = PStr (u ''error'')")
    case True
    with assms Inr capture show ?thesis by (auto simp: turn_event_def)
  next
    case False
    obtain c' x where consumed: "consume c event = (c', x)" by fastforce
    show ?thesis
    proof (cases x)
      case (Inl e)
      with False assms Inr capture consumed show ?thesis by (auto simp: turn_event_def)
    next
      case x: (Inr completed)
      show ?thesis
      proof (cases "validated_transcript_delta event")
        case (Inl e)
        with False assms Inr capture consumed x show ?thesis by (auto simp: turn_event_def)
      next
        case delta: (Inr delta)
        obtain w1 y where shown: "show_delta s1 w delta = (w1, y)" by fastforce
        from show_delta_spec [OF shown, of limit] obtain new where new: "w1 = w @ new" "payloads new = []"
          "\<not> list_ex is_opened new" "filter is_received new = []" "events_read limit new = []"
          "y = Inr () \<longrightarrow> sink s1 \<noteq> None \<longrightarrow> shown_text new = (case delta of None \<Rightarrow> [] | Some d \<Rightarrow> d)" by blast
        have "sink s1 = sink s" using capture by (simp add: same_client_def)
        moreover have "delta_of event = delta" by (simp add: delta_of_def delta)
        ultimately show ?thesis
          using False assms Inr capture consumed x delta shown new
          by (auto simp: turn_event_def split: sum.splits option.splits)
      qed
    qed
  qed
qed

section \<open>Receiving a response\<close>

text \<open>The part of a log that one turn wrote while it waited.\<close>

definition waiting_log :: "wire_log \<Rightarrow> int \<Rightarrow> bool" where
  "waiting_log new bound \<longleftrightarrow>
     payloads new = [] \<and> \<not> list_ex is_opened new \<and> int (length (filter is_received new)) \<le> bound"

definition carried :: "client \<Rightarrow> collector \<Rightarrow> wire_log \<Rightarrow> voice_response \<Rightarrow> bool" where
  "carried s c new response \<longleftrightarrow>
     completion_error response = None \<and>
     (\<exists>es e c1 c2. events_read (event_limit (settings s)) new = es @ [e] \<and>
        (\<forall>c0 es0. collecting c0 es0 c \<longrightarrow> collecting c0 (es0 @ es) c1) \<and>
        consume c1 e = (c2, Inr (Some response)) \<and> (sink s \<noteq> None \<longrightarrow> shown_text new = deltas (es @ [e])))"

lemma deltas_Cons: "deltas (e # es) = (case delta_of e of None \<Rightarrow> [] | Some d \<Rightarrow> d) @ deltas es"
  by (simp add: deltas_def map_filter_simps split: option.split)

lemma deltas_Nil: "deltas [] = []"
  by (simp add: deltas_def map_filter_simps)

lemma receive_response_spec:
  assumes "receive_response n s w c = (s', w', r)" and "int (event_count c) \<le> max_response_events c"
  shows "same_client s s' \<and> (resumable s \<longrightarrow> resumable s') \<and>
     (\<exists>new. w' = w @ new \<and> waiting_log new (max_response_events c - int (event_count c) + 1) \<and>
       (\<forall>response. r = Inr response \<longrightarrow>
          connected s' \<and> session_ready s' = session_ready s \<and> carried s c new response))"
  using assms
proof (induction n s w c arbitrary: s' w' r rule: receive_response.induct)
  case (1 n s w c)
  let ?limit = "event_limit (settings s)"
  obtain s1 w1 x where got: "receive_event n s w = (s1, w1, x)" by (metis prod_cases3)
  show ?case
  proof (cases x)
    case (Inl e)
    with got "1.prems" have "s' = s1" "w' = w1" "r = Inl e"
      by (simp_all add: receive_response.simps [of n s w c])
    with receive_event_Inl [OF got [unfolded Inl]] "1.prems"(2) show ?thesis
      by (fastforce simp: waiting_log_def)
  next
    case (Inr event)
    then obtain raw where s1: "s1 = s" "connected s" and w1: "w1 = w @ [Received (Inr raw)]"
      and parsed: "parse_server_event raw ?limit = Inr event"
      using receive_event_Inr [OF got [unfolded Inr]] by blast
    obtain s2 w2 y where step: "turn_event s w1 c event = (s2, w2, y)" by (metis prod_cases3)
    from turn_event_spec [OF step, of ?limit] obtain v where same: "same_client s s2" "connected s2 = connected s"
        "session_ready s2 = session_ready s" "resumable s \<longrightarrow> resumable s2" and w2: "w2 = w1 @ v"
      and v: "payloads v = []" "\<not> list_ex is_opened v" "filter is_received v = []" "events_read ?limit v = []"
      and y: "\<forall>c' z. y = Inr (c', z) \<longrightarrow> consume c event = (c', Inr z) \<and>
          (sink s \<noteq> None \<longrightarrow> shown_text v = (case delta_of event of None \<Rightarrow> [] | Some d \<Rightarrow> d)) \<and>
          (\<forall>response. z = Some response \<longrightarrow> completion_error response = None)" by blast
    let ?here = "Received (Inr raw) # v"
    have here: "w2 = w @ ?here" "waiting_log ?here 1" "events_read ?limit ?here = [event]"
      using v parsed by (simp_all add: w2 w1 waiting_log_def)
    have bound: "1 \<le> max_response_events c - int (event_count c) + 1" using "1.prems"(2) by simp
    consider (failed) e where "y = Inl e" | (complete) c' response where "y = Inr (c', Some response)"
      | (more) c' where "y = Inr (c', None)"
      by (cases y) (auto, metis not_None_eq prod.exhaust)
    then show ?thesis
    proof cases
      case failed
      with got Inr s1 step "1.prems"(1) have "s' = s2" "w' = w2" "r = Inl e"
        by (simp_all add: receive_response.simps [of n s w c])
      with same here bound show ?thesis by (auto simp: waiting_log_def)
    next
      case complete
      with got Inr s1 step "1.prems"(1) have r: "s' = s2" "w' = w2" "r = Inr response"
        by (simp_all add: receive_response.simps [of n s w c])
      have "completion_error response = None" "consume c event = (c', Inr (Some response))"
        "sink s \<noteq> None \<longrightarrow> shown_text ?here = deltas ([] @ [event])"
        using y complete by (auto simp: deltas_Cons deltas_Nil)
      moreover have "events_read ?limit ?here = [] @ [event]" using here(3) by simp
      moreover have "\<forall>c0 es0. collecting c0 es0 c \<longrightarrow> collecting c0 (es0 @ []) c" by simp
      ultimately have "carried s c ?here response" unfolding carried_def by blast
      with r same here bound s1 show ?thesis by (auto simp: waiting_log_def)
    next
      case more
      then have consumed: "consume c event = (c', Inr None)" using y by blast
      have count: "event_count c' = event_count c + 1" "int (event_count c') \<le> max_response_events c"
        "max_response_events c' = max_response_events c"
        using turn_event_counts [OF step [unfolded more]] by simp_all
      have rec: "receive_response n s2 w2 c' = (s', w', r)"
        using got Inr s1 step more "1.prems"(1) by (simp add: receive_response.simps [of n s w c])
      have "event_limit (settings s2) = ?limit" "sink s2 = sink s" using same(1) by (simp_all add: same_client_def)
      note same_settings = this
      have got': "(s, w1, Inr event) = receive_event n s w" using got Inr s1(1) by simp
      from "1.IH" [OF got' refl refl step [symmetric] refl more refl refl rec] count
      obtain new where IH: "same_client s2 s'" "resumable s2 \<longrightarrow> resumable s'" "w' = w2 @ new"
          "waiting_log new (max_response_events c - int (event_count c))"
        and resp: "\<forall>response. r = Inr response \<longrightarrow>
          connected s' \<and> session_ready s' = session_ready s2 \<and> carried s2 c' new response"
        by auto
      have "carried s c (?here @ new) response" if "r = Inr response" for response
      proof -
        from resp that obtain es e c1 c2 where es: "events_read ?limit new = es @ [e]"
          "\<forall>c0 es0. collecting c0 es0 c' \<longrightarrow> collecting c0 (es0 @ es) c1"
          "consume c1 e = (c2, Inr (Some response))" "sink s \<noteq> None \<longrightarrow> shown_text new = deltas (es @ [e])"
          "completion_error response = None"
          unfolding carried_def same_settings by blast
        have "collecting c0 (es0 @ event # es) c1" if "collecting c0 es0 c" for c0 es0
          using es(2) collecting.step [OF that consumed] by force
        moreover have "sink s \<noteq> None \<longrightarrow> shown_text (?here @ new) = deltas ((event # es) @ [e])"
          using y more es(4) by (auto simp: deltas_Cons)
        moreover have "events_read ?limit (?here @ new) = (event # es) @ [e]"
          by (subst events_read_append) (simp only: here(3) es(1) append.simps)
        ultimately show ?thesis using es(3,5) unfolding carried_def by blast
      qed
      moreover have "waiting_log (?here @ new) (max_response_events c - int (event_count c) + 1)"
        using here(2) IH(4) by (simp add: waiting_log_def)
      moreover have "w' = w @ ?here @ new" using here(1) IH(3) by simp
      moreover have "same_client s s'" using same(1) IH(1) by (rule same_client_trans)
      ultimately show ?thesis using same IH(2) resp by blast
    qed
  qed
qed

section \<open>Sending\<close>

definition payload_of :: "pydict \<Rightarrow> pystr" where
  "payload_of event = json_encode (PDict event)"

definition update_payloads :: "unicode_lib \<Rightarrow> client \<Rightarrow> pystr list" where
  "update_payloads lib s = (case session_update_event lib (settings s) of Inr e \<Rightarrow> [payload_of e] | Inl _ \<Rightarrow> [])"

definition turn_payloads :: "pystr \<Rightarrow> pystr list" where
  "turn_payloads prompt =
     (case build_user_turn_events prompt of Inr (a, b) \<Rightarrow> [payload_of a, payload_of b] | Inl _ \<Rightarrow> [])"

definition quiet :: "wire_log \<Rightarrow> bool" where
  "quiet new \<longleftrightarrow> \<not> list_ex is_opened new \<and> filter is_received new = [] \<and> shown_text new = []"

lemma quiet_events: "quiet new \<Longrightarrow> events_read limit new = []"
proof (induction new)
  case (Cons x new)
  then show ?case by (cases x) (auto simp: quiet_def)
qed simp

lemma send_event_cases:
  "send_event n s w event = (w', r) \<Longrightarrow>
     (\<exists>e. r = Inl e \<and> (w' = w \<or> w' = w @ [Unsent (payload_of event)])) \<or>
     r = Inr () \<and> connected s \<and> w' = w @ [Sent (payload_of event)]"
  unfolding send_event_def payload_of_def [symmetric] Let_def
  by (simp split: if_splits sum.splits option.splits) blast+

lemma send_event_spec:
  assumes "send_event n s w event = (w', r)"
  shows "\<exists>new rest. w' = w @ new \<and> quiet new \<and> payloads new @ rest = [payload_of event] \<and>
     (r = Inr () \<longrightarrow> rest = [] \<and> connected s)"
  using send_event_cases [OF assms]
proof (elim disjE exE conjE)
  fix e assume "r = Inl e" "w' = w"
  then show ?thesis by (intro exI [of _ "[]"] exI [of _ "[payload_of event]"]) (simp add: quiet_def)
next
  fix e assume "r = Inl e" "w' = w @ [Unsent (payload_of event)]"
  then show ?thesis by (intro exI [of _ "[Unsent (payload_of event)]"] exI [of _ "[]"]) (simp add: quiet_def)
next
  assume "r = Inr ()" "connected s" "w' = w @ [Sent (payload_of event)]"
  then show ?thesis by (intro exI [of _ "[Sent (payload_of event)]"] exI [of _ "[]"]) (simp add: quiet_def)
qed

lemma deliver_turn_spec:
  assumes "deliver_turn n s w a b = (w', r)"
  shows "\<exists>new rest. w' = w @ new \<and> quiet new \<and> payloads new @ rest = [payload_of a, payload_of b] \<and>
     (r = Inr () \<longrightarrow> rest = [] \<and> connected s)"
proof -
  obtain w1 x where first: "send_event n s w a = (w1, x)" by fastforce
  from send_event_spec [OF first] obtain new1 rest1 where new1: "w1 = w @ new1" "quiet new1"
    "payloads new1 @ rest1 = [payload_of a]" "x = Inr () \<longrightarrow> rest1 = [] \<and> connected s" by blast
  show ?thesis
  proof (cases x)
    case (Inl e)
    with assms first have "w' = w1" "r = Inl e" by (simp_all add: deliver_turn_def)
    moreover have "payloads new1 @ rest1 @ [payload_of b] = [payload_of a, payload_of b]"
      using arg_cong [OF new1(3), of "\<lambda>v. v @ [payload_of b]"] by simp
    ultimately show ?thesis using new1(1,2) by (intro exI [of _ new1] exI [of _ "rest1 @ [payload_of b]"]) simp
  next
    case (Inr y)
    with assms first have "send_event n s w1 b = (w', r)" by (simp add: deliver_turn_def)
    from send_event_spec [OF this] obtain new2 rest2 where new2: "w' = w1 @ new2" "quiet new2"
      "payloads new2 @ rest2 = [payload_of b]" "r = Inr () \<longrightarrow> rest2 = [] \<and> connected s" by blast
    have "payloads new1 = [payload_of a]" using new1(3,4) Inr by simp
    with new2(3) have "payloads (new1 @ new2) @ rest2 = [payload_of a, payload_of b]" by simp
    moreover have "quiet (new1 @ new2)" using new1(2) new2(2) by (simp add: quiet_def)
    moreover have "w' = w @ new1 @ new2" using new1(1) new2(1) by simp
    ultimately show ?thesis using new2(4) by (intro exI [of _ "new1 @ new2"] exI [of _ rest2]) simp
  qed
qed

section \<open>A turn on an open session\<close>

definition answered :: "client \<Rightarrow> wire_log \<Rightarrow> voice_response \<Rightarrow> bool" where
  "answered s new response \<longleftrightarrow>
     (\<exists>a t m c. make_collector (session_rate (settings s)) a t m = Inr c \<and> carried s c new response)"

lemma ready_turn_spec:
  assumes "ready_turn n s w prompt = (s', w', r)" and "make_config lib (settings s) = Inr (settings s)"
    and "response_event_limit (settings s) = PInt bound"
  shows "same_client s s' \<and> (resumable s \<longrightarrow> resumable s') \<and>
     (\<exists>sent waited rest. w' = w @ sent @ waited \<and> quiet sent \<and> waiting_log waited (bound + 1) \<and>
        payloads sent @ rest = turn_payloads prompt \<and>
        (\<forall>e. r = Inl e \<longrightarrow> shut s' \<or> build_user_turn_events prompt = Inl e \<and> s' = s \<and> w' = w) \<and>
        (\<forall>response. r = Inr response \<longrightarrow> rest = [] \<and> connected s' \<and> session_ready s' = session_ready s \<and>
           answered s waited response))"
proof (cases "build_user_turn_events prompt")
  case (Inl e)
  with assms show ?thesis
    by (auto simp: ready_turn_def turn_payloads_def quiet_def waiting_log_def make_config_Inr)
next
  case (Inr events)
  then obtain a b where build: "build_user_turn_events prompt = Inr (a, b)" by (cases events) auto
  then have turn: "turn_payloads prompt = [payload_of a, payload_of b]" by (simp add: turn_payloads_def)
  obtain w1 x where delivered: "deliver_turn n s w a b = (w1, x)" by fastforce
  from deliver_turn_spec [OF delivered] obtain sent rest where sent: "w1 = w @ sent" "quiet sent"
    "payloads sent @ rest = turn_payloads prompt" "x = Inr () \<longrightarrow> rest = [] \<and> connected s"
    unfolding turn by blast
  have bound: "100 \<le> bound" using assms(2,3) by (auto simp: make_config_Inr)
  show ?thesis
  proof (cases x)
    case failed: (Inl e)
    obtain s2 w2 where shut: "fail_closed s w1 = (s2, w2)" by fastforce
    with assms(1) build delivered failed have "s' = s2" "w' = w2" "\<exists>e. r = Inl e" by (auto simp: ready_turn_def)
    moreover from fail_closed_spec [OF shut] obtain new where new: "w2 = w1 @ new" "closing_log new" and
      fields: "shut s2" "same_client s s2" "resumable s2" by blast
    moreover have "waiting_log new (bound + 1)" using closing_log_simps [OF new(2)] bound by (simp add: waiting_log_def)
    ultimately show ?thesis using sent(1-3) by auto
  next
    case (Inr y)
    with assms(1) build delivered have collect: "collect_turn n s w1 = (s', w', r)" by (simp add: ready_turn_def)
    obtain audio chars where made: "make_collector (session_rate (settings s)) audio chars bound =
        Inr (new_collector (session_rate (settings s)) audio chars bound)"
      and limits: "audio_limit (settings s) = PInt audio" "transcript_limit (settings s) = PInt chars"
      using assms(2,3) by (auto simp: make_config_Inr make_collector_Inr)
    let ?c = "new_collector (session_rate (settings s)) audio chars bound"
    obtain s1 w2 z where received: "receive_response n s w1 ?c = (s1, w2, z)" by (metis prod_cases3)
    have start: "int (event_count ?c) \<le> max_response_events ?c" "max_response_events ?c = bound" "event_count ?c = 0"
      using bound by (simp_all add: new_collector_def)
    from receive_response_spec [OF received start(1)] obtain waited where
      waited: "same_client s s1" "resumable s \<longrightarrow> resumable s1" "w2 = w1 @ waited" "waiting_log waited (bound + 1)"
        "\<forall>response. z = Inr response \<longrightarrow> connected s1 \<and> session_ready s1 = session_ready s \<and> carried s ?c waited response"
      by (auto simp: start(2,3))
    show ?thesis
    proof (cases z)
      case (Inl e)
      obtain s3 w3 where shut: "fail_closed s1 w2 = (s3, w3)" by fastforce
      with collect received made limits assms(3) Inl have "s' = s3" "w' = w3" "r = Inl e"
        by (simp_all add: collect_turn_def limit_value_def)
      moreover from fail_closed_spec [OF shut] obtain new where new: "w3 = w2 @ new" "closing_log new" and
        fields: "shut s3" "same_client s1 s3" "resumable s3" by blast
      moreover have "waiting_log (waited @ new) (bound + 1)"
        using closing_log_simps [OF new(2)] waited(4) by (simp add: waiting_log_def)
      moreover have "w' = w @ sent @ waited @ new" using calculation waited(3) sent(1) by simp
      moreover have "same_client s s3" using waited(1) fields(2) by (rule same_client_trans)
      ultimately show ?thesis using sent(2,3) by blast
    next
      case ok: (Inr response)
      with collect received made limits assms(3) have "s' = s1" "w' = w2" "r = Inr response"
        by (simp_all add: collect_turn_def limit_value_def)
      moreover have "answered s waited response" using waited(5) ok made unfolding answered_def by blast
      ultimately show ?thesis using ok sent waited(1-5) Inr by auto
    qed
  qed
qed

section \<open>Connecting\<close>

lemma wait_spec:
  assumes "wait_for_session_ready n s w = Some (s', w', r)"
  shows "same_client s s' \<and> (resumable s \<longrightarrow> resumable s') \<and>
     (\<exists>new. w' = w @ new \<and> payloads new = [] \<and> \<not> list_ex is_opened new) \<and>
     (r = Inr () \<longrightarrow> connected s' \<and> session_ready s')"
proof -
  define P where "P = (\<lambda>(n :: net) s w (s', w', r :: exc + unit).
     same_client s s' \<and> (resumable s \<longrightarrow> resumable s') \<and>
     (\<exists>new. w' = w @ new \<and> payloads new = [] \<and> \<not> list_ex is_opened new) \<and>
     (r = Inr () \<longrightarrow> connected s' \<and> session_ready s'))"
  have "P n s w (s', w', r)"
    using assms
  proof (rule wait_for_session_ready.raw_induct [where P = P, rotated])
    fix wait and n :: net and s w res
    assume IH: "\<And>n s w res. wait n s w = Some res \<Longrightarrow> P n s w res"
    assume body: "(case receive_event n s w of
        (s1, w1, Inl e) \<Rightarrow> Some (s1, w1, Inl e)
      | (s1, w1, Inr event) \<Rightarrow>
          (case capture_conversation_id s1 event of
             Inl e \<Rightarrow> Some (s1, w1, Inl e)
           | Inr s2 \<Rightarrow>
               if dget event (u ''type'') = PStr (u ''error'') then Some (s2, w1, Inl (remote_error event))
               else if dget event (u ''type'') = PStr (u ''session.updated'')
               then Some (s2\<lparr>session_ready := True\<rparr>, w1, Inr ())
               else wait n s2 w1)) = Some res"
    obtain s1 w1 x where got: "receive_event n s w = (s1, w1, x)" by (metis prod_cases3)
    show "P n s w res"
    proof (cases x)
      case (Inl e)
      with body got receive_event_Inl [OF got [unfolded Inl]] show ?thesis by (auto simp: P_def)
    next
      case (Inr event)
      then obtain raw where s1: "s1 = s" "connected s" "w1 = w @ [Received (Inr raw)]"
        using receive_event_Inr got by blast
      show ?thesis
      proof (cases "capture_conversation_id s event")
        case (Inl e)
        with body got Inr s1 show ?thesis by (auto simp: P_def)
      next
        case captured: (Inr s2)
        note spec = capture_Inr [OF captured]
        consider (now) "res = (s2, w1, Inl (remote_error event)) \<or> res = (s2\<lparr>session_ready := True\<rparr>, w1, Inr ())"
          | (later) "wait n s2 w1 = Some res"
          using body got Inr s1 captured by (auto split: if_splits)
        then show ?thesis
        proof cases
          case now
          then show ?thesis
          proof
            assume "res = (s2, w1, Inl (remote_error event))"
            with spec s1 show ?thesis by (simp add: P_def)
          next
            assume "res = (s2\<lparr>session_ready := True\<rparr>, w1, Inr ())"
            with spec s1 show ?thesis by (simp add: P_def)
          qed
        next
          case later
          obtain s3 w3 r3 where res: "res = (s3, w3, r3)" by (metis prod_cases3)
          from IH [OF later] obtain new where "w3 = w1 @ new" "payloads new = []" "\<not> list_ex is_opened new"
            "same_client s2 s3" "resumable s2 \<longrightarrow> resumable s3" "r3 = Inr () \<longrightarrow> connected s3 \<and> session_ready s3"
            by (auto simp: P_def res)
          with spec s1 show ?thesis
            by (auto simp: P_def res intro: same_client_trans intro!: exI [of _ "Received (Inr raw) # new"])
        qed
      qed
    qed
  qed
  then show ?thesis by (simp add: P_def)
qed

lemma open_session_spec:
  assumes "open_session lib n s w url = Some (s', w', r)"
  shows "same_client s s' \<and> (resumable s \<longrightarrow> resumable s') \<and>
     (\<exists>new rest. w' = w @ new \<and> length (filter is_opened new) \<le> 1 \<and> payloads new @ rest = update_payloads lib s \<and>
       (r = Inr () \<longrightarrow> rest = [] \<and> connected s' \<and> session_ready s'))"
proof (cases "opens n w")
  case (Some e)
  with assms show ?thesis by (auto simp: open_session_def)
next
  case None
  let ?s1 = "s\<lparr>connected := True\<rparr>" and ?w1 = "w @ [Opened url]"
  have s1: "same_client s ?s1" "resumable ?s1 \<longleftrightarrow> resumable s" by (simp_all add: same_client_def resumable_def)
  show ?thesis
  proof (cases "session_update_event lib (settings s)")
    case (Inl e)
    with None assms s1 show ?thesis by (auto simp: open_session_def Let_def)
  next
    case (Inr event)
    then have update: "update_payloads lib s = [payload_of event]" by (simp add: update_payloads_def)
    obtain w2 x where sent: "send_event n ?s1 ?w1 event = (w2, x)" by fastforce
    from send_event_spec [OF sent] obtain new rest where new: "w2 = ?w1 @ new" "quiet new"
      "payloads new @ rest = [payload_of event]" "x = Inr () \<longrightarrow> rest = [] \<and> connected ?s1" by blast
    then have one: "length (filter is_opened (Opened url # new)) = 1"
      by (auto simp: quiet_def list_ex_iff filter_empty_conv)
    show ?thesis
    proof (cases x)
      case (Inl e)
      with None assms Inr sent have "s' = ?s1" "w' = w2" "r = Inl e" by (simp_all add: open_session_def Let_def)
      moreover have "w2 = w @ Opened url # new" "payloads (Opened url # new) @ rest = update_payloads lib s"
        using new(1,3) update Inl by simp_all
      ultimately show ?thesis
        using s1 one by (intro conjI exI [of _ "Opened url # new"] exI [of _ rest]) simp_all
    next
      case x: (Inr y)
      with None assms Inr sent have "wait_for_session_ready n ?s1 w2 = Some (s', w', r)"
        by (simp add: open_session_def Let_def)
      from wait_spec [OF this] obtain v where v: "same_client ?s1 s'" "resumable ?s1 \<longrightarrow> resumable s'" "w' = w2 @ v"
        "payloads v = []" "\<not> list_ex is_opened v" "r = Inr () \<longrightarrow> connected s' \<and> session_ready s'" by blast
      have "w' = w @ Opened url # new @ v" using v(3) new(1) by simp
      moreover have "length (filter is_opened (Opened url # new @ v)) \<le> 1"
        using one v(5) by (auto simp: list_ex_iff filter_empty_conv)
      moreover have "payloads (Opened url # new @ v) = update_payloads lib s" using new(3,4) x v(4) update by simp
      moreover have "same_client s s'" using s1(1) v(1) by (rule same_client_trans)
      ultimately show ?thesis
        using s1(2) v(2,6) by (intro conjI exI [of _ "Opened url # new @ v"] exI [of _ "[]"]) simp_all
    qed
  qed
qed

lemma connect_spec:
  assumes "connect lib n s w = Some (s', w', r)" and "\<not> connected s"
  shows "same_client s s' \<and> (resumable s \<longrightarrow> resumable s') \<and>
     (\<exists>new rest. w' = w @ new \<and> length (filter is_opened new) \<le> 1 \<and> payloads new @ rest = update_payloads lib s \<and>
       (r = Inr () \<longrightarrow> rest = [] \<and> connected s' \<and> session_ready s')) \<and>
     (\<forall>e. r = Inl e \<longrightarrow> shut s' \<or> s' = s \<and> w' = w)"
proof -
  consider (kept) e where "s' = s" "w' = w" "r = Inl e"
    | (opened) url s1 w1 x where "open_session lib n s w url = Some (s1, w1, x)"
        "x = Inr () \<and> (s', w', r) = (s1, w1, Inr ()) \<or>
         (\<exists>e s2 w2. x = Inl e \<and> fail_closed s1 w1 = (s2, w2) \<and> (s', w', r) = (s2, w2, Inl e))"
    using assms by (auto simp: connect_def split: if_splits sum.splits option.splits prod.splits)
  then show ?thesis
  proof cases
    case kept
    then show ?thesis by (auto intro!: exI [of _ "[]"])
  next
    case opened
    from open_session_spec [OF opened(1)] obtain new rest where spec: "same_client s s1" "resumable s \<longrightarrow> resumable s1"
      "w1 = w @ new" "length (filter is_opened new) \<le> 1" "payloads new @ rest = update_payloads lib s"
      "x = Inr () \<longrightarrow> rest = [] \<and> connected s1 \<and> session_ready s1" by blast
    from opened(2) show ?thesis
    proof
      assume "x = Inr () \<and> (s', w', r) = (s1, w1, Inr ())"
      with spec show ?thesis by auto
    next
      assume "\<exists>e s2 w2. x = Inl e \<and> fail_closed s1 w1 = (s2, w2) \<and> (s', w', r) = (s2, w2, Inl e)"
      then obtain e where e: "fail_closed s1 w1 = (s', w')" "r = Inl e" by auto
      from fail_closed_spec [OF e(1)] obtain v where v: "shut s'" "same_client s1 s'" "resumable s'" "w' = w1 @ v"
        "closing_log v" by blast
      have "length (filter is_opened v) = 0" using closing_log_simps [OF v(5)] by (simp add: list_ex_iff filter_empty_conv)
      with spec v e(2) closing_log_simps [OF v(5)] same_client_trans [OF spec(1) v(2)] show ?thesis
        by (auto intro!: exI [of _ "new @ v"])
    qed
  qed
qed

section \<open>A turn\<close>

text \<open>A client as its owner may use it: made from an accepted configuration, then connected, asked for
  turns and closed in any order, whatever the server does.\<close>

inductive client_run :: "unicode_lib \<Rightarrow> net \<Rightarrow> client \<Rightarrow> wire_log \<Rightarrow> bool" for lib n where
  made: "make_config lib config = Inr config \<Longrightarrow> make_client api_key config agent allow f = Inr s \<Longrightarrow>
    client_run lib n s []"
| connected: "client_run lib n s w \<Longrightarrow> connect lib n s w = Some (s', w', r) \<Longrightarrow> client_run lib n s' w'"
| turned: "client_run lib n s w \<Longrightarrow> run_turn lib n s w prompt = Some (s', w', r) \<Longrightarrow> client_run lib n s' w'"
| closed: "client_run lib n s w \<Longrightarrow> close s w = (s', w') \<Longrightarrow> client_run lib n s' w'"

definition client_ok :: "unicode_lib \<Rightarrow> client \<Rightarrow> bool" where
  "client_ok lib s \<longleftrightarrow>
     make_config lib (settings s) = Inr (settings s) \<and> connected s = session_ready s \<and> resumable s"

lemma client_ok_bound:
  assumes "client_ok lib s"
  obtains bound where "response_event_limit (settings s) = PInt bound" "limit_value (response_event_limit (settings s)) = bound"
    "100 \<le> bound" "bound \<le> 100000"
  using assms unfolding client_ok_def by (auto simp: make_config_Inr limit_value_def)

lemma connect_connected: "connected s \<Longrightarrow> connect lib n s w = Some (s, w, Inr ())"
  by (simp add: connect_def)

lemma connect_ok:
  assumes "client_ok lib s" and "connect lib n s w = Some (s', w', r)"
  shows "client_ok lib s' \<and> same_client s s'"
proof (cases "connected s")
  case True
  with assms show ?thesis by (simp add: connect_connected)
next
  case False
  from connect_spec [OF assms(2) False] show ?thesis
    using assms(1) by (cases r) (auto simp: client_ok_def same_client_def shut_def)
qed

lemma ready_turn_ok:
  assumes "client_ok lib s" and "connected s" and "ready_turn n s w prompt = (s', w', r)"
  shows "client_ok lib s' \<and> same_client s s'"
proof -
  obtain bound where "response_event_limit (settings s) = PInt bound" using assms(1) by (rule client_ok_bound)
  from ready_turn_spec [OF assms(3) _ this, of lib] assms(1,2) show ?thesis
    by (cases r) (auto simp: client_ok_def same_client_def shut_def)
qed

lemma run_turn_open: "client_ok lib s \<Longrightarrow> connected s \<Longrightarrow> run_turn lib n s w prompt = Some (ready_turn n s w prompt)"
  by (simp add: run_turn_def client_ok_def)

lemma run_turn_cases:
  assumes "run_turn lib n s w prompt = Some (s', w', r)" and "client_ok lib s"
  obtains (opened) "connected s" "ready_turn n s w prompt = (s', w', r)"
  | (refused) e where "\<not> connected s" "connect lib n s w = Some (s', w', Inl e)" "r = Inl e"
  | (joined) s1 w1 where "\<not> connected s" "connect lib n s w = Some (s1, w1, Inr ())" "connected s1" "client_ok lib s1"
      "same_client s s1" "ready_turn n s1 w1 prompt = (s', w', r)"
proof (cases "connected s")
  case True
  with assms show ?thesis by (intro opened) (simp_all add: run_turn_open)
next
  case False
  then obtain s1 w1 x where joins: "connect lib n s w = Some (s1, w1, x)"
    using assms(1) by (auto simp: run_turn_def split: option.splits)
  show ?thesis
  proof (cases x)
    case (Inl e)
    with False assms(1) joins show ?thesis by (intro refused) (auto simp: run_turn_def)
  next
    case (Inr y)
    from connect_spec [OF joins False] connect_ok [OF assms(2) joins] Inr False assms(1) joins show ?thesis
      by (intro joined) (auto simp: run_turn_def)
  qed
qed

lemma run_turn_ok:
  assumes "client_ok lib s" and "run_turn lib n s w prompt = Some (s', w', r)"
  shows "client_ok lib s' \<and> same_client s s'"
  using assms(2,1)
proof (cases rule: run_turn_cases)
  case opened
  then show ?thesis by (rule ready_turn_ok [OF assms(1)])
next
  case refused
  then show ?thesis using connect_ok [OF assms(1)] by blast
next
  case joined
  with ready_turn_ok [OF joined(4,3,6)] same_client_trans [OF joined(5)] show ?thesis by blast
qed

lemma client_run_ok: "client_run lib n s w \<Longrightarrow> client_ok lib s"
proof (induction rule: client_run.induct)
  case (made config api_key agent allow f s)
  then show ?case by (auto simp: make_client_def bindR_Inr_iff client_ok_def resumable_def)
next
  case (connected s w s' w' r)
  then show ?case using connect_ok by blast
next
  case (turned s w prompt s' w' r)
  then show ?case using run_turn_ok by blast
next
  case (closed s w s' w')
  then have "s' = s\<lparr>connected := False, session_ready := False\<rparr>" using close_spec by blast
  with closed.IH show ?case by (simp add: client_ok_def resumable_def)
qed

lemma waiting_log_le: "waiting_log new bound \<Longrightarrow> bound \<le> bound' \<Longrightarrow> waiting_log new bound'"
  by (simp add: waiting_log_def)

lemma run_turn_spec:
  assumes "client_ok lib s" and "run_turn lib n s w prompt = Some (s', w', r)"
  shows "\<exists>joining sent waited rest. w' = w @ joining @ sent @ waited \<and> quiet sent \<and>
     waiting_log waited (limit_value (response_event_limit (settings s)) + 1) \<and>
     (if connected s then joining = [] else length (filter is_opened joining) \<le> 1) \<and>
     payloads joining @ payloads sent @ rest = (if connected s then [] else update_payloads lib s) @ turn_payloads prompt \<and>
     (\<forall>e. r = Inl e \<longrightarrow> shut s' \<or> s' = s \<and> w' = w \<or> build_user_turn_events prompt = Inl e \<and> sent @ waited = []) \<and>
     (\<forall>response. r = Inr response \<longrightarrow> rest = [] \<and> connected s' \<and>
        payloads sent = turn_payloads prompt \<and> answered s waited response)"
  using assms(2,1)
proof (cases rule: run_turn_cases)
  case opened
  obtain bound where bound: "response_event_limit (settings s) = PInt bound"
      "limit_value (response_event_limit (settings s)) = bound" using assms(1) by (rule client_ok_bound)
  have made: "make_config lib (settings s) = Inr (settings s)" using assms(1) by (simp add: client_ok_def)
  from ready_turn_spec [OF opened(2) made bound(1)] obtain sent waited rest where
    "w' = w @ sent @ waited" "quiet sent" "waiting_log waited (bound + 1)" "payloads sent @ rest = turn_payloads prompt"
    "\<forall>e. r = Inl e \<longrightarrow> shut s' \<or> build_user_turn_events prompt = Inl e \<and> s' = s \<and> w' = w"
    "\<forall>response. r = Inr response \<longrightarrow> rest = [] \<and> connected s' \<and> answered s waited response" by blast
  with opened bound(2) show ?thesis
    by (intro exI [of _ "[]"] exI [of _ sent] exI [of _ waited] exI [of _ rest]) auto
next
  case (refused e)
  from connect_spec [OF refused(2,1)] obtain new rest where "w' = w @ new" "length (filter is_opened new) \<le> 1"
    "payloads new @ rest = update_payloads lib s" "shut s' \<or> s' = s \<and> w' = w" by blast
  moreover have "waiting_log [] (limit_value (response_event_limit (settings s)) + 1)" "quiet []"
    using assms(1) by (auto elim!: client_ok_bound simp: waiting_log_def quiet_def)
  moreover have "payloads new @ payloads [] @ rest @ turn_payloads prompt = update_payloads lib s @ turn_payloads prompt"
    using calculation(3) by simp
  ultimately show ?thesis using refused(1,3)
    by (intro exI [of _ new] exI [of _ "[]"] exI [of _ "rest @ turn_payloads prompt"]) auto
next
  case (joined s1 w1)
  have same: "settings s1 = settings s" "sink s1 = sink s" using joined(5) by (simp_all add: same_client_def)
  obtain bound where bound: "response_event_limit (settings s) = PInt bound"
      "limit_value (response_event_limit (settings s)) = bound" using assms(1) by (rule client_ok_bound)
  have made: "make_config lib (settings s) = Inr (settings s)" using assms(1) by (simp add: client_ok_def)
  from connect_spec [OF joined(2,1)] obtain new where new: "w1 = w @ new" "length (filter is_opened new) \<le> 1"
    "payloads new = update_payloads lib s" by auto
  from ready_turn_spec [OF joined(6), unfolded same, OF made bound(1)] obtain sent waited rest where
    turn: "w' = w1 @ sent @ waited" "quiet sent" "waiting_log waited (bound + 1)" "payloads sent @ rest = turn_payloads prompt"
    "\<forall>e. r = Inl e \<longrightarrow> shut s' \<or> build_user_turn_events prompt = Inl e \<and> s' = s1 \<and> w' = w1"
    "\<forall>response. r = Inr response \<longrightarrow> rest = [] \<and> connected s' \<and> answered s1 waited response" by blast
  have "answered s1 waited response = answered s waited response" for response
    by (simp add: answered_def carried_def same)
  with turn new joined(1) bound(2) show ?thesis
    by (intro exI [of _ new] exI [of _ sent] exI [of _ waited] exI [of _ rest]) auto
qed

text \<open>The parts of a turn's log.\<close>

definition turn_log :: "unicode_lib \<Rightarrow> client \<Rightarrow> wire_log \<Rightarrow> pystr \<Rightarrow> client \<times> wire_log \<times> (exc + voice_response) \<Rightarrow>
    wire_log \<Rightarrow> wire_log \<Rightarrow> wire_log \<Rightarrow> pystr list \<Rightarrow> bool" where
  "turn_log lib s w prompt res joining sent waited rest \<longleftrightarrow> (case res of (s', w', r) \<Rightarrow>
     w' = w @ joining @ sent @ waited \<and> quiet sent \<and>
     waiting_log waited (limit_value (response_event_limit (settings s)) + 1) \<and>
     (if connected s then joining = [] else length (filter is_opened joining) \<le> 1) \<and>
     payloads joining @ payloads sent @ rest = (if connected s then [] else update_payloads lib s) @ turn_payloads prompt \<and>
     (\<forall>e. r = Inl e \<longrightarrow> shut s' \<or> s' = s \<and> w' = w \<or> build_user_turn_events prompt = Inl e \<and> sent @ waited = []) \<and>
     (\<forall>response. r = Inr response \<longrightarrow> rest = [] \<and> connected s' \<and>
        payloads sent = turn_payloads prompt \<and> answered s waited response))"

lemma run_turn_log:
  assumes "client_ok lib s" and "run_turn lib n s w prompt = Some (s', w', r)"
  obtains joining sent waited rest where "turn_log lib s w prompt (s', w', r) joining sent waited rest"
proof -
  have "\<exists>joining sent waited rest. turn_log lib s w prompt (s', w', r) joining sent waited rest"
    using run_turn_spec [OF assms] by (simp only: turn_log_def prod.case)
  then show ?thesis using that by blast
qed

lemma turn_logD:
  assumes "turn_log lib s w prompt (s', w', r) joining sent waited rest"
  shows "w' = w @ joining @ sent @ waited" and "quiet sent"
    and "waiting_log waited (limit_value (response_event_limit (settings s)) + 1)"
    and "connected s \<Longrightarrow> joining = []" and "length (filter is_opened joining) \<le> (if connected s then 0 else 1)"
    and "payloads joining @ payloads sent @ rest = (if connected s then [] else update_payloads lib s) @ turn_payloads prompt"
    and "r = Inl e \<Longrightarrow> shut s' \<or> s' = s \<and> w' = w \<or> build_user_turn_events prompt = Inl e \<and> sent @ waited = []"
    and "r = Inr response \<Longrightarrow> rest = [] \<and> connected s' \<and> payloads sent = turn_payloads prompt \<and> answered s waited response"
  using assms unfolding turn_log_def prod.case by (simp, simp, simp, simp, simp split: if_splits, simp, blast, simp)

lemma answered_exact:
  assumes "answered s new response"
  shows "\<exists>es e. events_read (event_limit (settings s)) new = es @ [e] \<and>
     List.map_filter created_id_of es = [voice_response_id response] \<and>
     transcript response = deltas es \<and> pcm_audio response = audio_of es \<and>
     done_status e = Inr (voice_status response) \<and>
     voice_status response \<in> {None, Some (u ''completed'')} \<and> voice_sample_rate response = session_rate (settings s) \<and>
     (sink s \<noteq> None \<longrightarrow> shown_text new = transcript response)"
proof -
  from assms obtain a t m c0 es e c1 c2 where c0: "make_collector (session_rate (settings s)) a t m = Inr c0"
    and none: "completion_error response = None" and es: "events_read (event_limit (settings s)) new = es @ [e]"
    and run: "\<forall>c es0. collecting c es0 c0 \<longrightarrow> collecting c (es0 @ es) c1"
    and fin: "consume c1 e = (c2, Inr (Some response))"
    and shown: "sink s \<noteq> None \<longrightarrow> shown_text new = deltas (es @ [e])"
    unfolding answered_def carried_def by blast
  have "collecting c0 es c1" using run collecting.start [of c0] by force
  note exact = completed_exact [OF c0 this fin]
  then have "delta_of e = None" by (simp add: delta_of_def not_transcript one_of_names)
  then have "deltas (es @ [e]) = deltas es" by (simp add: deltas_def map_filter_def)
  moreover have "voice_status response \<in> {None, Some (u ''completed'')}"
    using none by (auto simp: completion_error_def split: option.splits if_splits)
  ultimately show ?thesis using exact es shown by auto
qed

section \<open>Guarantees\<close>

text \<open>
  C27 Between operations a client is either closed or has an open and configured session, its
  configuration is an accepted one, and it holds a conversation id only if resumption is enabled, and
  then a well-formed one, whatever the server sent and however earlier turns ended.
\<close>

theorem client_invariant:
  assumes "client_run lib n s w"
  shows "connected s = session_ready s \<and> make_config lib (settings s) = Inr (settings s) \<and>
     (\<forall>i. conversation s = Some i \<longrightarrow> remote_id i \<and> truthy (resumption_enabled (settings s)))"
  using client_run_ok [OF assms] by (simp add: client_ok_def resumable_def)

text \<open>
  C25 A turn is never replayed: it opens at most one connection, and none if a session is open; what it
  hands to the websocket is a prefix of the session configuration (for a new connection) followed by the
  two events of the prompt, each once and in this order; and if it succeeds, all of it.
\<close>

theorem turn_sent_once:
  assumes "client_run lib n s w" and "run_turn lib n s w prompt = Some (s', w', r)"
  shows "\<exists>new rest. w' = w @ new \<and> length (filter is_opened new) \<le> (if connected s then 0 else 1) \<and>
     payloads new @ rest = (if connected s then [] else update_payloads lib s) @ turn_payloads prompt \<and>
     (\<forall>response. r = Inr response \<longrightarrow> rest = [])"
proof -
  obtain joining sent waited rest where "turn_log lib s w prompt (s', w', r) joining sent waited rest"
    using client_run_ok [OF assms(1)] assms(2) by (rule run_turn_log)
  note log = turn_logD [OF this]
  have "filter is_opened (sent @ waited) = []"
    using log(2,3) by (auto simp: quiet_def waiting_log_def list_ex_iff filter_empty_conv)
  then have "length (filter is_opened (joining @ sent @ waited)) \<le> (if connected s then 0 else 1)" using log(5) by simp
  moreover have "payloads (joining @ sent @ waited) @ rest =
      (if connected s then [] else update_payloads lib s) @ turn_payloads prompt"
    using log(3,6) by (simp add: waiting_log_def)
  ultimately show ?thesis using log(1,8) by blast
qed

text \<open>
  C26 A turn fails closed: after an error the client is closed and has forgotten the conversation, unless
  nothing was done at all, or the prompt itself was refused, and then none of it was sent.
\<close>

theorem failed_turn_shuts:
  assumes "client_run lib n s w" and "run_turn lib n s w prompt = Some (s', w', Inl e)"
  shows "(\<not> connected s' \<and> \<not> session_ready s' \<and> conversation s' = None) \<or> (s' = s \<and> w' = w) \<or>
     (build_user_turn_events prompt = Inl e \<and>
        (\<exists>joining. w' = w @ joining \<and> (connected s \<longrightarrow> joining = []) \<and> turn_payloads prompt = []))"
proof -
  obtain joining sent waited rest where "turn_log lib s w prompt (s', w', Inl e) joining sent waited rest"
    using client_run_ok [OF assms(1)] assms(2) by (rule run_turn_log)
  note log = turn_logD [OF this]
  from log(7) [OF refl] show ?thesis
  proof (elim disjE conjE)
    assume "build_user_turn_events prompt = Inl e" "sent @ waited = []"
    then show ?thesis using log(1,4) by (simp add: turn_payloads_def)
  qed (simp_all add: shut_def)
qed

text \<open>
  C28 A turn on an open session returns, with a response or an error, whatever the server and the network
  do, and it reads at most one frame more than the response events the configuration allows.
\<close>

theorem open_turn_returns:
  assumes "client_run lib n s w" and "connected s"
  shows "\<exists>s' new r. run_turn lib n s w prompt = Some (s', w @ new, r) \<and>
     int (length (filter is_received new)) \<le> limit_value (response_event_limit (settings s)) + 1"
proof -
  note ok = client_run_ok [OF assms(1)]
  obtain s' w' r where turn: "ready_turn n s w prompt = (s', w', r)" by (metis prod_cases3)
  then have run: "run_turn lib n s w prompt = Some (s', w', r)" using run_turn_open [OF ok assms(2)] by simp
  obtain joining sent waited rest where "turn_log lib s w prompt (s', w', r) joining sent waited rest"
    using ok run by (rule run_turn_log)
  note log = turn_logD [OF this]
  have "w' = w @ sent @ waited" using log(1,4) assms(2) by simp
  moreover have "int (length (filter is_received (sent @ waited))) \<le> limit_value (response_event_limit (settings s)) + 1"
    using log(2,3) by (simp add: quiet_def waiting_log_def)
  ultimately show ?thesis using run by blast
qed

text \<open>
  C29 What a turn returns is what was received for it: after the prompt was sent, and nothing else, the
  frames read are the events of one response with its id, its transcript and audio are their deltas and
  chunks in order, it ended as completed or without a status, and the live text shown is the transcript.
\<close>

theorem turn_response_carried:
  assumes "client_run lib n s w" and "run_turn lib n s w prompt = Some (s', w', Inr response)"
  shows "\<exists>joining turn es e. w' = w @ joining @ turn \<and> (connected s \<longrightarrow> joining = []) \<and>
     payloads joining = (if connected s then [] else update_payloads lib s) \<and> payloads turn = turn_payloads prompt \<and>
     events_read (event_limit (settings s)) turn = es @ [e] \<and>
     List.map_filter created_id_of es = [voice_response_id response] \<and>
     transcript response = deltas es \<and> pcm_audio response = audio_of es \<and>
     done_status e = Inr (voice_status response) \<and>
     voice_status response \<in> {None, Some (u ''completed'')} \<and> voice_sample_rate response = session_rate (settings s) \<and>
     (sink s \<noteq> None \<longrightarrow> shown_text turn = transcript response)"
proof -
  obtain joining sent waited rest where "turn_log lib s w prompt (s', w', Inr response) joining sent waited rest"
    using client_run_ok [OF assms(1)] assms(2) by (rule run_turn_log)
  note log = turn_logD [OF this]
  have parts: "payloads sent = turn_payloads prompt" "answered s waited response" "payloads waited = []"
    "payloads joining = (if connected s then [] else update_payloads lib s)"
    using log(3,6) log(8) [OF refl] by (auto simp: waiting_log_def)
  have sent: "events_read (event_limit (settings s)) sent = []" "shown_text sent = []"
    using log(2) quiet_events by (simp_all add: quiet_def)
  from answered_exact [OF parts(2)] obtain es e where
    "events_read (event_limit (settings s)) waited = es @ [e]"
    "List.map_filter created_id_of es = [voice_response_id response]"
    "transcript response = deltas es" "pcm_audio response = audio_of es"
    "done_status e = Inr (voice_status response)" "voice_status response \<in> {None, Some (u ''completed'')}"
    "voice_sample_rate response = session_rate (settings s)"
    "sink s \<noteq> None \<longrightarrow> shown_text waited = transcript response" by blast
  with log(1,4) parts(1,3,4) sent show ?thesis
    by (intro exI [of _ joining] exI [of _ "sent @ waited"] exI [of _ es] exI [of _ e]) simp
qed

end
