(* ===== verification/Client_Samples.thy ===== *)
theory Client_Samples
  imports Client_Laws
begin

text \<open>
  A client that talks to a friendly server, for the witnesses of the client's guarantees; and a server
  that never configures the session, with which connecting does not return.
\<close>

section \<open>A friendly server\<close>

definition event_frame :: "pydict \<Rightarrow> frame" where
  "event_frame e = TextFrame (json_encode (PDict e))"

definition short_event :: "pydict \<Rightarrow> bool" where
  "short_event e \<longleftrightarrow> json_ok (PDict e) \<and> is_ascii (json_encode (PDict e)) \<and> length (json_encode (PDict e)) \<le> 1024 \<and>
     (\<exists>t. dget e (u ''type'') = PStr t \<and> t \<noteq> [])"

lemma short_event_parsed:
  assumes "short_event e" and "1024 \<le> limit" and "limit \<le> 16777216"
  shows "parse_server_event (event_frame e) (PInt limit) = Inr e"
proof -
  have ascii: "is_ascii (json_encode (PDict e))" using assms(1) by (simp add: short_event_def del: json_encode.simps)
  then have "length (utf8_bytes (json_encode (PDict e))) = length (json_encode (PDict e))"
    by (simp only: utf8_bytes_ascii length_map)
  with assms ascii show ?thesis
    by (auto simp: event_frame_def short_event_def is_ascii_encodable simp del: json_encode.simps intro!: parse_encoded_event)
qed

lemma sample_events_short: "short_event sample_event" "short_event sample_created" "short_event sample_done"
  by (simp_all add: short_event_def sample_event_def sample_created_def sample_done_def voice_event_def
      json_str_def json_escape_def u_def is_ascii_def)

definition sample_reply :: "nat \<Rightarrow> pydict" where
  "sample_reply i = (if i = 0 then sample_event else if i = 1 then sample_created else sample_done)"

definition sample_net :: net where
  "sample_net =
     \<lparr>installed = True, opens = (\<lambda>_. None), sends = (\<lambda>_. None),
      receives = (\<lambda>w. Inr (event_frame (sample_reply (length (filter is_received w)))))\<rparr>"

definition sample_client :: client where
  "sample_client =
     \<lparr>settings = default_config, client_agent = None, allow_agent = False, sink = None, conversation = None,
      connected = False, session_ready = False\<rparr>"

lemma default_url: "\<exists>url. websocket_url default_config None None False = Inr url"
  by (simp add: websocket_url_def conversation_param_def agent_param_def urlencode_def quote_plus_def encode_utf8_def
      default_config_def)

lemma sample_client_run: "client_run plain_unicode sample_net sample_client []"
proof (rule client_run.made [OF default_config_accepted])
  have "strip (u ''key'') \<noteq> []" by (rule strip_letter [of 107]) (simp_all add: u_def is_space_def)
  then show "make_client (u ''key'') default_config None False None = Inr sample_client"
    using default_url by (auto simp: make_client_def validate_api_key_def sample_client_def u_def is_space_def)
qed

definition small_payload :: "pydict \<Rightarrow> bool" where
  "small_payload e \<longleftrightarrow> is_ascii (json_encode (PDict e)) \<and> length (json_encode (PDict e)) \<le> 2000000"

lemma small_sent:
  assumes "small_payload e" and "connected s" and "settings s = default_config"
  shows "send_event sample_net s w e = (w @ [Sent (payload_of e)], Inr ())"
proof -
  have ascii: "is_ascii (json_encode (PDict e))" using assms(1) by (simp add: small_payload_def del: json_encode.simps)
  then have "encode_utf8 (json_encode (PDict e)) = Inr (map byte (json_encode (PDict e)))"
    by (simp add: encode_utf8_def is_ascii_encodable utf8_bytes_ascii del: json_encode.simps)
  with assms show ?thesis
    by (simp add: send_event_def payload_of_def small_payload_def Let_def sample_net_def default_config_def limit_value_def
        del: json_encode.simps)
qed

definition plain_text :: "pystr \<Rightarrow> bool" where
  "plain_text s \<longleftrightarrow> list_all (\<lambda>c. 32 \<le> c \<and> c < 128 \<and> c \<noteq> 34 \<and> c \<noteq> 92) s"

lemma json_str_plain: "plain_text s \<Longrightarrow> json_str s = 34 # s @ [34]"
proof -
  have "plain_text s \<Longrightarrow> concat (map json_escape s) = s"
    by (induction s) (simp_all add: plain_text_def json_escape_def)
  then show "plain_text s \<Longrightarrow> json_str s = 34 # s @ [34]" by (simp add: json_str_def)
qed

lemma plain_instructions: "plain_text DEFAULT_INSTRUCTIONS" "length DEFAULT_INSTRUCTIONS < 500"
  by (simp_all add: plain_text_def DEFAULT_INSTRUCTIONS_def u_def)

lemma plain_ascii: "plain_text s \<Longrightarrow> is_ascii s"
  by (simp add: plain_text_def is_ascii_def list_all_iff)

lemma plain_u [simp]: "plain_text (u cs) = list_all (\<lambda>c. 32 \<le> c \<and> c < 128 \<and> c \<noteq> 34 \<and> c \<noteq> 92) (u cs)"
  by (simp add: plain_text_def)

lemma default_update: "\<exists>e. session_update_event plain_unicode default_config = Inr e \<and> small_payload e"
  using plain_instructions plain_ascii [OF plain_instructions(1)]
  by (simp add: session_update_event_def effective_instructions_def compose_session_instructions_def default_config_def
      small_payload_def json_str_plain [OF plain_instructions(1)] json_str_plain Let_def is_ascii_def u_def plain_text_def
      int_repr_def nat_repr.simps)

section \<open>Its session\<close>

lemma sample_receive:
  assumes "connected s" and "settings s = default_config"
  shows "receive_event sample_net s w =
     (s, w @ [Received (receives sample_net w)], Inr (sample_reply (length (filter is_received w))))"
proof -
  have "short_event (sample_reply i)" for i using sample_events_short by (simp add: sample_reply_def)
  then have "parse_server_event (event_frame (sample_reply i)) (PInt 2097152) = Inr (sample_reply i)" for i
    by (rule short_event_parsed) simp_all
  with assms show ?thesis by (simp add: receive_event_def sample_net_def Let_def default_config_def)
qed

definition joined_client :: client where
  "joined_client = sample_client\<lparr>connected := True, session_ready := True\<rparr>"

lemma event_types_of [simp]:
  "dget sample_event (u ''type'') = PStr (u ''session.updated'')"
  "dget sample_created (u ''type'') = PStr (u ''response.created'')"
  "dget sample_done (u ''type'') = PStr (u ''response.done'')"
  by (simp_all add: sample_event_def sample_created_def sample_done_def voice_event_def)

lemma capture_none: "dget event (u ''type'') = PStr (u t) \<Longrightarrow> t \<noteq> ''conversation.created'' \<Longrightarrow>
    capture_conversation_id s event = Inr s"
  by (simp add: capture_conversation_id_def)

lemma sample_connects:
  "\<exists>w. connect plain_unicode sample_net sample_client [] = Some (joined_client, w, Inr ()) \<and>
     length (filter is_received w) = 1"
proof -
  obtain url where url: "websocket_url default_config None None False = Inr url" using default_url by blast
  obtain e where e: "session_update_event plain_unicode default_config = Inr e" "small_payload e"
    using default_update by blast
  let ?s = "sample_client\<lparr>connected := True\<rparr>" and ?w = "[Opened url, Sent (payload_of e)]"
  have s: "connected ?s" "settings ?s = default_config" by (simp_all add: sample_client_def)
  have "wait_for_session_ready sample_net ?s ?w = Some (joined_client, ?w @ [Received (receives sample_net ?w)], Inr ())"
    using sample_receive [OF s, of ?w] capture_none [of sample_event "''session.updated''" ?s]
    by (subst wait_for_session_ready.simps) (simp add: sample_reply_def joined_client_def)
  moreover have "send_event sample_net ?s [Opened url] e = (?w, Inr ())"
    using small_sent [OF e(2) s, of "[Opened url]"] by simp
  moreover have "opens sample_net [] = None" "installed sample_net" by (simp_all add: sample_net_def)
  ultimately show ?thesis using url e(1)
    by (simp add: connect_def open_session_def Let_def sample_client_def)
qed

lemma joined_run: "\<exists>w. client_run plain_unicode sample_net joined_client w \<and> length (filter is_received w) = 1"
  using sample_connects client_run.connected [OF sample_client_run] by blast

section \<open>Its turn\<close>

definition default_collector :: collector where
  "default_collector = new_collector 24000 67108864 2097152 10000"

lemma default_collector_run:
  "\<exists>c response. consume default_collector sample_created = (c, Inr None) \<and>
     consume c sample_done = (default_collector, Inr (Some response)) \<and> completion_error response = None"
proof -
  define c where "c = counted default_collector (u ''response.created'')\<lparr>active_id := Some (u ''r1'')\<rparr>"
  have "accepts default_collector sample_created c"
    unfolding c_def
    by (rule accepts.created) (simp_all add: countable_def sample_created_def voice_event_def default_collector_def
        new_collector_def created_id_of_def remote_id_def remote_id_char_def is_alnum_def is_letter_def
        is_ascii_digit_def u_def)
  then have "consume default_collector sample_created = (c, Inr None)" by (simp add: consume_None_iff)
  moreover have "\<exists>response. consume c sample_done = (default_collector, Inr (Some response))"
    unfolding consume_Some_iff
    by (simp add: c_def countable_def sample_done_def voice_event_def default_collector_def new_collector_def
        done_status_def reset_def counted_def)
  then obtain response where fin: "consume c sample_done = (default_collector, Inr (Some response))" by blast
  moreover have "done_status sample_done = Inr (Some (u ''completed''))"
    by (simp add: sample_done_def voice_event_def done_status_def)
  then have "voice_status response = Some (u ''completed'')" using fin unfolding consume_Some_iff by auto
  then have "completion_error response = None" by (simp add: completion_error_def)
  ultimately show ?thesis by blast
qed

lemma silent_turn_event:
  assumes "dget e (u ''type'') = PStr (u t)" and "t \<in> {''response.created'', ''response.done''}"
    and "consume c e = (c', Inr completed)" and "sink s = None" and "Option.bind completed completion_error = None"
  shows "turn_event s w c e = (s, w, Inr (c', completed))"
proof -
  have "\<not> one_of TRANSCRIPT_DELTA_EVENT_TYPES (u t)" using assms(2) by (auto simp: one_of_names)
  with assms(1) have "validated_transcript_delta e = Inr None" by (rule not_transcript)
  moreover have "capture_conversation_id s e = Inr s" using capture_none [OF assms(1)] assms(2) by auto
  moreover have "dget e (u ''type'') \<noteq> PStr (u ''error'')" using assms(1,2) by auto
  ultimately show ?thesis using assms(3-5) by (simp add: turn_event_def show_delta_def)
qed

lemma joined_fields: "connected joined_client" "settings joined_client = default_config" "sink joined_client = None"
  by (simp_all add: joined_client_def sample_client_def)

lemma joined_receives:
  assumes "length (filter is_received w) = 1"
  shows "\<exists>new response. receive_response sample_net joined_client w default_collector =
     (joined_client, w @ new, Inr response)"
proof -
  obtain c response where created: "consume default_collector sample_created = (c, Inr None)"
    and completed: "consume c sample_done = (default_collector, Inr (Some response))" "completion_error response = None"
    using default_collector_run by blast
  let ?w1 = "w @ [Received (receives sample_net w)]" let ?w2 = "?w1 @ [Received (receives sample_net ?w1)]"
  have "receive_event sample_net joined_client w = (joined_client, ?w1, Inr sample_created)"
    using sample_receive [OF joined_fields(1,2), of w] assms by (simp add: sample_reply_def split: if_splits)
  moreover have "receive_event sample_net joined_client ?w1 = (joined_client, ?w2, Inr sample_done)"
    using sample_receive [OF joined_fields(1,2), of ?w1] assms by (simp add: sample_reply_def)
  moreover have "turn_event joined_client ?w1 default_collector sample_created = (joined_client, ?w1, Inr (c, None))"
    using created joined_fields by (intro silent_turn_event [OF event_types_of(2)]) simp_all
  moreover have "turn_event joined_client ?w2 c sample_done = (joined_client, ?w2, Inr (default_collector, Some response))"
    using completed joined_fields by (intro silent_turn_event [OF event_types_of(3)]) simp_all
  ultimately have "receive_response sample_net joined_client w default_collector = (joined_client, ?w2, Inr response)"
    by (simp add: receive_response.simps [of sample_net joined_client w]
        receive_response.simps [of sample_net joined_client ?w1])
  then show ?thesis by simp
qed

lemma hi_events: "\<exists>a b. build_user_turn_events (u ''hi'') = Inr (a, b) \<and> small_payload a \<and> small_payload b"
proof -
  have "strip (u ''hi'') \<noteq> []" by (rule strip_letter [of 104]) (simp_all add: u_def is_space_def)
  moreover have "length (u ''hi'') \<le> 32000" "0 \<notin> set (u ''hi'')" by (simp_all add: u_def)
  ultimately have "validate_non_empty_text (u ''hi'') ''prompt'' 32000 = Inr ()"
    by (simp add: validate_non_empty_text_def)
  then show ?thesis
    by (simp add: build_user_turn_events_def small_payload_def json_str_plain is_ascii_def u_def plain_text_def)
qed

lemma joined_turn:
  assumes "client_run plain_unicode sample_net joined_client w" and "length (filter is_received w) = 1"
  shows "\<exists>w' response. run_turn plain_unicode sample_net joined_client w (u ''hi'') = Some (joined_client, w', Inr response)"
proof -
  note w = assms
  obtain a b where turn: "build_user_turn_events (u ''hi'') = Inr (a, b)" "small_payload a" "small_payload b"
    using hi_events by blast
  let ?w1 = "w @ [Sent (payload_of a), Sent (payload_of b)]"
  have delivered: "deliver_turn sample_net joined_client w a b = (?w1, Inr ())"
    using small_sent [OF turn(2) joined_fields(1,2)] small_sent [OF turn(3) joined_fields(1,2)]
    by (simp add: deliver_turn_def)
  have "length (filter is_received ?w1) = 1" using w(2) by simp
  then obtain new response where received:
    "receive_response sample_net joined_client ?w1 default_collector = (joined_client, ?w1 @ new, Inr response)"
    using joined_receives by blast
  have "make_collector 24000 67108864 2097152 10000 = Inr default_collector"
    by (simp add: make_collector_Inr ALLOWED_SAMPLE_RATES_def default_collector_def)
  then have "collect_turn sample_net joined_client ?w1 = (joined_client, ?w1 @ new, Inr response)"
    using received by (simp add: collect_turn_def joined_fields default_config_def limit_value_def)
  with turn(1) delivered have "ready_turn sample_net joined_client w (u ''hi'') = (joined_client, ?w1 @ new, Inr response)"
    by (simp add: ready_turn_def)
  then have "run_turn plain_unicode sample_net joined_client w (u ''hi'') = Some (joined_client, ?w1 @ new, Inr response)"
    using run_turn_open [OF client_run_ok [OF w(1)] joined_fields(1)] by simp
  then show ?thesis by blast
qed

lemma sample_turn:
  "\<exists>w w' response. client_run plain_unicode sample_net joined_client w \<and> connected joined_client \<and>
     run_turn plain_unicode sample_net joined_client w (u ''hi'') = Some (joined_client, w', Inr response)"
  using joined_run joined_turn joined_fields(1) by blast

theorem client_invariant_witness: "connected joined_client = session_ready joined_client"
  using joined_run client_invariant by blast

theorem turn_sent_once_witness:
  "\<exists>w new rest. client_run plain_unicode sample_net joined_client w \<and> payloads new @ rest = turn_payloads (u ''hi'') \<and>
     rest = []"
proof -
  obtain w w' response where run: "client_run plain_unicode sample_net joined_client w"
    "run_turn plain_unicode sample_net joined_client w (u ''hi'') = Some (joined_client, w', Inr response)"
    using sample_turn by blast
  from turn_sent_once [OF this] run(1) joined_fields(1) show ?thesis by auto
qed

theorem failed_turn_shuts_witness:
  "\<exists>w s' w' e. run_turn plain_unicode sample_net joined_client w [] = Some (s', w', Inl e) \<and> turn_payloads [] = []"
proof -
  obtain w where w: "client_run plain_unicode sample_net joined_client w" using joined_run by blast
  have refused: "\<exists>e. build_user_turn_events [] = Inl e"
    by (simp add: build_user_turn_events_def validate_non_empty_text_def bindR_def strip_Nil_iff)
  then obtain e where "run_turn plain_unicode sample_net joined_client w [] = Some (joined_client, w, Inl e)"
    using run_turn_open [OF client_run_ok [OF w] joined_fields(1)] by (auto simp: ready_turn_def)
  moreover from failed_turn_shuts [OF w this] refused have "turn_payloads [] = []"
    using joined_fields(1) by (auto simp: turn_payloads_def)
  ultimately show ?thesis by blast
qed

theorem open_turn_returns_witness:
  "\<exists>w s' new r. run_turn plain_unicode sample_net joined_client w (u ''hi'') = Some (s', w @ new, r) \<and>
     length (filter is_received new) \<le> 10001"
proof -
  obtain w where "client_run plain_unicode sample_net joined_client w" using joined_run by blast
  from open_turn_returns [OF this joined_fields(1), of "u ''hi''"] show ?thesis
    by (auto simp: joined_fields default_config_def limit_value_def)
qed

theorem turn_response_carried_witness:
  "\<exists>w w' response :: voice_response. client_run plain_unicode sample_net joined_client w \<and>
     run_turn plain_unicode sample_net joined_client w (u ''hi'') = Some (joined_client, w', Inr response) \<and>
     voice_status response \<in> {None, Some (u ''completed'')}"
proof -
  obtain w w' response where run: "client_run plain_unicode sample_net joined_client w"
    "run_turn plain_unicode sample_net joined_client w (u ''hi'') = Some (joined_client, w', Inr response)"
    using sample_turn by blast
  from turn_response_carried [OF this] have "voice_status response \<in> {None, Some (u ''completed'')}"
    by (elim exE conjE)
  with run show ?thesis by blast
qed

section \<open>A server that never configures the session\<close>

text \<open>
  C30 There is no bound on the events before the session is configured: a server that keeps sending
  well-formed events of other types keeps the client waiting for ever, although every single frame
  arrives within the receive timeout.
\<close>

theorem connect_may_not_return:
  assumes "connected s" and "\<And>v. \<exists>raw event. receives n v = Inr raw \<and>
      parse_server_event raw (event_limit (settings s)) = Inr event \<and>
      dget event (u ''type'') \<notin> {PStr (u ''error''), PStr (u ''session.updated''), PStr (u ''conversation.created'')}"
  shows "wait_for_session_ready n s w = None"
proof -
  define P where "P = (\<lambda>(n' :: net) s' (w' :: wire_log) (_ :: client \<times> wire_log \<times> (exc + unit)). n' = n \<and> s' = s \<longrightarrow> False)"
  have "P n s w res" if "wait_for_session_ready n s w = Some res" for res
    using that
  proof (rule wait_for_session_ready.raw_induct [where P = P, rotated])
    fix wait and n' :: net and s' w' res
    assume IH: "\<And>n s w res. wait n s w = Some res \<Longrightarrow> P n s w res"
    assume body: "(case receive_event n' s' w' of
        (s1, w1, Inl e) \<Rightarrow> Some (s1, w1, Inl e)
      | (s1, w1, Inr event) \<Rightarrow>
          (case capture_conversation_id s1 event of
             Inl e \<Rightarrow> Some (s1, w1, Inl e)
           | Inr s2 \<Rightarrow>
               if dget event (u ''type'') = PStr (u ''error'') then Some (s2, w1, Inl (remote_error event))
               else if dget event (u ''type'') = PStr (u ''session.updated'')
               then Some (s2\<lparr>session_ready := True\<rparr>, w1, Inr ())
               else wait n' s2 w1)) = Some res"
    show "P n' s' w' res"
    proof (cases "n' = n \<and> s' = s")
      case True
      obtain raw event where raw: "receives n w' = Inr raw" "parse_server_event raw (event_limit (settings s)) = Inr event"
        "dget event (u ''type'') \<notin> {PStr (u ''error''), PStr (u ''session.updated''), PStr (u ''conversation.created'')}"
        using assms(2) by blast
      have "receive_event n s w' = (s, w' @ [Received (Inr raw)], Inr event)"
        using assms(1) raw(1,2) by (simp add: receive_event_def Let_def)
      moreover have "capture_conversation_id s event = Inr s" using raw(3) by (simp add: capture_conversation_id_def)
      ultimately have "wait n s (w' @ [Received (Inr raw)]) = Some res" using body True raw(3) by simp
      from IH [OF this] show ?thesis by (simp add: P_def)
    qed (simp add: P_def)
  qed
  then show ?thesis by (cases "wait_for_session_ready n s w") (simp_all add: P_def)
qed

theorem connect_may_not_return_witness:
  "\<exists>n :: net. wait_for_session_ready n joined_client [] = None"
proof -
  let ?n = "sample_net\<lparr>receives := (\<lambda>_. Inr (event_frame sample_created))\<rparr>"
  have "parse_server_event (event_frame sample_created) (event_limit (settings joined_client)) = Inr sample_created"
    using short_event_parsed [OF sample_events_short(2)] by (simp add: joined_fields default_config_def)
  then have "wait_for_session_ready ?n joined_client [] = None"
    by (intro connect_may_not_return joined_fields(1)) (auto intro!: exI [of _ "event_frame sample_created"])
  then show ?thesis by blast
qed

end
