(* ===== verification/Files_Laws.thy ===== *)
theory Files_Laws
  imports Voice_Files Voice_Config_Laws
begin

text \<open>
  What persisting a response guarantees whatever system call fails: no file that was there is touched; a
  success adds exactly the requested files, complete and private, under names that stay in the
  directory; and a failure adds nothing, as long as the removals themselves work.
\<close>

section \<open>One file\<close>

text \<open>Removals work, and changing permissions fails only as system calls do.\<close>

definition clean_removal :: "os \<Rightarrow> bool" where
  "clean_removal os \<longleftrightarrow>
     (\<forall>h name e. fails os (Remove name # h) = Some e \<longrightarrow> e = FileNotFoundError) \<and>
     (\<forall>h name e. fails os (Mode name # h) = Some e \<longrightarrow> is_OSError e)"

definition untouched :: "os \<Rightarrow> (pystr \<Rightarrow> node option) \<Rightarrow> disk \<Rightarrow> bool" where
  "untouched os m d \<longleftrightarrow> m \<subseteq>\<^sub>m entries d \<and> (clean_removal os \<longrightarrow> entries d = m)"

lemma untouched_same [simp]: "entries d = m \<Longrightarrow> untouched os m d"
  by (auto simp: untouched_def)

lemma triple_ignore:
  assumes "triple P m Q (\<lambda>e d. if is_OSError e then Q () d else E e d)"
  shows "triple P (ignore_OSError m) Q E"
  unfolding ignore_OSError_def
proof (rule triple_catch)
  show "triple P m Q (\<lambda>e d. if is_OSError e then Q () d else E e d)" by (rule assms)
  show "triple (\<lambda>d. if is_OSError e then Q () d else E e d) (if is_OSError e then returnIO () else raiseIO e) Q E" for e
    by (simp add: triple_return triple_raise)
qed

lemma triple_fill:
  assumes "m tmp = None" and "m name = None" and "tmp \<noteq> name"
  shows "triple (dir_is (m(tmp \<mapsto> Plain [] 384))) (fill_and_link os tmp name b)
     (\<lambda>_. dir_is (m(tmp \<mapsto> Plain b 384, name \<mapsto> Plain b 384)))
     (\<lambda>_ d. (\<exists>c. dir_is (m(tmp \<mapsto> Plain c 384)) d) \<or>
        \<not> clean_removal os \<and> dir_is (m(tmp \<mapsto> Plain b 384, name \<mapsto> Plain b 384)) d)"
    (is "triple _ _ ?Q ?E")
proof -
  let ?m0 = "m(tmp \<mapsto> Plain [] 384)" and ?m1 = "m(tmp \<mapsto> Plain b 384)" and ?m2 = "m(tmp \<mapsto> Plain b 384, name \<mapsto> Plain b 384)"
  have s1: "triple (dir_is ?m0) (chmod os tmp 384) (\<lambda>_. dir_is ?m0) ?E"
    by (rule triple_conseq [OF triple_chmod [of ?m0 tmp "[]" 384]]) auto
  have s2: "triple (dir_is ?m0) (write_file os tmp b) (\<lambda>_. dir_is ?m1) ?E"
    by (rule triple_conseq [OF triple_write [of ?m0 tmp "[]" 384]]) auto
  have raise: "triple (dir_is ?m1) (raiseIO (link_error e name)) (\<lambda>_. dir_is ?m2) ?E" for e
    by (rule triple_conseq [OF triple_raise [of ?E]]) auto
  have link: "triple (dir_is ?m1) (link_file os tmp name) (\<lambda>_. dir_is ?m2) (\<lambda>_. dir_is ?m1)"
    by (rule triple_conseq [OF triple_link [of ?m1 name]]) (use assms in auto)
  have s4: "triple (dir_is ?m2) (ignore_OSError (chmod os name 384)) ?Q ?E"
    by (rule triple_ignore, rule triple_conseq [OF triple_chmod [of ?m2 name b 384]]) (auto simp: clean_removal_def)
  show ?thesis
    unfolding fill_and_link_def
    by (rule triple_bind [OF s1 triple_bind [OF s2 triple_bind [OF triple_catch [OF link raise] s4]]])
qed

lemma triple_linked:
  assumes "m tmp = None" and "m name = None" and "tmp \<noteq> name"
  shows "triple (dir_is (m(tmp \<mapsto> Plain [] 384))) (finallyIO (fill_and_link os tmp name b) (unlink os tmp))
     (\<lambda>_. dir_is (m(name \<mapsto> Plain b 384))) (\<lambda>_. untouched os m)"
proof (rule triple_finally [OF triple_fill [OF assms]])
  have drop: "m(tmp := None) = m" "m(tmp \<mapsto> c, name \<mapsto> c', tmp := None) = m(name \<mapsto> c')" for c c'
    using assms by (auto simp: fun_eq_iff)
  have kept: "m \<subseteq>\<^sub>m m(tmp \<mapsto> c)" "m \<subseteq>\<^sub>m m(tmp \<mapsto> c, name \<mapsto> c')" "m \<subseteq>\<^sub>m m(name \<mapsto> c)" for c c'
    using assms by (auto simp: map_le_def)
  have removal: "\<not> clean_removal os" if "e \<noteq> FileNotFoundError" "fails os (Remove tmp # h) = Some e" for e h
    using that by (auto simp: clean_removal_def)
  show "triple (dir_is (m(tmp \<mapsto> Plain b 384, name \<mapsto> Plain b 384))) (unlink os tmp)
     (\<lambda>_. dir_is (m(name \<mapsto> Plain b 384))) (\<lambda>_. untouched os m)"
    by (rule triple_conseq [OF triple_unlink [of "m(tmp \<mapsto> Plain b 384, name \<mapsto> Plain b 384)"]])
      (auto simp: drop untouched_def kept dest: removal)
  have one: "triple (dir_is (m(tmp \<mapsto> c))) (unlink os tmp) (\<lambda>_. untouched os m) (\<lambda>_. untouched os m)" for c
    by (rule triple_conseq [OF triple_unlink [of "m(tmp \<mapsto> c)"]]) (auto simp: drop untouched_def kept dest: removal)
  have both: "\<not> clean_removal os \<Longrightarrow> triple (dir_is (m(tmp \<mapsto> c, name \<mapsto> c'))) (unlink os tmp)
      (\<lambda>_. untouched os m) (\<lambda>_. untouched os m)" for c c'
    by (rule triple_conseq [OF triple_unlink [of "m(tmp \<mapsto> c, name \<mapsto> c')"]]) (auto simp: drop untouched_def kept)
  show "triple (\<lambda>d. (\<exists>c. dir_is (m(tmp \<mapsto> Plain c 384)) d) \<or>
        \<not> clean_removal os \<and> dir_is (m(tmp \<mapsto> Plain b 384, name \<mapsto> Plain b 384)) d)
      (unlink os tmp) (\<lambda>_. untouched os m) (\<lambda>_. untouched os m)" for e :: exc
    by (rule tripleI, elim disjE exE conjE) (auto intro: tripleD [OF one] tripleD [OF both])
qed

lemma triple_atomic_write:
  "triple (dir_is m) (atomic_write os name b) (\<lambda>_ d. m name = None \<and> dir_is (m(name \<mapsto> Plain b 384)) d) (\<lambda>_. untouched os m)"
proof -
  let ?new = "bindIO (mkstemp os (46 # name @ [46])) (\<lambda>tmp. finallyIO (fill_and_link os tmp name b) (unlink os tmp))"
  have step: "triple (\<lambda>d. (\<exists>t. tmp = (46 # name @ [46]) @ t) \<and> m tmp = None \<and> dir_is (m(tmp \<mapsto> Plain [] 384)) d)
      (finallyIO (fill_and_link os tmp name b) (unlink os tmp))
      (\<lambda>_. dir_is (m(name \<mapsto> Plain b 384))) (\<lambda>_. untouched os m)" if "m name = None" for tmp
  proof (cases "(\<exists>t. tmp = (46 # name @ [46]) @ t) \<and> m tmp = None")
    case True
    then have "tmp \<noteq> name" by (auto dest: arg_cong [of _ _ length])
    then show ?thesis using triple_linked [of m tmp name os b] True that by (auto simp: triple_def)
  qed (auto simp: triple_def)
  have new: "triple (dir_is m) ?new (\<lambda>_. dir_is (m(name \<mapsto> Plain b 384))) (\<lambda>_. untouched os m)" if "m name = None"
    by (rule triple_bind [OF _ step [OF that]], rule triple_conseq [OF triple_mkstemp [of m]]) auto
  have "triple (\<lambda>d. dir_is m d \<and> (taken \<longleftrightarrow> m name \<noteq> None)) (if taken then raiseIO (overwrite_error name) else ?new)
     (\<lambda>_ d. m name = None \<and> dir_is (m(name \<mapsto> Plain b 384)) d) (\<lambda>_. untouched os m)" for taken
  proof (cases "taken \<longleftrightarrow> m name \<noteq> None")
    case True
    then show ?thesis using new by (cases taken) (simp_all add: triple_def raiseIO_def)
  qed (cases taken, auto simp: triple_def)
  then show ?thesis
    unfolding atomic_write_def
    by (rule triple_bind [rotated]) (rule triple_conseq [OF triple_occupied [of m]], auto)
qed

section \<open>All files\<close>

fun with_files :: "(pystr \<Rightarrow> node option) \<Rightarrow> (pystr \<times> bytes) list \<Rightarrow> pystr \<Rightarrow> node option" where
  "with_files m [] = m"
| "with_files m ((name, b) # files) = with_files (m(name \<mapsto> Plain b 384)) files"

definition without :: "pystr list \<Rightarrow> (pystr \<Rightarrow> node option) \<Rightarrow> pystr \<Rightarrow> node option" where
  "without paths m = m |` (- set paths)"

lemma without_Nil [simp]: "without [] m = m"
  by (simp add: without_def fun_eq_iff restrict_map_def)

lemma without_le: "without paths m \<subseteq>\<^sub>m m"
  by (auto simp: without_def map_le_def restrict_map_def)

lemma without_Cons: "without (name # paths) m = without paths (m(name := None))"
  by (auto simp: without_def restrict_map_def fun_eq_iff)

lemma without_fresh: "m name = None \<Longrightarrow> without (name # paths) (m(name \<mapsto> x)) = without paths m"
  by (auto simp: without_def restrict_map_def fun_eq_iff)

lemma untouched_without:
  assumes "untouched os m d" and "untouched os (without paths (entries d)) d'"
  shows "untouched os (without paths m) d'"
proof -
  have "without paths m \<subseteq>\<^sub>m without paths (entries d)"
    using assms(1) by (auto simp: untouched_def map_le_def without_def restrict_map_def)
  with assms show ?thesis by (auto simp: untouched_def intro: map_le_trans)
qed

lemma triple_roll_back:
  "triple (dir_is m) (roll_back os created) (\<lambda>_. untouched os (without created m)) (\<lambda>_. untouched os (without created m))"
proof (induction created arbitrary: m)
  case Nil
  then show ?case by (simp add: triple_def returnIO_def)
next
  case (Cons name created)
  let ?goal = "untouched os (without (name # created) m)"
  let ?left = "\<lambda>d. dir_is (m(name := None)) d \<or> \<not> clean_removal os \<and> dir_is m d"
  have kept: "without (name # created) m \<subseteq>\<^sub>m without created m" "without (name # created) m \<subseteq>\<^sub>m m"
    by (auto simp: without_def map_le_def restrict_map_def)
  have "triple (dir_is m) (unlink os name) (\<lambda>_. ?left) (\<lambda>e d. if is_OSError e then ?left d else ?goal d)"
    by (rule triple_conseq [OF triple_unlink [of m]])
      (auto simp: untouched_def clean_removal_def without_le)
  then have first: "triple (dir_is m) (ignore_OSError (unlink os name)) (\<lambda>_. ?left) (\<lambda>_. ?goal)"
    by (rule triple_ignore)
  have gone: "triple (dir_is (m(name := None))) (roll_back os created) (\<lambda>_. ?goal) (\<lambda>_. ?goal)"
    unfolding without_Cons by (rule Cons.IH)
  have stuck: "triple (dir_is m) (roll_back os created) (\<lambda>_. ?goal) (\<lambda>_. ?goal)" if "\<not> clean_removal os"
    by (rule triple_conseq [OF Cons.IH [of m]]) (use that kept in \<open>auto simp: untouched_def intro: map_le_trans\<close>)
  have "triple ?left (roll_back os created) (\<lambda>_. ?goal) (\<lambda>_. ?goal)"
  proof (rule tripleI, elim disjE conjE)
    show "ended (\<lambda>_. ?goal) (\<lambda>_. ?goal) (roll_back os created d)" if "dir_is (m(name := None)) d" for d
      using gone that by (rule tripleD)
    show "ended (\<lambda>_. ?goal) (\<lambda>_. ?goal) (roll_back os created d)" if "\<not> clean_removal os" "dir_is m d" for d
      using stuck [OF that(1)] that(2) by (rule tripleD)
  qed
  then show ?case unfolding roll_back.simps by (rule triple_bind [OF first])
qed

lemma triple_write_all:
  "triple (dir_is m) (write_all os files created) (\<lambda>_. dir_is (with_files m files))
     (\<lambda>_. untouched os (without created m))"
proof (induction files arbitrary: m created)
  case Nil
  then show ?case by (simp add: triple_def returnIO_def)
next
  case (Cons f files)
  obtain name b where f: "f = (name, b)" by fastforce
  show ?case
  proof (rule tripleI)
    fix d assume d: "dir_is m d"
    note written = tripleD [OF triple_atomic_write [of m os name b], OF d]
    show "ended (\<lambda>_. dir_is (with_files m (f # files))) (\<lambda>_. untouched os (without created m))
        (write_all os (f # files) created d)"
    proof (cases rule: io_cases [of "atomic_write os name b" d])
      case (returns d1 x)
      with written have d1: "m name = None" "dir_is (m(name \<mapsto> Plain b 384)) d1" by simp_all
      have "write_all os (f # files) created d = write_all os files (name # created) d1" by (simp add: f returns)
      with tripleD [OF Cons.IH [of "m(name \<mapsto> Plain b 384)" "name # created"] d1(2)] show ?thesis
        by (simp only: f with_files.simps without_fresh [of m name, OF d1(1)])
    next
      case (raises d1 e)
      with written have d1: "untouched os m d1" by simp
      have "ended (\<lambda>_. untouched os (without created (entries d1))) (\<lambda>_. untouched os (without created (entries d1)))
          (roll_back os created d1)"
        by (rule tripleD [OF triple_roll_back]) simp
      then have "ended (\<lambda>_. untouched os (without created m)) (\<lambda>_. untouched os (without created m)) (roll_back os created d1)"
        by (rule ended_mono) (rule untouched_without [OF d1], assumption)+
      then show ?thesis
        by (cases rule: io_cases [of "roll_back os created" d1]) (simp_all add: f raises bindIO_def raiseIO_def)
    qed
  qed
qed

section \<open>Persisting\<close>

lemma triple_syscall_same: "triple (dir_is m) (syscall os c) (\<lambda>_. dir_is m) (\<lambda>_. dir_is m)"
  by (rule triple_conseq [OF triple_syscall [of m]]) simp_all

lemma triple_ignored_call: "triple (dir_is m) (ignore_OSError (syscall os c)) (\<lambda>_. dir_is m) (\<lambda>_. dir_is m)"
  by (rule triple_ignore) (rule triple_conseq [OF triple_syscall [of m]], simp_all)

lemma triple_prepare: "triple (dir_is m) (prepare_folder os) (\<lambda>_. dir_is m) (\<lambda>_. dir_is m)"
proof -
  have make: "triple (dir_is m) (bindIO (if x = None then syscall os MakeFolder else ignore_OSError (syscall os MakeFolder)) (\<lambda>_.
         bindIO (\<lambda>d. (d\<lparr>folder := Some Folder\<rparr>, Inr ())) (\<lambda>_.
         ignore_OSError (syscall os ModeFolder)))) (\<lambda>_. dir_is m) (\<lambda>_. dir_is m)" for x :: "node option"
  proof (rule triple_bind [where R = "\<lambda>_. dir_is m"])
    show "triple (dir_is m) (if x = None then syscall os MakeFolder else ignore_OSError (syscall os MakeFolder))
        (\<lambda>_. dir_is m) (\<lambda>_. dir_is m)"
      by (simp add: triple_syscall_same triple_ignored_call)
    show "triple (dir_is m) (bindIO (\<lambda>d. (d\<lparr>folder := Some Folder\<rparr>, Inr ())) (\<lambda>_. ignore_OSError (syscall os ModeFolder)))
        (\<lambda>_. dir_is m) (\<lambda>_. dir_is m)"
      by (rule triple_bind [OF _ triple_ignored_call]) (simp add: triple_def)
  qed
  show ?thesis
    unfolding prepare_folder_def
  proof (rule triple_bind [OF triple_syscall_same], rule tripleI)
    fix d :: disk assume "dir_is m d"
    then show "ended (\<lambda>_. dir_is m) (\<lambda>_. dir_is m)
        (case folder d of
           Some (Symlink _) \<Rightarrow> (d, Inl (config_error_of ''output_dir must not be a symbolic link''))
         | Some (Plain _ _) \<Rightarrow> (d, Inl (config_error_of ''output_dir must be a directory''))
         | x \<Rightarrow> bindIO (if x = None then syscall os MakeFolder else ignore_OSError (syscall os MakeFolder)) (\<lambda>_.
             bindIO (\<lambda>d. (d\<lparr>folder := Some Folder\<rparr>, Inr ())) (\<lambda>_. ignore_OSError (syscall os ModeFolder))) d)"
      using tripleD [OF make [of None]] tripleD [OF make [of "Some Folder"]] by (simp split: option.split node.split)
  qed
qed

lemma triple_check_free:
  "triple (dir_is m) (check_free os paths) (\<lambda>_ d. dir_is m d \<and> (\<forall>name \<in> set paths. m name = None)) (\<lambda>_. dir_is m)"
proof (induction paths)
  case Nil
  then show ?case by (simp add: triple_def returnIO_def)
next
  case (Cons name paths)
  have step: "triple (\<lambda>d. dir_is m d \<and> (taken \<longleftrightarrow> m name \<noteq> None)) (if taken then raiseIO (overwrite_error name) else check_free os paths)
      (\<lambda>_ d. dir_is m d \<and> (\<forall>name \<in> set (name # paths). m name = None)) (\<lambda>_. dir_is m)" for taken
  proof (cases "taken \<longleftrightarrow> m name \<noteq> None")
    case True
    show ?thesis
    proof (cases taken)
      case False
      with True have free: "m name = None" by simp
      have "triple (dir_is m) (check_free os paths)
          (\<lambda>_ d. dir_is m d \<and> (\<forall>name \<in> set (name # paths). m name = None)) (\<lambda>_. dir_is m)"
        by (rule triple_conseq [OF Cons.IH]) (use free in simp_all)
      with False free show ?thesis by (simp add: triple_def)
    qed (simp add: triple_def raiseIO_def)
  qed (cases taken, auto simp: triple_def)
  show ?case unfolding check_free.simps by (rule triple_bind [OF triple_occupied step])
qed

lemma triple_persist:
  "triple (dir_is m) (persist_voice_response os created_at r persist_audio persist_transcript)
     (\<lambda>a d. a = artifact_paths r persist_audio persist_transcript \<and> (persist_audio \<or> persist_transcript) \<and>
        (\<forall>name \<in> set (requested_paths a). m name = None) \<and>
        (\<exists>files. artifact_files created_at r a = Inr files \<and> dir_is (with_files m files) d))
     (\<lambda>_. untouched os m)"
  (is "triple _ _ ?Q ?E")
proof (cases "\<not> persist_audio \<and> \<not> persist_transcript")
  case True
  then show ?thesis by (simp add: persist_voice_response_def triple_def raiseIO_def)
next
  case False
  let ?a = "artifact_paths r persist_audio persist_transcript"
  let ?free = "\<forall>name \<in> set (requested_paths ?a). m name = None"
  have prepare: "triple (dir_is m) (prepare_folder os) (\<lambda>_. dir_is m) ?E"
    by (rule triple_conseq [OF triple_prepare [of m]]) simp_all
  have check: "triple (dir_is m) (check_free os (requested_paths ?a)) (\<lambda>_ d. dir_is m d \<and> ?free) ?E"
    by (rule triple_conseq [OF triple_check_free [of m]]) simp_all
  have finish: "triple (\<lambda>d. dir_is m d \<and> ?free)
      (bindIO (liftIO (artifact_files created_at r ?a)) (\<lambda>files. bindIO (write_all os files []) (\<lambda>_. returnIO ?a))) ?Q ?E"
  proof (rule triple_lift)
    fix files assume files: "artifact_files created_at r ?a = Inr files"
    have written: "triple (\<lambda>d. dir_is m d \<and> ?free) (write_all os files [])
        (\<lambda>_ d. ?free \<and> dir_is (with_files m files) d) ?E"
    proof (rule tripleI, elim conjE)
      fix d assume "dir_is m d" ?free
      note start = this
      from tripleD [OF triple_write_all [of m os files "[]"] start(1), unfolded without_Nil]
      show "ended (\<lambda>_ d. ?free \<and> dir_is (with_files m files) d) ?E (write_all os files [] d)"
        by (rule ended_mono) (use start(2) in simp_all)
    qed
    show "triple (\<lambda>d. dir_is m d \<and> ?free) (bindIO (write_all os files []) (\<lambda>_. returnIO ?a)) ?Q ?E"
      by (rule triple_bind [OF written]) (use files False in \<open>auto simp: triple_def returnIO_def\<close>)
  qed simp
  show ?thesis
    unfolding persist_voice_response_def Let_def if_not_P [OF False]
    by (rule triple_bind [OF prepare triple_bind [OF check finish]])
qed

lemma persist_cases:
  assumes "persist_voice_response os created_at r persist_audio persist_transcript d = (d', res)"
  obtains (failed) e where "res = Inl e" "untouched os (entries d) d'"
  | (stored) a files where "res = Inr a" "a = artifact_paths r persist_audio persist_transcript"
      "\<forall>name \<in> set (requested_paths a). entries d name = None"
      "artifact_files created_at r a = Inr files" "entries d' = with_files (entries d) files"
proof (cases res)
  case (Inl e)
  with tripleD [OF triple_persist [of "entries d" os created_at r persist_audio persist_transcript], of d] assms
  show ?thesis by (intro failed) simp_all
next
  case (Inr a)
  with tripleD [OF triple_persist [of "entries d" os created_at r persist_audio persist_transcript], of d] assms
  show ?thesis by (auto intro: stored [OF Inr])
qed

section \<open>Names and contents\<close>

lemma sub_unsafe_chars: "c \<in> set (sub_unsafe b s) \<Longrightarrow> safe_file_char c"
  by (induction b s rule: sub_unsafe.induct) (auto simp: safe_file_char_def split: if_splits)

lemma strip_chars_subset: "set (strip_chars A s) \<subseteq> set s"
proof
  fix x assume "x \<in> set (strip_chars A s)"
  then have "x \<in> set (dropWhile (\<lambda>c. c \<in> A) (rev (dropWhile (\<lambda>c. c \<in> A) s)))" by (simp add: strip_chars_def)
  then have "x \<in> set (rev (dropWhile (\<lambda>c. c \<in> A) s))" by (rule set_dropWhileD)
  then show "x \<in> set s" by (auto dest: set_dropWhileD)
qed

lemma safe_file_component_chars: "c \<in> set (safe_file_component s) \<Longrightarrow> safe_file_char c"
proof -
  have "safe_file_char c" if "c \<in> set (u ''unknown'')" for c
    using that by (auto simp: u_def safe_file_char_def is_alnum_def is_letter_def)
  then show "c \<in> set (safe_file_component s) \<Longrightarrow> safe_file_char c"
    using strip_chars_subset [of "{46, 95, 45}" "sub_unsafe False s"]
    by (auto simp: safe_file_component_def Let_def dest!: in_set_takeD split: if_splits intro: sub_unsafe_chars)
qed

definition plain_name :: "pystr \<Rightarrow> bool" where
  "plain_name s \<longleftrightarrow> list_all safe_file_char s \<and> hd s \<noteq> 46 \<and> length s \<le> 143 \<and> s \<noteq> []"

lemma artifact_name_plain:
  assumes "ending \<in> {''.wav'', ''.txt'', ''.manifest.json''}"
  shows "plain_name (artifact_name r ending)"
proof -
  have "list_all safe_file_char (u ''response_'')" "list_all safe_file_char (u ending)"
    using assms by (auto simp: u_def safe_file_char_def is_alnum_def is_letter_def)
  moreover have "list_all safe_file_char (safe_file_component i)" for i
    by (simp add: list_all_iff safe_file_component_chars)
  moreover have "length (safe_file_component i) \<le> 120" for i by (simp add: safe_file_component_def Let_def)
  from this [of "voice_response_id r"] have "length (artifact_name r ending) \<le> 143"
    using assms by (auto simp: artifact_name_def)
  moreover have "hd (artifact_name r ending) \<noteq> 46" "artifact_name r ending \<noteq> []"
    by (simp_all add: artifact_name_def u_def)
  ultimately show ?thesis by (simp add: plain_name_def artifact_name_def)
qed

lemma artifact_names_distinct:
  "artifact_name r ''.wav'' \<noteq> artifact_name r ''.txt''" "artifact_name r ''.wav'' \<noteq> artifact_name r ''.manifest.json''"
  "artifact_name r ''.txt'' \<noteq> artifact_name r ''.manifest.json''"
  by (simp_all add: artifact_name_def)

lemma dom_private: "dom (map_of (map (\<lambda>(name, b). (name, Plain b 384)) files)) = fst ` set files"
  by (auto simp: dom_map_of_conv_image_fst image_image split_beta)

lemma with_files_distinct:
  "distinct (map fst files) \<Longrightarrow> with_files m files = m ++ map_of (map (\<lambda>(name, b). (name, Plain b 384)) files)"
proof (induction m files rule: with_files.induct)
  case (2 m name b files)
  then have "name \<notin> dom (map_of (map (\<lambda>(name, b). (name, Plain b 384)) files))"
    unfolding dom_private by simp
  then have "m(name \<mapsto> Plain b 384) ++ map_of (map (\<lambda>(name, b). (name, Plain b 384)) files) =
      m ++ (map_of (map (\<lambda>(name, b). (name, Plain b 384)) files))(name \<mapsto> Plain b 384)"
    by (simp only: map_add_upd map_add_upd_left not_False_eq_True)
  then show ?case using 2 by (simp del: fun_upd_apply)
qed simp

text \<open>The files of a response, with a manifest that describes them.\<close>

definition described :: "pystr \<Rightarrow> voice_response \<Rightarrow> artifacts \<Rightarrow> (pystr \<times> bytes) list \<Rightarrow> bool" where
  "described created_at r a files \<longleftrightarrow>
     (\<exists>text_bytes wav duration.
        encode_utf8 (transcript r) = Inr text_bytes \<and> rounded_duration r = Inr duration \<and>
        (wav_path a \<noteq> None \<longrightarrow> create_pcm16_wav (pcm_audio r) (voice_sample_rate r) = Inr (the wav) \<and> wav \<noteq> None) \<and>
        (wav_path a = None \<longrightarrow> wav = None) \<and>
        files = (case wav_path a of None \<Rightarrow> [] | Some p \<Rightarrow> [(p, the wav)]) @
          (case transcript_path a of None \<Rightarrow> [] | Some p \<Rightarrow> [(p, text_bytes)]) @
          [(manifest_path a, utf8_bytes (json_pretty json_str 0 (PDict (manifest created_at r a wav duration text_bytes)) @ [10]))])"

lemma artifact_files_described: "artifact_files created_at r a = Inr files \<Longrightarrow> described created_at r a files"
proof -
  assume "artifact_files created_at r a = Inr files"
  then obtain wav text_bytes duration manifest_bytes where parts:
    "(case wav_path a of None \<Rightarrow> Inr None
      | Some _ \<Rightarrow> bindR (create_pcm16_wav (pcm_audio r) (voice_sample_rate r)) (\<lambda>b. Inr (Some b))) = Inr wav"
    "encode_utf8 (transcript r) = Inr text_bytes" "rounded_duration r = Inr duration"
    "encode_utf8 (json_pretty json_str 0 (PDict (manifest created_at r a wav duration text_bytes)) @ [10]) = Inr manifest_bytes"
    "files = List.map_filter id
       [case (wav_path a, wav) of (Some p, Some b) \<Rightarrow> Some (p, b) | _ \<Rightarrow> None,
        map_option (\<lambda>p. (p, text_bytes)) (transcript_path a), Some (manifest_path a, manifest_bytes)]"
    unfolding artifact_files_def bindR_Inr_iff sum.inject by metis
  have "manifest_bytes = utf8_bytes (json_pretty json_str 0 (PDict (manifest created_at r a wav duration text_bytes)) @ [10])"
    using parts(4) by (simp add: encode_utf8_def split: if_splits)
  moreover have "wav_path a \<noteq> None \<longrightarrow> create_pcm16_wav (pcm_audio r) (voice_sample_rate r) = Inr (the wav) \<and> wav \<noteq> None"
    "wav_path a = None \<longrightarrow> wav = None"
    using parts(1) by (auto simp: bindR_Inr_iff split: option.splits)
  moreover from this have "files = (case wav_path a of None \<Rightarrow> [] | Some p \<Rightarrow> [(p, the wav)]) @
      (case transcript_path a of None \<Rightarrow> [] | Some p \<Rightarrow> [(p, text_bytes)]) @ [(manifest_path a, manifest_bytes)]"
    unfolding parts(5)
    by (cases "wav_path a"; cases "transcript_path a") (auto simp: map_filter_simps)
  ultimately show ?thesis
    unfolding described_def using parts(2,3)
    by (intro exI [of _ text_bytes] exI [of _ wav] exI [of _ duration]) simp
qed

lemma described_names: "described created_at r a files \<Longrightarrow> map fst files = requested_paths a"
  by (auto simp: described_def requested_paths_def map_filter_simps split: option.split)

lemma requested_paths_plain:
  "name \<in> set (requested_paths (artifact_paths r pa pt)) \<Longrightarrow> plain_name name"
  "distinct (requested_paths (artifact_paths r pa pt))"
  using artifact_names_distinct [of r]
  by (auto simp: requested_paths_def artifact_paths_def map_filter_simps artifact_name_plain split: if_splits)

section \<open>Guarantees\<close>



section \<open>A response on disk\<close>

definition sample_response :: voice_response where
  "sample_response =
     \<lparr>voice_response_id = u ''r1'', transcript = u ''hi'', pcm_audio = [], voice_sample_rate = 24000,
      voice_status = None, audio_done_seen = False, event_types = []\<rparr>"

definition faultless :: os where
  "faultless = \<lparr>fails = (\<lambda>_. None), suffix = (\<lambda>_. []), written = (\<lambda>_. 0)\<rparr>"

definition sample_disk :: disk where
  "sample_disk = \<lparr>folder = Some Folder, entries = [u ''notes'' \<mapsto> Plain [] 420], calls = []\<rparr>"

lemma voice_digest_encodable: "encodable (voice_digest b)"
proof -
  have "encodable (hex_bytes (sha256 b))"
    by (rule is_ascii_encodable) (auto simp: is_ascii_def is_lower_hex_def dest!: hex_bytes_lower)
  then show ?thesis by (simp add: voice_digest_def u_def encodable_Cons is_scalar_small)
qed

lemma sample_files:
  "\<exists>files. artifact_files (u ''now'') sample_response (artifact_paths sample_response False True) = Inr files"
proof -
  let ?a = "artifact_paths sample_response False True"
  have "encodable (artifact_name sample_response ''.txt'')"
    using artifact_name_plain [of "''.txt''" sample_response]
    by (auto simp: plain_name_def list_all_iff encodable_def safe_file_char_def is_alnum_def is_letter_def
        is_ascii_digit_def intro!: is_scalar_small)
  moreover have "encodable MANIFEST_WARNING" by (simp add: MANIFEST_WARNING_def u_def is_scalar_small encodable_Cons)
  ultimately have "texts_encodable (PDict (manifest (u ''now'') sample_response ?a None (PFloat (u ''0.0'')) b))" for b
    by (simp add: manifest_def audio_section_def transcript_section_def artifact_paths_def opt_str_def
        sample_response_def voice_digest_encodable u_def encodable_Cons is_scalar_small)
  then have "encodable (json_pretty json_str 0 (PDict (manifest (u ''now'') sample_response ?a None (PFloat (u ''0.0'')) b)) @ [10])" for b
    using json_pretty_encodable by (simp add: encodable_Cons is_scalar_small)
  moreover have "rounded_duration sample_response = Inr (PFloat (u ''0.0''))"
    by (simp add: rounded_duration_def sample_response_def millionths_def float_text_def)
  moreover have "encodable (transcript sample_response)" by (simp add: sample_response_def u_def encodable_Cons is_scalar_small)
  moreover have "wav_path ?a = None" by (simp add: artifact_paths_def)
  ultimately show ?thesis by (simp add: artifact_files_def encode_utf8_def)
qed


lemma sample_names:
  "artifact_name sample_response ''.txt'' = u ''response_r1.txt''"
  "artifact_name sample_response ''.manifest.json'' = u ''response_r1.manifest.json''"
  by (simp_all add: artifact_name_def safe_file_component_def sample_response_def strip_chars_def u_def
      safe_file_char_def is_alnum_def is_letter_def is_ascii_digit_def Let_def)

lemma faultless_write:
  "entries d name = None \<Longrightarrow> entries d (46 # name @ [46]) = None \<Longrightarrow>
     \<exists>d'. atomic_write faultless name b d = (d', Inr ())"
  by (simp add: atomic_write_def occupied_def bindIO_def syscall_def faultless_def Let_def mkstemp_def set_entry_def
      returnIO_def finallyIO_def fill_and_link_def chmod_def write_file_def catchIO_def link_file_def
      ignore_OSError_def unlink_def)

lemma sample_persisted:
  "\<exists>d'. persist_voice_response faultless (u ''now'') sample_response False True sample_disk =
     (d', Inr (artifact_paths sample_response False True))"
proof -
  let ?a = "artifact_paths sample_response False True"
  obtain files where files: "artifact_files (u ''now'') sample_response ?a = Inr files" using sample_files by blast
  have "described (u ''now'') sample_response ?a files" using files by (rule artifact_files_described)
  then obtain b b' where f: "files = [(u ''response_r1.txt'', b), (u ''response_r1.manifest.json'', b')]"
    by (auto simp: described_def artifact_paths_def sample_names)
  obtain d where d: "check_free faultless (requested_paths ?a) (fst (prepare_folder faultless sample_disk)) = (d, Inr ())"
      "snd (prepare_folder faultless sample_disk) = Inr ()" "entries d = [u ''notes'' \<mapsto> Plain [] 420]"
    by (simp add: prepare_folder_def bindIO_def syscall_def Let_def faultless_def sample_disk_def ignore_OSError_def
        catchIO_def requested_paths_def artifact_paths_def map_filter_simps sample_names occupied_def returnIO_def u_def)
  obtain d1 where d1: "atomic_write faultless (u ''response_r1.txt'') b d = (d1, Inr ())"
    using faultless_write [of d "u ''response_r1.txt''" b] d(3) by (auto simp: u_def)
  then have "entries d1 = (entries d)(u ''response_r1.txt'' \<mapsto> Plain b 384)"
    using tripleD [OF triple_atomic_write [of "entries d" faultless "u ''response_r1.txt''" b], of d] by simp
  then obtain d2 where d2: "atomic_write faultless (u ''response_r1.manifest.json'') b' d1 = (d2, Inr ())"
    using faultless_write [of d1 "u ''response_r1.manifest.json''" b'] d(3) by (auto simp: u_def)
  have "persist_voice_response faultless (u ''now'') sample_response False True sample_disk = (d2, Inr ?a)"
    using d(1,2) d1 d2 files
    by (simp add: persist_voice_response_def Let_def bindIO_def liftIO_def returnIO_def f split_beta split: sum.split)
  then show ?thesis by blast
qed



section \<open>A removal that fails\<close>

text \<open>
  The artifact stays when only the removal of the temporary file fails: it is linked already, but not
  yet among the files that an error removes.
\<close>

definition stuck_temporaries :: os where
  "stuck_temporaries =
     \<lparr>fails = (\<lambda>h. case h of Remove p # _ \<Rightarrow> if hd p = 46 then Some OSError else None | _ \<Rightarrow> None), suffix = (\<lambda>_. []), written = (\<lambda>_. 0)\<rparr>"

theorem failed_cleanup_keeps_artifact:
  assumes "entries d name = None" and "entries d (46 # name @ [46]) = None"
  shows "\<exists>d'. write_all stuck_temporaries [(name, b)] [] d = (d', Inl OSError) \<and>
     entries d' name = Some (Plain b 384)"
  using assms
  by (simp add: atomic_write_def occupied_def bindIO_def syscall_def stuck_temporaries_def Let_def mkstemp_def
      set_entry_def returnIO_def finallyIO_def fill_and_link_def chmod_def write_file_def catchIO_def link_file_def
      ignore_OSError_def unlink_def raiseIO_def)

end
