(* ===== verification/Cli_Laws.thy ===== *)
theory Cli_Laws
  imports Voice_Cli Client_Samples Files_Laws
begin

text \<open>
  What the command line guarantees: every prompt is sent once and in order, on at most one connection,
  which is closed when the program ends, however it ends; and the exit code tells how it ended.
\<close>

section \<open>Open connections\<close>

fun is_open :: "wire \<Rightarrow> bool" where
  "is_open (Opened _) = True"
| "is_open _ = False"

definition balanced :: "client \<Rightarrow> wire_log \<Rightarrow> bool" where
  "balanced s w \<longleftrightarrow>
     length (filter is_open w) = length (filter (\<lambda>x. x = Closed) w) + (if connected s then 1 else 0)"

lemma balanced_close: "balanced s w \<Longrightarrow> close s w = (s', w') \<Longrightarrow> balanced s' w' \<and> \<not> connected s'"
  by (auto simp: close_def balanced_def)

lemma balanced_update [simp]:
  "balanced (s\<lparr>session_ready := b\<rparr>) w \<longleftrightarrow> balanced s w" "balanced (s\<lparr>conversation := i\<rparr>) w \<longleftrightarrow> balanced s w"
  by (simp_all add: balanced_def)

lemma balanced_fail_closed: "balanced s w \<Longrightarrow> fail_closed s w = (s', w') \<Longrightarrow> balanced s' w' \<and> \<not> connected s'"
  using balanced_close [of "s\<lparr>conversation := None\<rparr>"] by (simp add: fail_closed_def)

lemma balanced_receive: "balanced s w \<Longrightarrow> receive_event n s w = (s', w', r) \<Longrightarrow> balanced s' w'"
  by (auto simp: receive_event_def Let_def balanced_def close_def split: if_splits sum.splits)

lemma balanced_capture: "balanced s w \<Longrightarrow> capture_conversation_id s event = Inr s' \<Longrightarrow> balanced s' w"
  using capture_Inr [of s event s'] by (simp add: balanced_def)

lemma balanced_send: "balanced s w \<Longrightarrow> send_event n s w event = (w', r) \<Longrightarrow> balanced s w'"
  by (drule send_event_cases) (auto simp: balanced_def)

lemma balanced_deliver: "balanced s w \<Longrightarrow> deliver_turn n s w a b = (w', r) \<Longrightarrow> balanced s w'"
  by (auto simp: deliver_turn_def split: prod.splits sum.splits dest: balanced_send)

lemma balanced_show: "balanced s w \<Longrightarrow> show_delta s' w delta = (w', r) \<Longrightarrow> balanced s w'"
  by (auto simp: show_delta_def balanced_def split: option.splits)

lemma balanced_turn_event: "balanced s w \<Longrightarrow> turn_event s w c event = (s', w', r) \<Longrightarrow> balanced s' w'"
  by (auto simp: turn_event_def split: sum.splits prod.splits if_splits option.splits
      dest: balanced_capture balanced_show)

lemma turn_cases:
  obtains (1) e where "y = Inl e" | (2) c' response where "y = Inr (c', Some response)" | (3) c' where "y = Inr (c', None)"
  by (cases y) (auto, metis not_None_eq prod.exhaust)

lemma balanced_receive_response:
  "balanced s w \<Longrightarrow> receive_response n s w c = (s', w', r) \<Longrightarrow> balanced s' w'"
proof (induction n s w c arbitrary: s' w' r rule: receive_response.induct)
  case (1 n s w c)
  obtain s1 w1 x where got: "receive_event n s w = (s1, w1, x)" by (metis prod_cases3)
  with "1.prems"(1) have b1: "balanced s1 w1" by (rule balanced_receive)
  show ?case
  proof (cases x)
    case (Inl e)
    with got "1.prems"(2) b1 show ?thesis by (simp add: receive_response.simps [of n s w c])
  next
    case (Inr event)
    obtain s2 w2 y where step: "turn_event s1 w1 c event = (s2, w2, y)" by (metis prod_cases3)
    with b1 have b2: "balanced s2 w2" by (rule balanced_turn_event)
    show ?thesis
    proof (cases rule: turn_cases [of y])
      case (3 c')
      note y = this
      with got Inr step "1.prems"(2) have rec: "receive_response n s2 w2 c' = (s', w', r)"
        by (simp add: receive_response.simps [of n s w c])
      from "1.IH" [OF got [unfolded Inr, symmetric] refl refl step [symmetric] refl y refl refl b2 rec] show ?thesis .
    qed (use got Inr step "1.prems"(2) b2 in \<open>simp_all add: receive_response.simps [of n s w c]\<close>)
  qed
qed

lemma balanced_collect: "balanced s w \<Longrightarrow> collect_turn n s w = (s', w', r) \<Longrightarrow> balanced s' w'"
  by (simp add: collect_turn_def Let_def split: sum.splits prod.splits)
    (blast dest: balanced_receive_response balanced_fail_closed)+

lemma balanced_ready_turn: "balanced s w \<Longrightarrow> ready_turn n s w prompt = (s', w', r) \<Longrightarrow> balanced s' w'"
  by (auto simp: ready_turn_def Let_def split: sum.splits prod.splits
      dest: balanced_deliver balanced_fail_closed balanced_collect)

text \<open>An invariant of the wait, from its steps.\<close>

lemma wait_invariant:
  assumes "wait_for_session_ready n s w = Some (s', w', r)" and "I s w"
    and receives: "\<And>s w s1 w1 x. I s w \<Longrightarrow> receive_event n s w = (s1, w1, x) \<Longrightarrow> I s1 w1"
    and captures: "\<And>s w event s1. I s w \<Longrightarrow> capture_conversation_id s event = Inr s1 \<Longrightarrow> I s1 w"
    and ready: "\<And>s w. I s w \<Longrightarrow> I (s\<lparr>session_ready := True\<rparr>) w"
  shows "I s' w'"
proof -
  define P where "P = (\<lambda>n' s w (s', w', r :: exc + unit). n' = n \<longrightarrow> I s w \<longrightarrow> I s' w')"
  have "P n s w (s', w', r)"
    using assms(1)
  proof (rule wait_for_session_ready.raw_induct [where P = P, rotated])
    fix wait and n' :: net and s w res
    assume IH: "\<And>n s w res. wait n s w = Some res \<Longrightarrow> P n s w res"
    assume body: "(case receive_event n' s w of
        (s1, w1, Inl e) \<Rightarrow> Some (s1, w1, Inl e)
      | (s1, w1, Inr event) \<Rightarrow>
          (case capture_conversation_id s1 event of
             Inl e \<Rightarrow> Some (s1, w1, Inl e)
           | Inr s2 \<Rightarrow>
               if dget event (u ''type'') = PStr (u ''error'') then Some (s2, w1, Inl (remote_error event))
               else if dget event (u ''type'') = PStr (u ''session.updated'')
               then Some (s2\<lparr>session_ready := True\<rparr>, w1, Inr ())
               else wait n' s2 w1)) = Some res"
    show "P n' s w res"
    proof (cases "n' = n \<and> I s w")
      case True
      obtain s1 w1 x where got: "receive_event n s w = (s1, w1, x)" by (metis prod_cases3)
      with True have I1: "I s1 w1" using receives by blast
      show ?thesis
      proof (cases x)
        case (Inl e)
        with body got True have "res = (s1, w1, Inl e)" by simp
        with I1 show ?thesis by (simp add: P_def)
      next
        case (Inr event)
        show ?thesis
        proof (cases "capture_conversation_id s1 event")
          case (Inl e)
          with body got Inr True have "res = (s1, w1, Inl e)" by simp
          with I1 show ?thesis by (simp add: P_def)
        next
          case captured: (Inr s2)
          note I2 = captures [OF I1 captured]
          have "(s2, w1, Inl (remote_error event)) = res \<or> (s2\<lparr>session_ready := True\<rparr>, w1, Inr ()) = res \<or>
              wait n s2 w1 = Some res"
            using body by (simp add: got Inr True captured split: if_splits)
          then consider (failed) "res = (s2, w1, Inl (remote_error event))"
            | (finished) "res = (s2\<lparr>session_ready := True\<rparr>, w1, Inr ())" | (later) "wait n s2 w1 = Some res" by blast
          then show ?thesis
          proof cases
            case failed
            with I2 show ?thesis by (simp add: P_def)
          next
            case finished
            with ready [OF I2] show ?thesis by (simp add: P_def)
          next
            case later
            obtain s3 w3 r3 where res: "res = (s3, w3, r3)" by (metis prod_cases3)
            from IH [OF later] I2 show ?thesis by (simp add: P_def res)
          qed
        qed
      qed
    qed (cases res, auto simp: P_def)
  qed
  with assms(2) show ?thesis by (simp add: P_def)
qed

lemma balanced_wait:
  "balanced s w \<Longrightarrow> wait_for_session_ready n s w = Some (s', w', r) \<Longrightarrow> balanced s' w'"
  by (erule wait_invariant [rotated]) (auto intro: balanced_receive balanced_capture)

lemma balanced_open_session:
  assumes "balanced s w" and "\<not> connected s" and "open_session lib n s w url = Some (s', w', r)"
  shows "balanced s' w'"
proof -
  have "balanced (s\<lparr>connected := True\<rparr>) (w @ [Opened url])" "balanced s (w @ [Refused url])"
    using assms(1,2) by (simp_all add: balanced_def)
  with assms(3) show ?thesis
    by (auto simp: open_session_def Let_def split: option.splits sum.splits prod.splits
        dest: balanced_send balanced_wait)
qed

lemma balanced_connect: "balanced s w \<Longrightarrow> connect lib n s w = Some (s', w', r) \<Longrightarrow> balanced s' w'"
  by (auto simp: connect_def Let_def split: if_splits sum.splits option.splits prod.splits
      dest: balanced_open_session balanced_fail_closed)

lemma balanced_run_turn:
  assumes "balanced s w" and "run_turn lib n s w prompt = Some (s', w', r)"
  shows "balanced s' w'"
proof (cases "\<not> connected s \<or> \<not> session_ready s")
  case False
  with assms show ?thesis using balanced_ready_turn by (simp add: run_turn_def)
next
  case True
  then obtain s1 w1 x where joins: "connect lib n s w = Some (s1, w1, x)"
    using assms(2) by (auto simp: run_turn_def split: option.splits)
  with assms(1) have "balanced s1 w1" by (rule balanced_connect)
  with True joins assms(2) show ?thesis using balanced_ready_turn by (cases x) (auto simp: run_turn_def)
qed

lemma balanced_run_prompts:
  "balanced s w \<Longrightarrow> run_prompts env args s w d prompts = Some (s', w', d', r) \<Longrightarrow> balanced s' w'"
  by (induction env args s w d prompts rule: run_prompts.induct)
    (auto split: option.splits sum.splits prod.splits dest: balanced_run_turn)

section \<open>A session\<close>

fun ask_payloads :: "ask \<Rightarrow> pystr list" where
  "ask_payloads (Ask prompt) = turn_payloads prompt"
| "ask_payloads Stop = []"

lemma record_keeps:
  assumes "record_response env args w r d = (d', res)"
  shows "entries d \<subseteq>\<^sub>m entries d'"
proof (cases "record_audio args \<or> record_transcript args")
  case True
  obtain d1 x where run: "persist_voice_response (machine env) (clock env w) r (record_audio args) (record_transcript args) d =
      (d1, x)" by fastforce
  have "d' = d1" using assms True run by (cases x) (simp_all add: record_response_def bindIO_def returnIO_def)
  moreover have "entries d \<subseteq>\<^sub>m entries d1"
    using run
  proof (cases rule: persist_cases)
    case failed
    then show ?thesis by (simp add: untouched_def)
  next
    case (stored a files)
    have paths: "map fst files = requested_paths a"
      by (rule described_names [OF artifact_files_described [OF stored(4)]])
    then have "distinct (map fst files)" using requested_paths_plain(2) stored(2) by simp
    then have new: "entries d1 = entries d ++ map_of (map (\<lambda>(name, b). (name, Plain b 384)) files)"
      unfolding stored(5) by (rule with_files_distinct)
    have "dom (entries d) \<inter> fst ` set files = {}"
      using stored(3) unfolding paths [symmetric] by force
    then show ?thesis unfolding new by (subst map_add_comm) (simp_all only: dom_private map_le_map_add)
  qed
  ultimately show ?thesis by simp
next
  case False
  with assms show ?thesis by (simp add: record_response_def returnIO_def)
qed

lemma run_prompts_log:
  assumes "run_prompts env args s w d prompts = Some (s', w', d', r)" and "client_ok (tables env) s" and "connected s"
  shows "entries d \<subseteq>\<^sub>m entries d' \<and> (\<exists>new rest. w' = w @ new \<and> filter is_opened new = [] \<and>
     payloads new @ rest = concat (map ask_payloads prompts) \<and> (r = Finished \<longrightarrow> rest = [] \<and> Stop \<notin> set prompts))"
  using assms
proof (induction env args s w d prompts rule: run_prompts.induct)
  case (3 env args s w d prompt more)
  obtain s1 w1 x where run: "run_turn (tables env) (peer env) s w prompt = Some (s1, w1, x)"
    using "3.prems"(1) by (auto split: option.splits)
  obtain joining sent waited rest where "turn_log (tables env) s w prompt (s1, w1, x) joining sent waited rest"
    by (rule run_turn_log [OF "3.prems"(2) run])
  note log = turn_logD [OF this]
  let ?new = "sent @ waited"
  have w1: "w1 = w @ ?new" and joining: "joining = []" using log(1,4) "3.prems"(3) by simp_all
  have opened: "filter is_opened ?new = []"
    using log(2,3) by (auto simp: quiet_def waiting_log_def list_ex_iff filter_empty_conv)
  have sent: "payloads ?new @ rest = turn_payloads prompt"
    using log(3,6) joining "3.prems"(3) by (simp add: waiting_log_def)
  have stop: ?case if "s' = s1" "w' = w1" "r \<noteq> Finished" "entries d \<subseteq>\<^sub>m entries d'"
    using that w1 opened sent
    by (intro conjI exI [of _ ?new] exI [of _ "rest @ concat (map ask_payloads more)"]) simp_all
  show ?case
  proof (cases x)
    case (Inl e)
    with "3.prems"(1) run have "s' = s1" "w' = w1" "d' = d" "r = Failed e" by simp_all
    then show ?thesis by (intro stop) simp_all
  next
    case (Inr response)
    obtain d1 y where recorded: "record_response env args w1 response d = (d1, y)" by fastforce
    note kept = record_keeps [OF recorded]
    show ?thesis
    proof (cases y)
      case (Inl e)
      with "3.prems"(1) run Inr recorded have "s' = s1" "w' = w1" "d' = d1" "r = Failed e"
        using \<open>x = Inr response\<close> by simp_all
      with kept show ?thesis by (intro stop) simp_all
    next
      case y: (Inr z)
      have rec: "run_prompts env args s1 w1 d1 more = Some (s', w', d', r)"
        using "3.prems"(1) run Inr recorded y by simp
      have ok: "client_ok (tables env) s1" using run_turn_ok [OF "3.prems"(2) run] by simp
      have fin: "rest = []" "connected s1" using log(8) [OF Inr] by simp_all
      from "3.IH" [OF run refl refl Inr recorded [symmetric] y rec ok fin(2)] obtain v rest' where
        v: "entries d1 \<subseteq>\<^sub>m entries d'" "w' = w1 @ v" "filter is_opened v = []"
          "payloads v @ rest' = concat (map ask_payloads more)" "r = Finished \<longrightarrow> rest' = [] \<and> Stop \<notin> set more" by blast
      have "w' = w @ ?new @ v" using v(2) w1 by simp
      moreover have "filter is_opened (?new @ v) = []" using opened v(3) by simp
      moreover have "payloads (?new @ v) @ rest' = concat (map ask_payloads (Ask prompt # more))"
        using sent fin(1) v(4) by simp
      moreover have "entries d \<subseteq>\<^sub>m entries d'" using kept v(1) by (rule map_le_trans)
      ultimately show ?thesis using v(5) by (intro conjI exI [of _ "?new @ v"] exI [of _ rest']) simp_all
    qed
  qed
qed (auto intro!: exI [of _ "[]"])

lemma cli_client_Inr:
  assumes "cli_client env args api_key = Inr s"
  shows "client_ok (tables env) s \<and> \<not> connected s"
proof -
  from assms obtain key instr where
    config: "make_config (tables env) (cli_config args instr) = Inr (cli_config args instr)"
    and made: "make_client key (cli_config args instr) (arg_agent args) (allow_undocumented args)
        (if no_live_transcript args then None else Some (write_transcript_delta (screen env))) = Inr s"
    by (auto simp: cli_client_def bindR_Inr_iff make_config_Inr split: option.splits)
  from made show ?thesis
    using config by (auto simp: make_client_def bindR_Inr_iff client_ok_def resumable_def)
qed

lemma run_session_spec:
  assumes "run_session env args s d prompts = Some (s', w, d', r)" and "client_ok (tables env) s" and "\<not> connected s"
  shows "entries d \<subseteq>\<^sub>m entries d' \<and> length (filter is_opened w) \<le> 1 \<and> balanced s' w \<and> \<not> connected s' \<and>
     (\<exists>rest. payloads w @ rest = update_payloads (tables env) s @ concat (map ask_payloads prompts) \<and>
        (r = Finished \<longrightarrow> rest = [] \<and> Stop \<notin> set prompts))"
proof -
  obtain s1 w1 x where joins: "connect (tables env) (peer env) s [] = Some (s1, w1, x)"
    using assms(1) by (auto simp: run_session_def split: option.splits)
  have b0: "balanced s []" using assms(3) by (simp add: balanced_def)
  have b1: "balanced s1 w1" using b0 joins by (rule balanced_connect)
  from connect_spec [OF joins assms(3)] obtain rest where w1: "length (filter is_opened w1) \<le> 1"
    "payloads w1 @ rest = update_payloads (tables env) s" "x = Inr () \<longrightarrow> rest = [] \<and> connected s1"
    "\<forall>e. x = Inl e \<longrightarrow> shut s1 \<or> s1 = s" by auto
  show ?thesis
  proof (cases x)
    case (Inl e)
    with assms(1) joins have "s' = s1" "w = w1" "d' = d" "r = Failed e" by (simp_all add: run_session_def)
    moreover have "\<not> connected s1" using w1(4) Inl assms(3) by (auto simp: shut_def)
    moreover have "payloads w1 @ rest @ concat (map ask_payloads prompts) =
        update_payloads (tables env) s @ concat (map ask_payloads prompts)" using w1(2) by simp
    ultimately show ?thesis using w1(1) b1
      by (intro conjI exI [of _ "rest @ concat (map ask_payloads prompts)"]) simp_all
  next
    case (Inr y)
    then have one: "rest = []" "connected s1" using w1(3) by simp_all
    obtain s2 w2 d2 r2 where run: "run_prompts env args s1 w1 d prompts = Some (s2, w2, d2, r2)"
      using assms(1) joins Inr by (auto simp: run_session_def Let_def split: option.splits)
    obtain s3 w3 where closed: "close s2 w2 = (s3, w3)" by fastforce
    have res: "s' = s3" "w = w3" "d' = d2" "r = r2"
      using assms(1) joins Inr run closed by (simp_all add: run_session_def)
    have ok: "client_ok (tables env) s1" using connect_ok [OF assms(2) joins] by simp
    from run_prompts_log [OF run ok one(2)] obtain new rest' where log: "entries d \<subseteq>\<^sub>m entries d2" "w2 = w1 @ new"
      "filter is_opened new = []" "payloads new @ rest' = concat (map ask_payloads prompts)"
      "r2 = Finished \<longrightarrow> rest' = [] \<and> Stop \<notin> set prompts" by blast
    have final: "balanced s3 w3 \<and> \<not> connected s3"
      using balanced_run_prompts [OF b1 run] closed by (rule balanced_close)
    have "w3 = w2 \<or> w3 = w2 @ [Closed]" using close_spec [OF closed] by simp
    then have "payloads w3 = payloads w2" "filter is_opened w3 = filter is_opened w2" by auto
    then have "length (filter is_opened w3) \<le> 1"
      "payloads w3 @ rest' = update_payloads (tables env) s @ concat (map ask_payloads prompts)"
      using log(2-4) w1(1,2) one(1) by simp_all
    then show ?thesis using final log(1,5) unfolding res by blast
  qed
qed

section \<open>Guarantees\<close>


text \<open>
  The exit code is 0, 1, 2 or 130, and the message tells nothing but what it may: for exit code 1 it
  is a fixed text, whatever the exception was; and without a key, or with an unacceptable configuration,
  nothing is opened, sent or written.
\<close>

theorem cli_exit_code:
  assumes "main env args api_key keys d = Some (w, d', code, message)"
  shows "code \<in> {0, 1, 2, 130} \<and> (code = 1 \<longrightarrow> message = [Txt ''ERROR: voice session failed closed'']) \<and>
     (\<forall>e. cli_client env args api_key = Inl e \<longrightarrow> code \<in> {1, 2} \<and> w = [] \<and> d' = d)"
  using assms
  by (auto simp: main_def run_cli_def exit_status_def split: option.splits cli_end.splits sum.splits)

section \<open>A session of one prompt\<close>

definition sample_env :: surroundings where
  "sample_env = \<lparr>tables = plain_unicode, peer = sample_net, machine = faultless, clock = (\<lambda>_. u ''now''), screen = (\<lambda>_. None)\<rparr>"

definition sample_args :: cli_args where
  "sample_args =
     \<lparr>arg_prompt = Some (u ''hi''), arg_model = u ''grok-voice-think-fast-1.0'', arg_voice = u ''ara'',
      instructions_path = None, arg_effort = u ''high'', arg_rate = 24000, resumption = False, record_audio = False,
      record_transcript = False, no_live_transcript = True, arg_agent = None, allow_undocumented = False\<rparr>"

lemma sample_cli_client: "cli_client sample_env sample_args (Some (u ''key'')) = Inr sample_client"
proof -
  have "cli_config sample_args None = default_config"
    by (simp add: cli_config_def sample_args_def default_config_def)
  moreover have "strip (u ''key'') \<noteq> []" by (rule strip_letter [of 107]) (simp_all add: u_def is_space_def)
  then have "make_client (u ''key'') default_config None False None = Inr sample_client"
    using default_url by (auto simp: make_client_def validate_api_key_def sample_client_def u_def is_space_def)
  ultimately show ?thesis
    by (simp add: cli_client_def read_instructions_def sample_args_def sample_env_def default_config_accepted)
qed

lemma sample_main: "\<exists>w. main sample_env sample_args (Some (u ''key'')) [] sample_disk = Some (w, sample_disk, 0, [])"
proof -
  obtain w where w: "connect plain_unicode sample_net sample_client [] = Some (joined_client, w, Inr ())"
    "length (filter is_received w) = 1" using sample_connects by blast
  have run: "client_run plain_unicode sample_net joined_client w"
    using client_run.connected [OF sample_client_run w(1)] .
  obtain w' response where turn:
    "run_turn plain_unicode sample_net joined_client w (u ''hi'') = Some (joined_client, w', Inr response)"
    using joined_turn [OF run w(2)] by blast
  have "cli_prompts sample_args [] = [Ask (u ''hi'')]" by (simp add: cli_prompts_def sample_args_def)
  moreover have "record_response sample_env sample_args w' response sample_disk = (sample_disk, Inr ())"
    by (simp add: record_response_def sample_args_def returnIO_def)
  moreover have "tables sample_env = plain_unicode" "peer sample_env = sample_net" by (simp_all add: sample_env_def)
  ultimately show ?thesis
    using sample_cli_client w(1) turn
    by (simp add: main_def run_cli_def run_session_def exit_status_def close_def)
qed


theorem cli_exit_code_witness:
  "\<exists>w code message. main sample_env sample_args (Some (u ''key'')) [] sample_disk = Some (w, sample_disk, code, message) \<and>
     code \<in> {0, 1, 2, 130}"
proof -
  obtain w where run: "main sample_env sample_args (Some (u ''key'')) [] sample_disk = Some (w, sample_disk, 0, [])"
    using sample_main by blast
  with cli_exit_code [OF run] show ?thesis by blast
qed

end
