(* ===== verification/Workflow_Security.thy ===== *)
theory Workflow_Security
  imports Registry_Loader Py_Text
begin

text \<open>
  \<open>src/sentinel_core/workflow_security.py\<close>: the line-based validation of GitHub workflow files. The
  regular expressions are written out as the recognisers they are; none of them needs backtracking,
  because a space is neither a dash nor part of a keyword or a value.
\<close>

section \<open>Lines\<close>

text \<open>\<open>text.splitlines()\<close>\<close>

definition line_end :: "nat \<Rightarrow> bool" where
  "line_end c \<longleftrightarrow> c \<in> {10, 11, 12, 13, 28, 29, 30, 133, 8232, 8233}"

fun split_lines :: "pystr \<Rightarrow> pystr \<Rightarrow> pystr list" where
  "split_lines line [] = (if line = [] then [] else [line])"
| "split_lines line (c # s) =
     (if line_end c then line # split_lines [] (if c = 13 \<and> take 1 s = [10] then drop 1 s else s)
      else split_lines (line @ [c]) s)"

text \<open>The text before a comment marker outside quotes: \<open>quote\<close> is the open quote, \<open>escaped\<close> whether a
  backslash precedes.\<close>

fun before_comment :: "nat option \<Rightarrow> bool \<Rightarrow> pystr \<Rightarrow> pystr" where
  "before_comment quote escaped [] = []"
| "before_comment quote escaped (c # s) =
     (if quote = Some 34 \<and> escaped then c # before_comment quote False s
      else if quote = Some 34 \<and> c = 92 then c # before_comment quote True s
      else if quote = None \<and> c \<in> {39, 34} then c # before_comment (Some c) escaped s
      else if quote = Some c then c # before_comment None escaped s
      else if quote = None \<and> c = 35 then []
      else c # before_comment quote escaped s)"

definition without_yaml_comment :: "pystr \<Rightarrow> pystr" where
  "without_yaml_comment line = rstrip (before_comment None False line)"

definition indent :: "pystr \<Rightarrow> nat" where
  "indent line = length line - length (lstrip line)"

section \<open>Syntax of one line\<close>

definition is_hex :: "nat \<Rightarrow> bool" where
  "is_hex c \<longleftrightarrow> is_ascii_digit c \<or> 97 \<le> c \<and> c \<le> 102 \<or> 65 \<le> c \<and> c \<le> 70"

definition commit_hash :: "pystr \<Rightarrow> bool" where
  "commit_hash s \<longleftrightarrow> length s = 40 \<and> list_all is_hex s"

definition remote_action :: "pystr \<Rightarrow> bool" where
  "remote_action s \<longleftrightarrow>
     (let name = takeWhile (\<lambda>c. c \<noteq> 64 \<and> \<not> is_space c) s; rest = drop (length name) s
      in name \<noteq> [] \<and> rest \<noteq> [] \<and> hd rest = 64 \<and> commit_hash (tl rest))"

definition local_action :: "pystr \<Rightarrow> bool" where
  "local_action s \<longleftrightarrow>
     (case strip_prefix (u ''./'') s of
        Some path \<Rightarrow> path \<noteq> [] \<and> list_all (\<lambda>c. \<not> is_space c \<and> c \<noteq> 35) path
      | None \<Rightarrow> False)"

definition checkout_action :: "pystr \<Rightarrow> bool" where
  "checkout_action s \<longleftrightarrow>
     (case strip_prefix (u ''actions/checkout@'') s of Some h \<Rightarrow> commit_hash h | None \<Rightarrow> False)"

text \<open>\<open>-\s+\<close> at the start\<close>

definition after_dash :: "pystr \<Rightarrow> pystr option" where
  "after_dash s =
     (case s of c # t \<Rightarrow> if c = 45 \<and> t \<noteq> [] \<and> is_space (hd t) then Some (lstrip t) else None | [] \<Rightarrow> None)"

definition spaced_value :: "pystr \<Rightarrow> pystr option" where
  "spaced_value s =
     (if s = [] \<or> \<not> is_space (hd s) then None
      else
        let t = lstrip s; v = takeWhile (\<lambda>c. \<not> is_space c \<and> c \<noteq> 35) t
        in if v \<noteq> [] \<and> list_all is_space (drop (length v) t) then Some v else None)"

text \<open>The indentation, whether a dash stands before the key, and the value.\<close>

definition uses_match :: "pystr \<Rightarrow> (nat \<times> bool \<times> pystr) option" where
  "uses_match s =
     (let t = lstrip s; dash = after_dash t; key = (case dash of Some r \<Rightarrow> r | None \<Rightarrow> t)
      in map_option (\<lambda>v. (indent s, dash \<noteq> None, v)) (Option.bind (strip_prefix (u ''uses:'') key) spaced_value))"

definition with_match :: "pystr \<Rightarrow> nat option" where
  "with_match s =
     (case strip_prefix (u ''with:'') (lstrip s) of
        Some r \<Rightarrow> if list_all is_space r then Some (indent s) else None
      | None \<Rightarrow> None)"

definition persist_match :: "pystr \<Rightarrow> (nat \<times> pystr) option" where
  "persist_match s =
     (case Option.bind (strip_prefix (u ''persist-credentials:'') (lstrip s)) spaced_value of
        Some v \<Rightarrow> if v \<in> {u ''true'', u ''false''} then Some (indent s, v) else None
      | None \<Rightarrow> None)"

definition step_start_match :: "pystr \<Rightarrow> nat option" where
  "step_start_match s = (if after_dash (lstrip s) = None then None else Some (indent s))"

text \<open>A key anywhere in a line, plain or quoted, after the start, white space, a brace or a comma.\<close>

definition colon_follows :: "pystr \<Rightarrow> bool" where
  "colon_follows s \<longleftrightarrow> take 1 (lstrip s) = [58]"

definition key_at :: "string \<Rightarrow> pystr \<Rightarrow> bool" where
  "key_at name s \<longleftrightarrow>
     (case strip_prefix (u name) s of Some r \<Rightarrow> colon_follows r | None \<Rightarrow> False) \<or>
     (case s of
        [] \<Rightarrow> False
      | q # t \<Rightarrow> q \<in> {39, 34} \<and>
          (case strip_prefix (u name) t of
             Some r \<Rightarrow> r \<noteq> [] \<and> hd r \<in> {39, 34} \<and> colon_follows (tl r)
           | None \<Rightarrow> False))"

fun has_key_from :: "string \<Rightarrow> bool \<Rightarrow> pystr \<Rightarrow> bool" where
  "has_key_from name boundary s =
     (boundary \<and> key_at name s \<or>
      (case s of [] \<Rightarrow> False | c # t \<Rightarrow> has_key_from name (is_space c \<or> c \<in> {123, 44}) t))"

declare has_key_from.simps [simp del]

definition has_key :: "string \<Rightarrow> pystr \<Rightarrow> bool" where
  "has_key name s \<longleftrightarrow> has_key_from name True s"

section \<open>Steps\<close>

definition code_at :: "pystr list \<Rightarrow> nat \<Rightarrow> pystr" where
  "code_at lines i = without_yaml_comment (lines ! i)"

text \<open>\<open>range(a, b)\<close> until a non-blank line that satisfies the test; \<open>b\<close> if there is none.\<close>

definition first_line :: "pystr list \<Rightarrow> (pystr \<Rightarrow> bool) \<Rightarrow> nat \<Rightarrow> nat \<Rightarrow> nat" where
  "first_line lines test a b =
     (case find (\<lambda>i. strip (code_at lines i) \<noteq> [] \<and> test (code_at lines i)) [a..<b] of Some i \<Rightarrow> i | None \<Rightarrow> b)"

fun step_start :: "pystr list \<Rightarrow> nat \<Rightarrow> nat \<Rightarrow> (nat \<times> nat) option" where
  "step_start lines uses_indent 0 = None"
| "step_start lines uses_indent (Suc i) =
     (let code = code_at lines i in
      if strip code = [] then step_start lines uses_indent i
      else
        (case step_start_match code of
           Some k \<Rightarrow>
             if k < uses_indent then Some (i, k)
             else if indent code < uses_indent then None
             else step_start lines uses_indent i
         | None \<Rightarrow> if indent code < uses_indent then None else step_start lines uses_indent i))"

definition step_ends :: "nat \<Rightarrow> pystr \<Rightarrow> bool" where
  "step_ends step_indent code \<longleftrightarrow> indent code < step_indent \<or> step_start_match code = Some step_indent"

definition step_bounds :: "pystr list \<Rightarrow> nat \<Rightarrow> (nat \<times> nat) option" where
  "step_bounds lines uses_index =
     (case uses_match (code_at lines uses_index) of
        None \<Rightarrow> None
      | Some (k, dash, _) \<Rightarrow>
          map_option (\<lambda>(start, step_indent). (start, first_line lines (step_ends step_indent) (start + 1) (length lines)))
            (if dash then Some (uses_index, k) else step_start lines k uses_index))"

definition mapping_bounds :: "pystr list \<Rightarrow> nat \<Rightarrow> nat \<Rightarrow> nat \<times> nat" where
  "mapping_bounds lines start end_index =
     (let key_indent = indent (code_at lines start)
      in (start + 1, first_line lines (\<lambda>code. indent code \<le> key_indent) (start + 1) end_index))"

section \<open>Checkout\<close>

definition failure :: "pystr \<Rightarrow> nat \<Rightarrow> string \<Rightarrow> msg" where
  "failure source line text_of = [Str source, Txt '':'', Num (int line), Txt '': '', Txt text_of]"

definition with_lines :: "pystr list \<Rightarrow> nat \<Rightarrow> nat \<Rightarrow> nat \<Rightarrow> nat list" where
  "with_lines lines first past uses_indent =
     filter (\<lambda>i. with_match (code_at lines i) = Some uses_indent) [first..<past]"

definition persist_lines :: "pystr list \<Rightarrow> nat \<Rightarrow> nat \<Rightarrow> (nat \<times> nat \<times> pystr) list" where
  "persist_lines lines first past =
     List.map_filter (\<lambda>i. map_option (\<lambda>(k, v). (i, k, v)) (persist_match (code_at lines i))) [first..<past]"

definition content_lines :: "pystr list \<Rightarrow> nat \<Rightarrow> nat \<Rightarrow> nat list" where
  "content_lines lines a b = filter (\<lambda>i. strip (code_at lines i) \<noteq> []) [a..<b]"

definition direct_persist :: "(nat \<times> nat \<times> pystr) list \<Rightarrow> nat \<Rightarrow> nat \<Rightarrow> nat \<Rightarrow> pystr list" where
  "direct_persist persists a b k =
     map (\<lambda>(_, _, v). v) (filter (\<lambda>(i, j, _). a \<le> i \<and> i < b \<and> j = k) persists)"

definition outside_persist :: "(nat \<times> nat \<times> pystr) list \<Rightarrow> nat \<Rightarrow> nat \<Rightarrow> nat list" where
  "outside_persist persists a b = map fst (filter (\<lambda>(i, _, _). \<not> (a \<le> i \<and> i < b)) persists)"

definition validate_checkout_inputs ::
    "pystr list \<Rightarrow> pystr \<Rightarrow> nat \<Rightarrow> nat \<Rightarrow> nat \<Rightarrow> nat \<Rightarrow> msg list" where
  "validate_checkout_inputs lines source first past uses_line uses_indent =
     (case with_lines lines first past uses_indent of
        [with_line] \<Rightarrow>
          let (a, b) = mapping_bounds lines with_line past;
              contents = content_lines lines a b;
              persists = persist_lines lines first past
          in
            if contents = []
            then [failure source uses_line ''checkout with mapping must contain persist-credentials: false'']
            else
              let k = Min (set (map (\<lambda>i. indent (code_at lines i)) contents));
                  outside = outside_persist persists a b
              in (if outside \<noteq> [] then [failure source (hd outside + 1) ''persist-credentials must be inside checkout with'']
                  else []) @
                 (if direct_persist persists a b k \<noteq> [u ''false'']
                  then [failure source uses_line
                    ''checkout must set persist-credentials: false exactly once as a direct with input'']
                  else [])
      | _ \<Rightarrow> [failure source uses_line ''checkout must contain exactly one block-style with mapping''])"

section \<open>A workflow\<close>

text \<open>\<open>checked_steps\<close>: every step once, in the order of its first \<open>uses\<close> line.\<close>

fun each_once :: "'a list \<Rightarrow> 'a list \<Rightarrow> 'a list" where
  "each_once seen [] = []"
| "each_once seen (x # xs) = (if x \<in> set seen then each_once seen xs else x # each_once (x # seen) xs)"

definition line_failures :: "pystr \<Rightarrow> nat \<Rightarrow> pystr \<Rightarrow> msg list" where
  "line_failures source i code =
     (case uses_match code of
        None \<Rightarrow>
          if has_key ''uses'' code
          then [failure source i ''unsupported or ambiguous uses syntax; use block-style `uses: value`''] else []
      | Some (_, _, v) \<Rightarrow>
          if strip_prefix (u ''./'') v \<noteq> None
          then (if local_action v then [] else [failure source i ''invalid local action path: '' @ [Str v]])
          else if remote_action v then []
          else [failure source i ''remote action is not pinned to a 40-hex commit: '' @ [Str v]]) @
     (if has_key ''persist-credentials'' code \<and> persist_match code = None
      then [failure source i ''unsupported or ambiguous persist-credentials syntax''] else [])"

definition uses_lines :: "pystr list \<Rightarrow> nat \<Rightarrow> nat \<Rightarrow> (nat \<times> nat \<times> pystr) list" where
  "uses_lines lines a b =
     List.map_filter (\<lambda>i. map_option (\<lambda>(k, _, v). (i + 1, k, v)) (uses_match (code_at lines i))) [a..<b]"

fun locations :: "nat list \<Rightarrow> msg" where
  "locations [] = []"
| "locations [n] = [Num (int n)]"
| "locations (n # ns) = Num (int n) # Txt '', '' # locations ns"

definition step_failures :: "pystr list \<Rightarrow> pystr \<Rightarrow> nat \<times> nat \<Rightarrow> msg list" where
  "step_failures lines source bounds =
     (let (a, b) = bounds; uses = uses_lines lines a b in
      (if 1 < length uses
       then [[Str source, Txt '':''] @ locations (map fst uses) @ [Txt '': step contains duplicate uses keys'']] else []) @
      concat (map (\<lambda>(line, k, v).
        if checkout_action v then validate_checkout_inputs lines source a b line k else []) uses))"

definition validate_workflow_text :: "pystr \<Rightarrow> pystr \<Rightarrow> msg list" where
  "validate_workflow_text source text_of =
     (let lines = split_lines [] text_of;
          relevant = filter (\<lambda>i. strip (code_at lines i) \<noteq> []) [0..<length lines];
          allowed = filter (\<lambda>i. uses_match (code_at lines i) \<noteq> None) relevant;
          steps = each_once [] (List.map_filter (step_bounds lines) allowed)
      in concat (map (\<lambda>i. line_failures source (i + 1) (code_at lines i)) relevant) @
         concat (map (step_failures lines source) steps))"

section \<open>Files\<close>

text \<open>A path is its parts. An input is a path and, if it is a directory, the names in it. \<open>glob\<close> matches
  hidden names, too; a suffix is not the whole name.\<close>

record lint_input =
  input_path :: "pystr list"
  dir_names :: "pystr list option"

definition ends_with :: "pystr \<Rightarrow> pystr \<Rightarrow> bool" where
  "ends_with ending name \<longleftrightarrow> length ending \<le> length name \<and> drop (length name - length ending) name = ending"

definition yaml_name :: "pystr \<Rightarrow> bool" where
  "yaml_name name \<longleftrightarrow> ends_with (u ''.yml'') name \<or> ends_with (u ''.yaml'') name"

definition yaml_suffix :: "pystr \<Rightarrow> bool" where
  "yaml_suffix name \<longleftrightarrow>
     ends_with (u ''.yml'') name \<and> 4 < length name \<or> ends_with (u ''.yaml'') name \<and> 5 < length name"

definition expand_input :: "lint_input \<Rightarrow> pystr list list" where
  "expand_input item =
     (case dir_names item of
        Some file_names \<Rightarrow> map (\<lambda>name. input_path item @ [name]) (filter yaml_name file_names)
      | None \<Rightarrow> if input_path item \<noteq> [] \<and> yaml_suffix (last (input_path item)) then [input_path item] else [])"

definition workflow_paths :: "lint_input list \<Rightarrow> pystr list list" where
  "workflow_paths inputs = sort (remdups (concat (map expand_input inputs)))"

text \<open>\<open>str(path)\<close>\<close>

definition path_text :: "pystr list \<Rightarrow> pystr" where
  "path_text parts =
     (if parts = [] then u ''.''
      else if hd parts = u ''/'' then 47 # join [47] (tl parts) else join [47] parts)"

fun validate_files :: "(pystr list \<Rightarrow> exc + bytes) \<Rightarrow> pystr list list \<Rightarrow> exc + msg list" where
  "validate_files read [] = Inr []"
| "validate_files read (path # paths) =
     bindR (bindR (read path) read_text) (\<lambda>text_of.
     bindR (validate_files read paths) (\<lambda>failures.
     Inr (validate_workflow_text (path_text path) text_of @ failures)))"

definition validate_workflow_paths :: "(pystr list \<Rightarrow> exc + bytes) \<Rightarrow> lint_input list \<Rightarrow> exc + msg list" where
  "validate_workflow_paths read inputs = validate_files read (workflow_paths inputs)"

definition lint_main :: "(pystr list \<Rightarrow> exc + bytes) \<Rightarrow> lint_input list \<Rightarrow> exc + int \<times> msg list" where
  "lint_main read inputs =
     bindR (validate_workflow_paths read inputs) (\<lambda>failures.
     Inr (if failures \<noteq> [] then (1, failures)
       else (0, [[Txt ''validated '', Num (int (length (workflow_paths inputs))), Txt '' workflow files'']])))"

end
