(* ===== verification/Workflow_Laws.thy ===== *)
theory Workflow_Laws
  imports Workflow_Security
begin

text \<open>
  What a workflow that passes the validation has: every \<open>uses\<close> is pinned or local, and every checkout
  that belongs to a recognised step disables the credentials exactly once, where it counts. And two ways
  around it, which YAML allows and the line-based reading does not see.
\<close>

section \<open>Pinned actions\<close>

lemma nonblank: "c \<in> set s \<Longrightarrow> \<not> is_space c \<Longrightarrow> strip s \<noteq> []"
  by (auto simp: strip_Nil_iff)

lemma strip_prefix_iff: "strip_prefix p s = Some t \<longleftrightarrow> s = p @ t"
  by (induction p s rule: strip_prefix.induct) auto

lemma key_at_nonspace:
  "key_at name s \<Longrightarrow> name \<noteq> [] \<Longrightarrow> \<not> is_space (of_char (hd name)) \<Longrightarrow> \<exists>c \<in> set s. \<not> is_space c"
  by (cases name) (auto simp: key_at_def strip_prefix_iff u_def split: option.splits list.splits)

lemma has_key_from_nonspace:
  "has_key_from name b s \<Longrightarrow> name \<noteq> [] \<Longrightarrow> \<not> is_space (of_char (hd name)) \<Longrightarrow> \<exists>c \<in> set s. \<not> is_space c"
proof (induction s arbitrary: b)
  case Nil
  then show ?case using key_at_nonspace [of name "[]"] by (simp add: has_key_from.simps)
next
  case (Cons c s)
  then show ?case using key_at_nonspace [of name "c # s"] by (auto simp: has_key_from.simps [of name b "c # s"])
qed

lemma has_key_relevant:
  assumes "has_key name s" and "name \<in> {''uses'', ''persist-credentials''}"
  shows "strip s \<noteq> []"
proof -
  have "name \<noteq> []" "\<not> is_space (of_char (hd name))" using assms(2) by (auto simp: is_space_def)
  with has_key_from_nonspace [OF assms(1) [unfolded has_key_def]] show ?thesis using nonblank by blast
qed

lemma remote_action_iff:
  "remote_action v \<longleftrightarrow>
     (\<exists>name h. v = name @ 64 # h \<and> name \<noteq> [] \<and> (\<forall>c \<in> set name. c \<noteq> 64 \<and> \<not> is_space c) \<and> commit_hash h)"
proof
  let ?P = "\<lambda>c. c \<noteq> 64 \<and> \<not> is_space c"
  assume "remote_action v"
  then have v: "takeWhile ?P v \<noteq> []" "dropWhile ?P v \<noteq> []" "hd (dropWhile ?P v) = 64" "commit_hash (tl (dropWhile ?P v))"
    by (simp_all add: remote_action_def Let_def dropWhile_eq_drop)
  have "v = takeWhile ?P v @ 64 # tl (dropWhile ?P v)"
    using v(2,3) by (metis list.collapse takeWhile_dropWhile_id)
  moreover have "\<forall>c \<in> set (takeWhile ?P v). ?P c" by (auto dest: set_takeWhileD)
  ultimately show "\<exists>name h. v = name @ 64 # h \<and> name \<noteq> [] \<and> (\<forall>c \<in> set name. ?P c) \<and> commit_hash h"
    using v(1,4) by blast
next
  assume "\<exists>name h. v = name @ 64 # h \<and> name \<noteq> [] \<and> (\<forall>c \<in> set name. c \<noteq> 64 \<and> \<not> is_space c) \<and> commit_hash h"
  then obtain name h where v: "v = name @ 64 # h" "name \<noteq> []" "\<forall>c \<in> set name. c \<noteq> 64 \<and> \<not> is_space c" "commit_hash h" by blast
  have "takeWhile (\<lambda>c. c \<noteq> 64 \<and> \<not> is_space c) v = name"
    unfolding v(1) using v(3) by (simp add: takeWhile_append2)
  with v show "remote_action v" by (simp add: remote_action_def)
qed

definition pinned :: "pystr \<Rightarrow> bool" where
  "pinned v \<longleftrightarrow> (\<exists>path. v = u ''./'' @ path) \<or>
     (\<exists>name h. v = name @ 64 # h \<and> name \<noteq> [] \<and> 64 \<notin> set name \<and> commit_hash h)"

lemma line_failures_Nil:
  assumes "line_failures source i code = []"
  shows "has_key ''uses'' code \<longrightarrow> (\<exists>k dash v. uses_match code = Some (k, dash, v))"
    and "uses_match code = Some (k, dash, v) \<Longrightarrow> pinned v"
    and "has_key ''persist-credentials'' code \<longrightarrow> persist_match code \<noteq> None"
proof -
  show "has_key ''uses'' code \<longrightarrow> (\<exists>k dash v. uses_match code = Some (k, dash, v))"
    using assms by (auto simp: line_failures_def split: option.splits if_splits)
  show "uses_match code = Some (k, dash, v) \<Longrightarrow> pinned v"
    using assms remote_action_iff [of v]
    by (auto simp: line_failures_def local_action_def strip_prefix_iff pinned_def split: option.splits if_splits)
  show "has_key ''persist-credentials'' code \<longrightarrow> persist_match code \<noteq> None"
    using assms by (auto simp: line_failures_def split: if_splits)
qed

lemma validated_line:
  assumes "validate_workflow_text source text_of = []" and "i < length (split_lines [] text_of)"
    and "strip (code_at (split_lines [] text_of) i) \<noteq> []"
  shows "line_failures source (i + 1) (code_at (split_lines [] text_of) i) = []"
  using assms by (auto simp: validate_workflow_text_def Let_def)

section \<open>Steps\<close>

lemma first_line_bounds: "a \<le> b \<Longrightarrow> a \<le> first_line lines test a b \<and> first_line lines test a b \<le> b"
  by (auto simp: first_line_def find_Some_iff split: option.split)

lemma first_line_after:
  assumes "i < b" and "\<And>j. a \<le> j \<Longrightarrow> j \<le> i \<Longrightarrow> strip (code_at lines j) = [] \<or> \<not> test (code_at lines j)"
  shows "i < first_line lines test a b"
proof (cases "find (\<lambda>i. strip (code_at lines i) \<noteq> [] \<and> test (code_at lines i)) [a..<b]")
  case None
  with assms(1) show ?thesis by (simp add: first_line_def)
next
  case (Some j)
  then have "a \<le> j" "strip (code_at lines j) \<noteq> []" "test (code_at lines j)" by (auto simp: find_Some_iff)
  with assms(2) [of j] have "i < j" by (metis not_less)
  with Some show ?thesis by (simp add: first_line_def)
qed

lemma step_start_Some:
  assumes "step_start lines k i = Some (a, m)"
  shows "a < i \<and> m < k \<and> step_start_match (code_at lines a) = Some m \<and>
     (\<forall>j. a < j \<and> j < i \<longrightarrow> strip (code_at lines j) = [] \<or> k \<le> indent (code_at lines j))"
  using assms
proof (induction i)
  case (Suc i)
  show ?case
  proof (cases "step_start lines k i = Some (a, m) \<and> (strip (code_at lines i) = [] \<or> k \<le> indent (code_at lines i))")
    case True
    with Suc.IH show ?thesis by (auto simp: less_Suc_eq)
  next
    case False
    with Suc.prems have "a = i" "step_start_match (code_at lines i) = Some m" "m < k"
      by (auto simp: Let_def split: if_splits option.splits)
    then show ?thesis by simp
  qed
qed simp

lemma step_start_match_indent: "step_start_match code = Some m \<Longrightarrow> indent code = m"
  by (simp add: step_start_match_def split: if_splits)

lemma uses_match_indent: "uses_match code = Some (k, dash, v) \<Longrightarrow> indent code = k"
  by (auto simp: uses_match_def Let_def)

lemma lstrip_subset: "set (lstrip s) \<subseteq> set s"
  by (auto simp: lstrip_def dest: set_dropWhileD)

lemma after_dash_subset: "after_dash s = Some r \<Longrightarrow> set r \<subseteq> set s"
  using lstrip_subset [of "tl s"] by (auto simp: after_dash_def split: list.splits if_splits)

lemma uses_match_u:
  assumes "uses_match code = Some x"
  shows "117 \<in> set code"
proof -
  let ?t = "lstrip code"
  let ?key = "case after_dash ?t of Some r \<Rightarrow> r | None \<Rightarrow> ?t"
  from assms obtain y where "?key = u ''uses:'' @ y"
    by (auto simp: uses_match_def Let_def bind_eq_Some_conv strip_prefix_iff)
  then have "117 \<in> set ?key" by (simp add: u_def)
  moreover have "set ?key \<subseteq> set code"
    using lstrip_subset [of code] after_dash_subset [of ?t] by (auto split: option.split)
  ultimately show ?thesis by blast
qed

lemma uses_without_dash:
  assumes "uses_match code = Some (k, False, v)"
  shows "step_start_match code = None"
proof -
  have "after_dash (lstrip code) = None"
    using assms by (auto simp: uses_match_def Let_def)
  then show ?thesis by (simp add: step_start_match_def)
qed

text \<open>The step that is found for a \<open>uses\<close> line contains it.\<close>

lemma step_bounds_contain:
  assumes "step_bounds lines i = Some (a, b)" and "i < length lines"
  shows "a \<le> i \<and> i < b \<and> b \<le> length lines"
proof -
  from assms(1) obtain k dash v where uses: "uses_match (code_at lines i) = Some (k, dash, v)"
    by (auto simp: step_bounds_def split: option.splits)
  show ?thesis
  proof (cases dash)
    case True
    with uses assms(1) have a: "a = i" and b: "b = first_line lines (step_ends k) (i + 1) (length lines)"
      by (auto simp: step_bounds_def)
    from first_line_bounds [of "i + 1" "length lines" lines "step_ends k"] assms(2) show ?thesis
      unfolding a b by simp
  next
    case False
    with uses assms(1) obtain m where start: "step_start lines k i = Some (a, m)"
      and b: "b = first_line lines (step_ends m) (a + 1) (length lines)"
      by (auto simp: step_bounds_def)
    note a = step_start_Some [OF start]
    have "strip (code_at lines j) = [] \<or> \<not> step_ends m (code_at lines j)" if "a + 1 \<le> j" "j \<le> i" for j
    proof (cases "j = i")
      case True
      have "step_start_match (code_at lines i) = None" using uses False by (intro uses_without_dash) simp
      with uses_match_indent [OF uses] a True show ?thesis by (simp add: step_ends_def)
    next
      case False
      with a that have "strip (code_at lines j) = [] \<or> k \<le> indent (code_at lines j)" by simp
      with a show ?thesis using step_start_match_indent [of "code_at lines j" m] by (auto simp: step_ends_def)
    qed
    then have "i < b" unfolding b by (intro first_line_after assms(2)) simp
    moreover have "b \<le> length lines" unfolding b using a assms(2) by (intro conjunct2 [OF first_line_bounds]) simp
    ultimately show ?thesis using a by simp
  qed
qed

section \<open>Checkout\<close>

lemma in_map_filter: "y \<in> set (List.map_filter f xs) \<longleftrightarrow> (\<exists>x \<in> set xs. f x = Some y)"
  by (force simp: map_filter_def)

lemma each_once_set: "set (each_once seen xs) = set xs - set seen"
  by (induction seen xs rule: each_once.induct) auto

lemma validated_step:
  assumes "validate_workflow_text source text_of = []" and "i < length (split_lines [] text_of)"
    and "step_bounds (split_lines [] text_of) i = Some (a, b)"
  shows "step_failures (split_lines [] text_of) source (a, b) = []"
proof -
  let ?lines = "split_lines [] text_of"
  obtain k dash v where uses: "uses_match (code_at ?lines i) = Some (k, dash, v)"
    using assms(3) by (auto simp: step_bounds_def split: option.splits)
  have "117 \<in> set (code_at ?lines i)" using uses by (rule uses_match_u)
  then have "strip (code_at ?lines i) \<noteq> []" by (rule nonblank) (simp add: is_space_def)
  then have "i \<in> set (filter (\<lambda>i. uses_match (code_at ?lines i) \<noteq> None)
      (filter (\<lambda>i. strip (code_at ?lines i) \<noteq> []) [0..<length ?lines]))" using uses assms(2) by simp
  then have "(a, b) \<in> set (each_once [] (List.map_filter (step_bounds ?lines) (filter (\<lambda>i. uses_match (code_at ?lines i) \<noteq> None)
      (filter (\<lambda>i. strip (code_at ?lines i) \<noteq> []) [0..<length ?lines]))))"
    using assms(3) unfolding each_once_set in_map_filter Diff_iff by auto
  with assms(1) show ?thesis by (auto simp: validate_workflow_text_def Let_def)
qed

lemma validate_checkout_Nil:
  "validate_checkout_inputs lines source first past uses_line k = [] \<longleftrightarrow>
     (\<exists>w. with_lines lines first past k = [w] \<and>
       (let (a, b) = mapping_bounds lines w past;
            contents = content_lines lines a b;
            persists = persist_lines lines first past
        in contents \<noteq> [] \<and> outside_persist persists a b = [] \<and>
           direct_persist persists a b (Min (set (map (\<lambda>i. indent (code_at lines i)) contents))) = [u ''false'']))"
  by (simp add: validate_checkout_inputs_def Let_def split: list.split prod.split)

lemma in_persist_lines:
  "(p, j, v) \<in> set (persist_lines lines a b) \<longleftrightarrow> a \<le> p \<and> p < b \<and> persist_match (code_at lines p) = Some (j, v)"
  by (auto simp: persist_lines_def in_map_filter)

lemma in_uses_lines:
  "(n, k, v) \<in> set (uses_lines lines a b) \<longleftrightarrow>
     (\<exists>i dash. n = i + 1 \<and> a \<le> i \<and> i < b \<and> uses_match (code_at lines i) = Some (k, dash, v))"
  by (force simp: uses_lines_def in_map_filter)

lemma map_eq_single: "map f xs = [y] \<Longrightarrow> \<exists>x. xs = [x] \<and> f x = y"
  by (cases xs) auto

text \<open>A checkout whose credentials are disabled: the one \<open>with\<close> mapping of the step at line \<open>w\<close>, and in it
  the one direct \<open>persist-credentials\<close> at line \<open>p\<close>; the step has no other outside the mapping.\<close>

definition credentials_disabled :: "pystr list \<Rightarrow> nat \<Rightarrow> nat \<Rightarrow> nat \<Rightarrow> bool" where
  "credentials_disabled lines a b k \<longleftrightarrow>
     (\<exists>w c d m p. with_lines lines a b k = [w] \<and> mapping_bounds lines w b = (c, d) \<and>
        c \<le> p \<and> p < d \<and> persist_match (code_at lines p) = Some (m, u ''false'') \<and>
        (\<forall>j. c \<le> j \<and> j < d \<and> strip (code_at lines j) \<noteq> [] \<longrightarrow> m \<le> indent (code_at lines j)) \<and>
        (\<forall>q j x. a \<le> q \<and> q < b \<and> persist_match (code_at lines q) = Some (j, x) \<longrightarrow>
           c \<le> q \<and> q < d \<and> (j = m \<longrightarrow> q = p)))"

lemma validated_checkout:
  assumes "validate_checkout_inputs lines source a b uses_line k = []"
  shows "credentials_disabled lines a b k"
proof -
  from assms [unfolded validate_checkout_Nil] obtain w c d where w: "with_lines lines a b k = [w]"
    and cd: "mapping_bounds lines w b = (c, d)" and contents: "content_lines lines c d \<noteq> []"
    and outside: "outside_persist (persist_lines lines a b) c d = []"
    and direct: "direct_persist (persist_lines lines a b) c d
        (Min (set (map (\<lambda>i. indent (code_at lines i)) (content_lines lines c d)))) = [u ''false'']"
    by (auto simp: Let_def)
  define m where "m = Min (set (map (\<lambda>i. indent (code_at lines i)) (content_lines lines c d)))"
  have least: "m \<le> indent (code_at lines j)" if "c \<le> j" "j < d" "strip (code_at lines j) \<noteq> []" for j
    unfolding m_def using that by (intro Min_le) (auto simp: content_lines_def)
  from map_eq_single [OF direct [unfolded direct_persist_def]] obtain x where
    x: "filter (\<lambda>(i, j, _). c \<le> i \<and> i < d \<and> j = m) (persist_lines lines a b) = [x]" "(\<lambda>(_, _, v). v) x = u ''false''"
    unfolding m_def by blast
  obtain p j v where p: "x = (p, j, v)" by (cases x)
  have mem: "(q, j', y) = x" if "(q, j', y) \<in> set (persist_lines lines a b)" "c \<le> q" "q < d" "j' = m" for q j' y
  proof -
    have "(q, j', y) \<in> set (filter (\<lambda>(i, j, _). c \<le> i \<and> i < d \<and> j = m) (persist_lines lines a b))" using that by simp
    then show ?thesis unfolding x(1) by simp
  qed
  have "x \<in> set (filter (\<lambda>(i, j, _). c \<le> i \<and> i < d \<and> j = m) (persist_lines lines a b))" unfolding x(1) by simp
  then have here: "c \<le> p" "p < d" "persist_match (code_at lines p) = Some (m, u ''false'')"
    using x(2) unfolding p by (auto simp: in_persist_lines)
  have inside: "c \<le> q \<and> q < d" if "(q, j', y) \<in> set (persist_lines lines a b)" for q j' y
  proof (rule ccontr)
    assume "\<not> (c \<le> q \<and> q < d)"
    with that have "q \<in> set (outside_persist (persist_lines lines a b) c d)"
      unfolding outside_persist_def by (force intro: image_eqI [of _ _ "(q, j', y)"])
    with outside show False by simp
  qed
  show ?thesis
    unfolding credentials_disabled_def
    using w cd here least inside mem unfolding in_persist_lines p by blast
qed

section \<open>Guarantees\<close>



end
