(* ===== verification/Workflow_Samples.thy ===== *)
theory Workflow_Samples
  imports Workflow_Laws
begin

text \<open>
  A workflow that passes the validation, as the witness of its guarantees, and one that passes although
  its checkout keeps the credentials.
\<close>

section \<open>Writing a workflow\<close>

lemma split_lines_append: "list_all (\<lambda>c. \<not> line_end c) l \<Longrightarrow> split_lines line (l @ s) = split_lines (line @ l) s"
  by (induction l arbitrary: line) simp_all

lemma split_lines_Cons: "list_all (\<lambda>c. \<not> line_end c) l \<Longrightarrow> split_lines [] (l @ 10 # s) = l # split_lines [] s"
  by (simp add: split_lines_append line_end_def)

lemma split_lines_last: "list_all (\<lambda>c. \<not> line_end c) l \<Longrightarrow> l \<noteq> [] \<Longrightarrow> split_lines [] l = [l]"
  using split_lines_append [of l "[]" "[]"] by simp

definition plain_code :: "pystr \<Rightarrow> bool" where
  "plain_code s \<longleftrightarrow> s \<noteq> [] \<and> \<not> is_space (last s) \<and> list_all (\<lambda>c. 32 \<le> c \<and> c < 128 \<and> c \<notin> {34, 35, 39}) s"

lemma printable_in_line: "32 \<le> c \<Longrightarrow> c < 128 \<Longrightarrow> \<not> line_end c"
  by (simp add: line_end_def)

lemma plain_code_line: "plain_code s \<Longrightarrow> list_all (\<lambda>c. \<not> line_end c) s \<and> s \<noteq> []"
  using printable_in_line by (simp add: plain_code_def list_all_iff)

lemma space_32: "is_space 32"
  by (simp add: is_space_def)

lemma before_comment_plain: "list_all (\<lambda>c. c \<notin> {34, 35, 39}) s \<Longrightarrow> before_comment None b s = s"
  by (induction s) simp_all

lemma without_comment_plain: "plain_code s \<Longrightarrow> without_yaml_comment s = s"
proof -
  assume s: "plain_code s"
  then have "before_comment None False s = s" by (intro before_comment_plain) (auto simp: plain_code_def list_all_iff)
  moreover have "rstrip s = s"
    using s by (cases "rev s") (auto simp: plain_code_def rstrip_def last_rev rev_swap)
  ultimately show ?thesis by (simp add: without_yaml_comment_def)
qed

lemma has_key_first: "has_key name s \<Longrightarrow> name \<noteq> [] \<Longrightarrow> of_char (hd name) \<in> set s"
proof -
  have key: "key_at name t \<Longrightarrow> name \<noteq> [] \<Longrightarrow> of_char (hd name) \<in> set t" for t
    by (cases name) (auto simp: key_at_def strip_prefix_iff u_def split: option.splits list.splits)
  have "has_key_from name b t \<Longrightarrow> name \<noteq> [] \<Longrightarrow> of_char (hd name) \<in> set t" for b t
  proof (induction t arbitrary: b)
    case Nil
    then show ?case using key [of "[]"] by (simp add: has_key_from.simps)
  next
    case (Cons c t)
    then show ?case using key [of "c # t"] by (auto simp: has_key_from.simps [of name b "c # t"])
  qed
  then show "has_key name s \<Longrightarrow> name \<noteq> [] \<Longrightarrow> of_char (hd name) \<in> set s" by (simp add: has_key_def)
qed

lemma uses_match_block:
  assumes "list_all (\<lambda>c. \<not> is_space c \<and> c \<noteq> 35) v" and "v \<noteq> []"
  shows "uses_match (replicate n 32 @ u ''uses: '' @ v) = Some (n, False, v)"
proof -
  have skip: "lstrip (replicate n 32 @ 117 # t) = 117 # t" for t
    by (simp add: lstrip_def is_space_def dropWhile_append)
  have v: "dropWhile is_space v = v" using assms by (cases v) simp_all
  have all: "takeWhile (\<lambda>c. \<not> is_space c \<and> c \<noteq> 35) v = v" using assms(1) by (simp add: takeWhile_eq_all_conv list_all_iff)
  have "spaced_value (32 # v) = Some v"
    using assms(2) by (simp add: spaced_value_def lstrip_def v space_32 all Let_def)
  then show ?thesis
    by (simp add: uses_match_def Let_def u_def skip after_dash_def indent_def)
qed

definition sample_hash :: pystr where
  "sample_hash = replicate 40 48"

definition checkout_line :: pystr where
  "checkout_line = replicate 2 32 @ u ''uses: '' @ u ''actions/checkout@'' @ sample_hash"

lemma checkout_line_plain: "plain_code checkout_line"
  by (simp add: plain_code_def checkout_line_def sample_hash_def u_def is_space_def list_all_iff)

lemma checkout_line_match: "uses_match checkout_line = Some (2, False, u ''actions/checkout@'' @ sample_hash)"
  unfolding checkout_line_def
  by (rule uses_match_block) (simp_all add: sample_hash_def u_def is_space_def list_all_iff)

lemma sample_hash_ok: "commit_hash sample_hash" "checkout_action (u ''actions/checkout@'' @ sample_hash)"
  "remote_action (u ''actions/checkout@'' @ sample_hash)"
proof -
  show h: "commit_hash sample_hash" by (simp add: commit_hash_def sample_hash_def is_hex_def is_ascii_digit_def list_all_iff)
  then show "checkout_action (u ''actions/checkout@'' @ sample_hash)"
    by (simp add: checkout_action_def strip_prefix_iff split: option.split)
  have "u ''actions/checkout@'' @ sample_hash = u ''actions/checkout'' @ 64 # sample_hash" by (simp add: u_def)
  moreover have "\<forall>c \<in> set (u ''actions/checkout''). c \<noteq> 64 \<and> \<not> is_space c" by (simp add: u_def is_space_def)
  ultimately show "remote_action (u ''actions/checkout@'' @ sample_hash)"
    unfolding remote_action_iff using h by (intro exI [of _ "u ''actions/checkout''"] exI [of _ sample_hash]) (simp add: u_def)
qed

definition sample_lines :: "pystr list" where
  "sample_lines = [u ''- name: x'', checkout_line, u ''  with:'', u ''    persist-credentials: false'']"

definition sample_workflow :: pystr where
  "sample_workflow = u ''- name: x'' @ 10 # checkout_line @ 10 # u ''  with:'' @ 10 # u ''    persist-credentials: false''"

lemma sample_plain: "list_all plain_code sample_lines"
  by (simp add: sample_lines_def checkout_line_plain) (simp add: plain_code_def u_def is_space_def)

lemma sample_split: "split_lines [] sample_workflow = sample_lines"
  using sample_plain unfolding sample_workflow_def sample_lines_def
  by (simp add: split_lines_Cons split_lines_last plain_code_line)

lemma sample_code: "code_at sample_lines 0 = u ''- name: x''" "code_at sample_lines (Suc 0) = checkout_line"
  "code_at sample_lines 2 = u ''  with:''" "code_at sample_lines 3 = u ''    persist-credentials: false''"
  using sample_plain by (simp_all add: code_at_def sample_lines_def without_comment_plain)

lemma sample_matches:
  "uses_match (u ''- name: x'') = None" "uses_match (u ''  with:'') = None"
  "uses_match (u ''    persist-credentials: false'') = None"
  "persist_match (u ''    persist-credentials: false'') = Some (4, u ''false'')"
  "with_match (u ''  with:'') = Some 2" "with_match (u ''- name: x'') = None" "with_match (u ''    persist-credentials: false'') = None"
  "persist_match (u ''- name: x'') = None" "persist_match (u ''  with:'') = None"
  "step_start_match (u ''- name: x'') = Some 0" "step_start_match (u ''  with:'') = None"
  "step_start_match (u ''    persist-credentials: false'') = None"
  "indent (u ''  with:'') = 2" "indent (u ''    persist-credentials: false'') = 4"
  by (simp_all add: uses_match_def with_match_def persist_match_def step_start_match_def u_def lstrip_def is_space_def
      after_dash_def spaced_value_def indent_def Let_def)

lemma checkout_matches: "with_match checkout_line = None" "persist_match checkout_line = None"
  "step_start_match checkout_line = None" "indent checkout_line = 2" "\<not> has_key ''persist-credentials'' checkout_line"
proof -
  have skip: "lstrip checkout_line = 117 # tl (u ''uses: '') @ u ''actions/checkout@'' @ sample_hash"
    by (simp add: checkout_line_def lstrip_def u_def is_space_def numeral_2_eq_2)
  then show "with_match checkout_line = None" "persist_match checkout_line = None"
    "step_start_match checkout_line = None"
    by (simp_all add: with_match_def persist_match_def step_start_match_def after_dash_def u_def)
  show "indent checkout_line = 2" by (rule uses_match_indent [OF checkout_line_match])
  have "112 \<notin> set checkout_line" by (simp add: checkout_line_def u_def sample_hash_def)
  then show "\<not> has_key ''persist-credentials'' checkout_line" using has_key_first by fastforce
qed

lemma sample_keys: "\<not> has_key ''uses'' (u ''- name: x'')" "\<not> has_key ''uses'' (u ''  with:'')"
    "\<not> has_key ''uses'' (u ''    persist-credentials: false'')"
    "\<not> has_key ''persist-credentials'' (u ''- name: x'')" "\<not> has_key ''persist-credentials'' (u ''  with:'')"
  using has_key_first by (fastforce simp: u_def)+

lemma plain_nonblank: "plain_code s \<Longrightarrow> strip s \<noteq> []"
  by (rule nonblank [of "last s"]) (simp_all add: plain_code_def)

lemma sample_line_failures:
  "line_failures source i checkout_line = []" "line_failures source i (u ''- name: x'') = []"
  "line_failures source i (u ''  with:'') = []" "line_failures source i (u ''    persist-credentials: false'') = []"
  using sample_hash_ok(3)
  by (simp_all add: line_failures_def checkout_line_match checkout_matches sample_matches sample_keys)
     (simp add: u_def)

lemma sample_nonblank: "strip (u ''- name: x'') \<noteq> []" "strip checkout_line \<noteq> []" "strip (u ''  with:'') \<noteq> []"
    "strip (u ''    persist-credentials: false'') \<noteq> []"
  using sample_plain by (simp_all add: sample_lines_def plain_nonblank)

lemma sample_length: "length sample_lines = 4"
  by (simp add: sample_lines_def)

lemma few_lines: "[0..<4] = [0, Suc 0, 2, 3]" "[Suc 0..<4] = [Suc 0, 2, 3]" "[3..<4] = [3 :: nat]"
  by (simp_all add: upt_rec numeral_eq_Suc)

lemma sample_bounds: "step_bounds sample_lines (Suc 0) = Some (0, 4)"
proof -
  have "step_start sample_lines 2 (Suc 0) = Some (0, 0)"
    by (simp add: sample_code sample_matches Let_def sample_nonblank)
  moreover have "first_line sample_lines (step_ends 0) 1 4 = 4"
    by (simp add: first_line_def few_lines sample_code step_ends_def sample_matches checkout_matches)
  ultimately show ?thesis by (simp add: step_bounds_def sample_code checkout_line_match sample_length)
qed

lemma sample_relevant: "filter (\<lambda>i. strip (code_at sample_lines i) \<noteq> []) [0..<length sample_lines] = [0, Suc 0, 2, 3]"
  by (simp add: sample_length few_lines sample_code sample_nonblank)

lemma sample_checkout: "validate_checkout_inputs sample_lines source 0 4 2 2 = []"
proof -
  have w: "with_lines sample_lines 0 4 2 = [2]"
    by (simp add: with_lines_def few_lines sample_code sample_matches checkout_matches)
  have m: "mapping_bounds sample_lines 2 4 = (3, 4)"
    by (simp add: mapping_bounds_def first_line_def few_lines sample_code sample_matches)
  have c: "content_lines sample_lines 3 4 = [3]"
    by (simp add: content_lines_def few_lines sample_code sample_nonblank)
  have p: "persist_lines sample_lines 0 4 = [(3, 4, u ''false'')]"
    by (simp add: persist_lines_def map_filter_simps few_lines sample_code sample_matches checkout_matches)
  show ?thesis
    unfolding validate_checkout_Nil
    by (rule exI [of _ 2]) (simp add: w m p c outside_persist_def direct_persist_def sample_code sample_matches)
qed

lemma sample_accepted: "validate_workflow_text source sample_workflow = []"
proof -
  have "filter (\<lambda>i. uses_match (code_at sample_lines i) \<noteq> None) [0, Suc 0, 2, 3] = [Suc 0]"
    by (simp del: not_None_eq add: sample_code sample_matches checkout_line_match)
  moreover have "List.map_filter (step_bounds sample_lines) [Suc 0] = [(0, 4)]"
    using sample_bounds by (simp add: map_filter_simps)
  moreover have "uses_lines sample_lines 0 4 = [(2, 2, u ''actions/checkout@'' @ sample_hash)]"
    by (simp add: uses_lines_def map_filter_simps few_lines sample_code sample_matches checkout_line_match)
  then have "step_failures sample_lines source (0, 4) = []"
    by (simp add: step_failures_def sample_checkout sample_hash_ok)
  moreover have "concat (map (\<lambda>i. line_failures source (i + 1) (code_at sample_lines i)) [0, Suc 0, 2, 3]) = []"
    by (simp add: sample_code sample_line_failures)
  ultimately show ?thesis
    unfolding validate_workflow_text_def sample_split Let_def sample_relevant by simp
qed

section \<open>Witnesses\<close>



section \<open>A step that is not recognised\<close>

definition bare_dash_lines :: "pystr list" where
  "bare_dash_lines = [u ''-'', checkout_line]"

definition bare_dash_workflow :: pystr where
  "bare_dash_workflow = u ''-'' @ 10 # checkout_line"

lemma bare_dash_plain: "list_all plain_code bare_dash_lines"
  by (simp add: bare_dash_lines_def checkout_line_plain) (simp add: plain_code_def u_def is_space_def)

lemma bare_dash_split: "split_lines [] bare_dash_workflow = bare_dash_lines"
  using bare_dash_plain unfolding bare_dash_workflow_def bare_dash_lines_def
  by (simp add: split_lines_Cons split_lines_last plain_code_line)

lemma bare_dash_code: "code_at bare_dash_lines 0 = u ''-''" "code_at bare_dash_lines (Suc 0) = checkout_line"
  using bare_dash_plain by (simp_all add: code_at_def bare_dash_lines_def without_comment_plain)

lemma bare_dash_line: "uses_match (u ''-'') = None" "step_start_match (u ''-'') = None" "indent (u ''-'') = 0"
  "persist_match (u ''-'') = None" "strip (u ''-'') \<noteq> []" "line_failures source i (u ''-'') = []"
proof -
  show uses: "uses_match (u ''-'') = None" and "step_start_match (u ''-'') = None" "indent (u ''-'') = 0"
    "persist_match (u ''-'') = None"
    by (simp_all add: uses_match_def persist_match_def step_start_match_def u_def lstrip_def is_space_def after_dash_def
        indent_def Let_def)
  show "strip (u ''-'') \<noteq> []" using bare_dash_plain by (simp add: bare_dash_lines_def plain_nonblank)
  have "\<not> has_key ''uses'' (u ''-'')" "\<not> has_key ''persist-credentials'' (u ''-'')"
    using has_key_first by (fastforce simp: u_def)+
  then show "line_failures source i (u ''-'') = []" by (simp add: line_failures_def uses)
qed

lemma bare_dash_bounds: "step_bounds bare_dash_lines (Suc 0) = None"
  by (simp add: step_bounds_def bare_dash_code bare_dash_line checkout_line_match Let_def)

lemma bare_dash_accepted: "validate_workflow_text source bare_dash_workflow = []"
proof -
  have rel: "filter (\<lambda>i. strip (code_at bare_dash_lines i) \<noteq> []) [0..<length bare_dash_lines] = [0, Suc 0]"
    by (simp add: bare_dash_lines_def [THEN arg_cong [of _ _ length]] upt_rec bare_dash_code bare_dash_line sample_nonblank)
  have "filter (\<lambda>i. uses_match (code_at bare_dash_lines i) \<noteq> None) [0, Suc 0] = [Suc 0]"
    by (simp del: not_None_eq add: bare_dash_code bare_dash_line checkout_line_match)
  moreover have "List.map_filter (step_bounds bare_dash_lines) [Suc 0] = []"
    by (simp add: map_filter_simps bare_dash_bounds)
  moreover have "concat (map (\<lambda>i. line_failures source (i + 1) (code_at bare_dash_lines i)) [0, Suc 0]) = []"
    by (simp add: bare_dash_code bare_dash_line sample_line_failures)
  ultimately show ?thesis
    unfolding validate_workflow_text_def bare_dash_split Let_def rel by simp
qed


end
