(* ===== verification/Release_Evidence.thy ===== *)
theory Release_Evidence
  imports Json_Pretty Sha256
begin

text \<open>
  \<open>src/sentinel_core/release_evidence.py\<close>: the manifest with the digest of every file Git tracks. The
  work tree, the output of \<open>git ls-files -z\<close> and the writing of the manifest are parameters. The lemmas
  say that the manifest reads back as one record for every tracked file, whatever bytes its name has.
\<close>

section \<open>The code\<close>

text \<open>
  What the code asks of the work tree for a path below its root, given by its parts: whether it leads to
  a regular file, and what the file contains. Symbolic links are followed by both.
\<close>

record worktree =
  is_file :: "pystr list \<Rightarrow> exc + bool"
  open_file :: "pystr list \<Rightarrow> exc + bytes"

definition CHUNK_SIZE :: nat where
  "CHUNK_SIZE = 1024 * 1024"

text \<open>The chunks that are read, up to the empty one.\<close>

function read_chunks :: "nat \<Rightarrow> bytes \<Rightarrow> bytes list" where
  "read_chunks width content =
     (if content = [] \<or> width = 0 then [] else take width content # read_chunks width (drop width content))"
  by pat_completeness auto
termination
  by (relation "measure (\<lambda>(width, content). length content)") auto

declare read_chunks.simps [simp del]

text \<open>A hash object is what it was updated with.\<close>

definition sha256_file :: "bytes \<Rightarrow> pystr" where
  "sha256_file content = hex_bytes (sha256 (fold (\<lambda>chunk seen. seen @ chunk) (read_chunks CHUNK_SIZE content) []))"

text \<open>\<open>Path(value)\<close>: its parts, without empty and \<open>.\<close> ones.\<close>

fun split_at :: "'a \<Rightarrow> 'a list \<Rightarrow> 'a list \<Rightarrow> 'a list list" where
  "split_at sep part [] = [part]"
| "split_at sep part (c # s) = (if c = sep then part # split_at sep [] s else split_at sep (part @ [c]) s)"

definition path_parts :: "pystr \<Rightarrow> pystr list" where
  "path_parts value = filter (\<lambda>p. p \<noteq> [] \<and> p \<noteq> u ''.'') (split_at 47 [] value)"

definition validated_relative_path :: "pystr \<Rightarrow> exc + pystr list" where
  "validated_relative_path value =
     (if value = [] \<or> take 1 value = u ''/'' \<or> u ''..'' \<in> set (path_parts value) then Inl ValueError
      else Inr (path_parts value))"

definition tracked_record :: "pystr \<Rightarrow> bytes \<Rightarrow> pydict" where
  "tracked_record path content = [(u ''path'', PStr path), (u ''sha256'', PStr (sha256_file content))]"

fun tracked_records :: "worktree \<Rightarrow> pystr list \<Rightarrow> exc + pydict list" where
  "tracked_records tree [] = Inr []"
| "tracked_records tree (path # paths) =
     bindR (validated_relative_path path) (\<lambda>relative.
     bindR (is_file tree relative) (\<lambda>regular.
     if \<not> regular then Inl ValueError
     else
       bindR (open_file tree relative) (\<lambda>content.
       bindR (tracked_records tree paths) (\<lambda>records.
       Inr (tracked_record path content # records)))))"

definition build_tracked_file_records :: "worktree \<Rightarrow> pystr list \<Rightarrow> exc + pydict list" where
  "build_tracked_file_records tree paths = tracked_records tree (sort (remdups paths))"

text \<open>\<open>os.fsdecode\<close>: UTF-8, with a lone surrogate for each byte that belongs to no character, and its
  inverse, which the system applies to the path of a file that is opened.\<close>

function fsdecode :: "bytes \<Rightarrow> pystr" where
  "fsdecode bs =
     (if bs = [] then []
      else
        (case decode_char bs of
           Some (c, bs') \<Rightarrow> c # fsdecode bs'
         | None \<Rightarrow> (56320 + unat (hd bs)) # fsdecode (tl bs)))"
  by pat_completeness auto
termination
  by (relation "measure length") (auto simp: decode_char_shorter)

declare fsdecode.simps [simp del]

definition fsencode :: "pystr \<Rightarrow> bytes" where
  "fsencode s = concat (map (\<lambda>c. if 56448 \<le> c \<and> c < 56576 then [byte (c - 56320)] else utf8_char c) s)"

definition tracked_paths_from_git :: "bytes \<Rightarrow> pystr list" where
  "tracked_paths_from_git raw = map fsdecode (filter (\<lambda>name. name \<noteq> []) (split_at 0 [] raw))"

definition manifest_text :: "pydict list \<Rightarrow> pystr" where
  "manifest_text records = json_pretty json_str_ascii 0 (sort_keys (PList (map PDict records))) @ [10]"

definition write_tracked_file_manifest :: "worktree \<Rightarrow> exc + bytes \<Rightarrow> (bytes \<Rightarrow> exc + unit) \<Rightarrow> exc + unit" where
  "write_tracked_file_manifest tree git_output store =
     bindR git_output (\<lambda>raw.
     bindR (build_tracked_file_records tree (tracked_paths_from_git raw)) (\<lambda>records.
     bindR (encode_utf8 (manifest_text records)) store))"

definition release_main :: "worktree \<Rightarrow> exc + bytes \<Rightarrow> (bytes \<Rightarrow> exc + unit) \<Rightarrow> exc + int" where
  "release_main tree git_output store = bindR (write_tracked_file_manifest tree git_output store) (\<lambda>_. Inr 0)"

section \<open>The digest of a file\<close>

lemma concat_read_chunks: "0 < width \<Longrightarrow> concat (read_chunks width content) = content"
proof (induction width content rule: read_chunks.induct)
  case (1 width content)
  then show ?case by (cases "content = []") (simp_all add: read_chunks.simps [of width])
qed

lemma fold_append: "fold (\<lambda>chunk seen. seen @ chunk) chunks seen = seen @ concat chunks"
  by (induction chunks arbitrary: seen) simp_all

lemma sha256_file_content: "sha256_file content = hex_bytes (sha256 content)"
  by (simp add: sha256_file_def fold_append concat_read_chunks CHUNK_SIZE_def)

section \<open>Records\<close>

text \<open>The content of a tracked path, if it stays inside the work tree and is a regular file.\<close>

definition tracked_content :: "worktree \<Rightarrow> pystr \<Rightarrow> bytes option" where
  "tracked_content tree path =
     (case bindR (validated_relative_path path) (\<lambda>relative.
        bindR (is_file tree relative) (\<lambda>regular. if regular then open_file tree relative else Inl ValueError)) of
        Inr content \<Rightarrow> Some content | Inl _ \<Rightarrow> None)"

lemma tracked_records_Cons:
  "tracked_records tree (path # paths) = Inr records \<longleftrightarrow>
     (\<exists>content rest. tracked_content tree path = Some content \<and> tracked_records tree paths = Inr rest \<and>
        records = tracked_record path content # rest)"
  by (auto simp: tracked_content_def result_simps split: sum.split)

lemma tracked_records_iff:
  "tracked_records tree paths = Inr records \<longleftrightarrow>
     list_all (\<lambda>path. tracked_content tree path \<noteq> None) paths \<and>
     records = map (\<lambda>path. tracked_record path (the (tracked_content tree path))) paths"
proof (induction paths arbitrary: records)
  case (Cons path paths)
  then show ?case by (auto simp del: tracked_records.simps simp: tracked_records_Cons)
qed auto

lemma build_records_iff:
  "build_tracked_file_records tree paths = Inr records \<longleftrightarrow>
     list_all (\<lambda>path. tracked_content tree path \<noteq> None) paths \<and>
     records = map (\<lambda>path. tracked_record path (the (tracked_content tree path))) (sorted_list_of_set (set paths))"
  unfolding build_tracked_file_records_def tracked_records_iff
  by (simp add: list_all_iff sorted_list_of_set_sort_remdups)


section \<open>Names\<close>

lemma decode_char_None: "bs \<noteq> [] \<Longrightarrow> decode_char bs = None \<Longrightarrow> 128 \<le> unat (hd bs)"
  by (cases bs) (auto split: if_splits)

lemma fsdecode_chars: "list_all (\<lambda>c. is_scalar c \<or> 56448 \<le> c \<and> c < 56576) (fsdecode bs)"
proof (induction bs rule: fsdecode.induct)
  case (1 bs)
  show ?case
  proof (cases "bs = []")
    case False
    then show ?thesis
      using 1 decode_char_None [of bs] unat_less_256 [of "hd bs"]
      by (cases "decode_char bs") (auto simp: fsdecode.simps [of bs] dest!: decode_char_Some)
  qed (simp add: fsdecode.simps)
qed

lemma fsencode_fsdecode: "fsencode (fsdecode bs) = bs"
proof (induction bs rule: fsdecode.induct)
  case (1 bs)
  show ?case
  proof (cases "bs = []")
    case False
    show ?thesis
    proof (cases "decode_char bs")
      case None
      have "fsencode (fsdecode (tl bs)) = tl bs" using 1 False None by blast
      moreover have "fsdecode bs = (56320 + unat (hd bs)) # fsdecode (tl bs)"
        using False None by (simp add: fsdecode.simps [of bs])
      ultimately show ?thesis
        using False decode_char_None [OF False None] unat_less_256 [of "hd bs"] by (simp add: fsencode_def)
    next
      case (Some p)
      then obtain c bs' where p: "decode_char bs = Some (c, bs')" by (cases p) auto
      have "fsencode (fsdecode bs') = bs'" using 1 False p by blast
      moreover have "fsdecode bs = c # fsdecode bs'" using False p by (simp add: fsdecode.simps [of bs])
      moreover have "is_scalar c" "bs = utf8_char c @ bs'" using decode_char_Some [OF p] by auto
      ultimately show ?thesis by (auto simp: fsencode_def is_scalar_def is_surrogate_def)
    qed
  qed (simp add: fsdecode.simps fsencode_def)
qed

lemma inj_fsdecode: "inj fsdecode"
  by (rule inj_on_inverseI [of _ fsencode]) (rule fsencode_fsdecode)

lemma fsdecode_no_high_surrogate: "no_high_surrogate (fsdecode bs)"
  using fsdecode_chars [of bs]
  by (force simp: list_all_iff no_high_surrogate_def is_scalar_def is_surrogate_def)

lemma split_at_append: "sep \<notin> set s \<Longrightarrow> split_at sep part (s @ t) = split_at sep (part @ s) t"
  by (induction s arbitrary: part) auto

lemma split_at_terminated:
  "list_all (\<lambda>n. sep \<notin> set n) ns \<Longrightarrow> split_at sep [] (concat (map (\<lambda>n. n @ [sep]) ns)) = ns @ [[]]"
  by (induction ns) (simp_all add: split_at_append)

lemma tracked_paths_listing:
  assumes "list_all (\<lambda>n. n \<noteq> [] \<and> 0 \<notin> set n) ns"
  shows "tracked_paths_from_git (concat (map (\<lambda>n. n @ [0]) ns)) = map fsdecode ns"
proof -
  have "split_at 0 [] (concat (map (\<lambda>n. n @ [0]) ns)) = ns @ [[]]"
    using assms by (intro split_at_terminated) (simp add: list_all_iff)
  moreover have "filter (\<lambda>name. name \<noteq> []) ns = ns" using assms by (simp add: list_all_iff filter_id_conv)
  ultimately show ?thesis by (simp add: tracked_paths_from_git_def)
qed

section \<open>The manifest\<close>

lemma is_ascii_join: "is_ascii sep \<Longrightarrow> (\<And>s. s \<in> set ss \<Longrightarrow> is_ascii s) \<Longrightarrow> is_ascii (join sep ss)"
  by (induction sep ss rule: join.induct) (auto simp: is_ascii_def)

lemma is_ascii_simps: "is_ascii (c # s) \<longleftrightarrow> c < 128 \<and> is_ascii s" "is_ascii (s @ t) \<longleftrightarrow> is_ascii s \<and> is_ascii t" "is_ascii []"
  by (auto simp: is_ascii_def)

lemma hex_digit_ascii: "n < 16 \<Longrightarrow> hex_digit n < 128"
  by (simp add: hex_digit_def)

lemma json_escape_ascii_ascii: "c < 1114112 \<Longrightarrow> is_ascii (json_escape_ascii c)"
proof -
  assume c: "c < 1114112"
  have quad: "n < 65536 \<Longrightarrow> is_ascii (hex_quad n)" for n
    by (simp add: hex_quad_def is_ascii_simps hex_digit_ascii less_mult_imp_div_less)
  have "(c - 65536) div 1024 < 1024" using c by (simp add: less_mult_imp_div_less)
  moreover have "(c - 65536) mod 1024 < 1024" by simp
  ultimately have "is_ascii (hex_quad (55296 + (c - 65536) div 1024) @ hex_quad (56320 + (c - 65536) mod 1024))"
    unfolding is_ascii_simps by (intro conjI quad) simp_all
  with quad [of c] show ?thesis by (simp add: json_escape_ascii_def is_ascii_simps)
qed

lemma json_str_ascii_ascii: "no_high_surrogate s \<Longrightarrow> is_ascii (json_str_ascii s)"
  by (induction s) (auto simp: json_str_ascii_def is_ascii_simps json_escape_ascii_ascii no_high_surrogate_def)

lemma no_high_surrogate_ascii: "is_ascii s \<Longrightarrow> no_high_surrogate s"
  by (force simp: is_ascii_def no_high_surrogate_def)

lemma is_ascii_hex_bytes: "is_ascii (hex_bytes b)"
  by (auto simp: is_ascii_def is_lower_hex_def dest!: hex_bytes_lower)

lemma sort_keys_records: "sort_keys (PDict (tracked_record path content)) = PDict (tracked_record path content)"
  by (simp add: tracked_record_def u_def)

lemma sort_keys_record_list:
  "sort_keys (PList (map (\<lambda>x. PDict (tracked_record (f x) (g x))) xs)) = PList (map (\<lambda>x. PDict (tracked_record (f x) (g x))) xs)"
proof -
  have "map sort_keys (map (\<lambda>x. PDict (tracked_record (f x) (g x))) xs) = map (\<lambda>x. PDict (tracked_record (f x) (g x))) xs"
    unfolding map_map comp_def sort_keys_records ..
  then show ?thesis by (simp only: sort_keys.simps)
qed

lemma manifest_text_layout:
  "manifest_text (map (\<lambda>x. tracked_record (f x) (g x)) xs) =
     json_pretty json_str_ascii 0 (PList (map (\<lambda>x. PDict (tracked_record (f x) (g x))) xs)) @ [10]"
  by (simp only: manifest_text_def map_map comp_def sort_keys_record_list)

lemma record_fits: "no_high_surrogate path \<Longrightarrow> texts_fit no_high_surrogate (PDict (tracked_record path content))"
  by (simp add: tracked_record_def sha256_file_content no_high_surrogate_ascii is_ascii_hex_bytes)
    (simp add: no_high_surrogate_def u_def)

lemma record_json_ok: "json_ok (PDict (tracked_record path content))"
  by (simp add: tracked_record_def u_def)

lemma record_ascii:
  assumes "no_high_surrogate path"
  shows "is_ascii (json_pretty json_str_ascii level (PDict (tracked_record path content)))"
proof -
  have "is_ascii (new_line l)" for l by (auto simp: new_line_def is_ascii_def)
  moreover have "no_high_surrogate (u ''path'')" "no_high_surrogate (u ''sha256'')"
    by (simp_all add: no_high_surrogate_def u_def)
  ultimately show ?thesis using assms
    by (simp add: tracked_record_def is_ascii_simps json_str_ascii_ascii sha256_file_content no_high_surrogate_ascii is_ascii_hex_bytes)
qed

lemma manifest_text_ascii:
  assumes "list_all (\<lambda>x. no_high_surrogate (f x)) xs"
  shows "is_ascii (manifest_text (map (\<lambda>x. tracked_record (f x) (g x)) xs))"
proof -
  have nl: "is_ascii (new_line l)" for l by (auto simp: new_line_def is_ascii_def)
  have "is_ascii (join (44 # new_line 1) (map (json_pretty json_str_ascii 1) (map (\<lambda>x. PDict (tracked_record (f x) (g x))) xs)))"
    using assms record_ascii by (intro is_ascii_join) (auto simp: is_ascii_simps nl list_all_iff)
  then show ?thesis unfolding manifest_text_layout
    by (cases xs) (simp_all add: is_ascii_simps nl)
qed

lemma manifest_text_loads:
  assumes "list_all (\<lambda>x. no_high_surrogate (f x)) xs"
  shows "json_loads (manifest_text (map (\<lambda>x. tracked_record (f x) (g x)) xs)) =
     Inr (PList (map (\<lambda>x. PDict (tracked_record (f x) (g x))) xs))"
proof -
  let ?v = "PList (map (\<lambda>x. PDict (tracked_record (f x) (g x))) xs)"
  have "json_ok ?v" using record_json_ok by simp
  moreover have "texts_fit no_high_surrogate ?v" using assms record_fits by (auto simp: list_all_iff simp del: texts_fit.simps(3))
  ultimately show ?thesis
    unfolding json_loads_def manifest_text_layout by (intro ascii_pretty.loads_pretty) simp_all
qed

section \<open>One record for every file\<close>

text \<open>
  C37 Whatever bytes the names of the tracked files are, if every file is a readable regular one, the
  manifest is stored as ASCII text that reads back as a list with one record for each file: the paths
  name the tracked files, each once, in order, with the digests of the contents.
\<close>

theorem manifest_complete:
  assumes "list_all (\<lambda>n. n \<noteq> [] \<and> 0 \<notin> set n \<and> tracked_content tree (fsdecode n) \<noteq> None) ns"
  shows "\<exists>text_of paths. is_ascii text_of \<and>
     write_tracked_file_manifest tree (Inr (concat (map (\<lambda>n. n @ [0]) ns))) store = store (map byte text_of) \<and>
     json_loads text_of = Inr (PList (map (\<lambda>path. PDict [(u ''path'', PStr path),
       (u ''sha256'', PStr (hex_bytes (sha256 (the (tracked_content tree path)))))]) paths)) \<and>
     sorted paths \<and> distinct (map fsencode paths) \<and> set (map fsencode paths) = set ns"
proof (intro exI conjI)
  let ?paths = "sorted_list_of_set (fsdecode ` set ns)"
  let ?records = "map (\<lambda>path. tracked_record path (the (tracked_content tree path))) ?paths"
  have names: "list_all (\<lambda>n. n \<noteq> [] \<and> 0 \<notin> set n) ns" using assms by (simp add: list_all_iff)
  have plain: "list_all no_high_surrogate ?paths" using fsdecode_no_high_surrogate by (auto simp: list_all_iff)
  show ascii: "is_ascii (manifest_text ?records)" using plain by (rule manifest_text_ascii)
  have "build_tracked_file_records tree (map fsdecode ns) = Inr ?records"
    using assms by (simp add: build_records_iff list_all_iff)
  then show "write_tracked_file_manifest tree (Inr (concat (map (\<lambda>n. n @ [0]) ns))) store =
      store (map byte (manifest_text ?records))"
    unfolding write_tracked_file_manifest_def
    by (simp add: tracked_paths_listing [OF names] encode_utf8_def is_ascii_encodable [OF ascii] utf8_bytes_ascii [OF ascii])
  show "json_loads (manifest_text ?records) = Inr (PList (map (\<lambda>path. PDict [(u ''path'', PStr path),
      (u ''sha256'', PStr (hex_bytes (sha256 (the (tracked_content tree path)))))]) ?paths))"
    using manifest_text_loads [OF plain, of "\<lambda>path. the (tracked_content tree path)"]
    by (simp add: tracked_record_def sha256_file_content)
  show "sorted ?paths" by simp
  show "set (map fsencode ?paths) = set ns" by (simp add: image_image fsencode_fsdecode)
  have "inj_on fsencode (fsdecode ` set ns)" by (rule inj_onI) (auto simp: fsencode_fsdecode)
  then show "distinct (map fsencode ?paths)" by (simp add: distinct_map)
qed

definition flat_tree :: worktree where
  "flat_tree = \<lparr>is_file = (\<lambda>parts. Inr (length parts = 1)), open_file = (\<lambda>_. Inr [])\<rparr>"

theorem manifest_complete_witness:
  "\<exists>text_of paths. is_ascii text_of \<and>
     write_tracked_file_manifest flat_tree (Inr [97, 0, 195, 0]) (\<lambda>_. Inr ()) = Inr () \<and>
     set (map fsencode paths) = {[97], [195]}"
proof -
  have names: "fsdecode [97] = [97]" "fsdecode [195] = [56515]" by (simp_all add: fsdecode.simps)
  have "list_all (\<lambda>n. n \<noteq> [] \<and> 0 \<notin> set n \<and> tracked_content flat_tree (fsdecode n) \<noteq> None) [[97], [195]]"
    by (simp add: names tracked_content_def validated_relative_path_def path_parts_def flat_tree_def u_def)
  from manifest_complete [OF this, of "\<lambda>_. Inr ()"] show ?thesis by auto
qed

end
