(* ===== verification/Pilot.thy ===== *)
theory Pilot
  imports Verifier Json_Pretty
begin

text \<open>
  \<open>src/sentinel_core/pilot.py\<close> and \<open>scripts/run_pilot_evidence.py\<close>: a record is built, signed with a new
  key, and put through the whole verifier. The key pair and the signing primitive are parameters (the
  package \<open>cryptography\<close>). The lemmas say when the pilot verifies, for any role and decision.
\<close>

section \<open>The code\<close>

record key_pair =
  public_bytes :: bytes
  sign :: "bytes \<Rightarrow> bytes"

record pilot_result =
  pilot_record :: pydict
  verification :: verification_result

definition encode_urlsafe :: "bytes \<Rightarrow> pystr" where
  "encode_urlsafe b = rstrip_pad (map to_urlsafe (b64encode b))"

lemma encode_urlsafe_b64url [simp]: "encode_urlsafe b = b64url_encode b"
  by (simp add: encode_urlsafe_def b64url_encode_def)

text \<open>The record before it is signed.\<close>

definition ARTIFACT_HASH :: "exc + pystr" where
  "ARTIFACT_HASH = sha256_prefixed (Text (u ''synthetic-pilot-artifact-v1''))"

definition pilot_template :: "pystr \<Rightarrow> pystr \<Rightarrow> pydict" where
  "pilot_template artifact_hash decision =
     [(u ''schema_version'', PStr (u ''0.1.0'')), (u ''evidence_id'', PStr (u ''evid-pilot-0001'')),
      (u ''issued_at'', PStr (u ''2026-06-21T00:00:00Z'')), (u ''source'', PStr (u ''synthetic-pilot'')),
      (u ''artifact_hash'', PStr artifact_hash), (u ''previous_hash'', PStr ZERO_HASH),
      (u ''policy_id'', PStr (u ''policy.bootstrap'')), (u ''decision'', PStr decision),
      (u ''signature'', PDict [(u ''alg'', PStr (u ''EdDSA'')), (u ''key_id'', PStr (u ''synthetic-pilot-key'')),
        (u ''value'', PStr [])])]"

definition set_signature_value :: "pydict \<Rightarrow> pystr \<Rightarrow> pydict" where
  "set_signature_value record value =
     (case dget record (u ''signature'') of
        PDict signature \<Rightarrow> dset record (u ''signature'') (PDict (dset signature (u ''value'') (PStr value)))
      | _ \<Rightarrow> record)"

definition pilot_key :: "key_pair \<Rightarrow> pystr \<Rightarrow> trust_key" where
  "pilot_key keys role =
     \<lparr>key_id = u ''synthetic-pilot-key'', key_alg = u ''EdDSA'', public_key = encode_urlsafe (public_bytes keys),
      key_role = role, key_status = u ''active'', not_before = None, not_after = None\<rparr>"

definition build_signed_synthetic_record :: "key_pair \<Rightarrow> pystr \<Rightarrow> pystr \<Rightarrow> exc + pydict \<times> trust_registry" where
  "build_signed_synthetic_record keys role decision =
     bindR ARTIFACT_HASH (\<lambda>artifact_hash.
     let record = pilot_template artifact_hash decision in
     bindR (compute_chain_link record) (\<lambda>link.
     bindR (encode_utf8 (canonical_json link)) (\<lambda>payload.
     Inr (set_signature_value record (encode_urlsafe (sign keys payload)),
          trust_registry_init [pilot_key keys role]))))"

definition pilot_options :: "trust_registry \<Rightarrow> verify_options" where
  "pilot_options registry = default_options
     \<lparr>expected_previous_hash := ZERO_HASH, opt_trust_registry := Some registry, require_trusted_signature := True,
      opt_policy_registry := Some (policy_registry_init [default_bootstrap_policy]),
      require_policy_authorization := True\<rparr>"

definition run_synthetic_pilot :: "crypto_lib \<Rightarrow> schema_validator \<Rightarrow> key_pair \<Rightarrow> pystr \<Rightarrow> pystr \<Rightarrow> exc + pilot_result" where
  "run_synthetic_pilot lib iter_errors keys role decision =
     bindR (build_signed_synthetic_record keys role decision) (\<lambda>(record, registry).
     bindR (verify_evidence_record lib iter_errors (pilot_options registry) record) (\<lambda>res.
     Inr \<lparr>pilot_record = record, verification = res\<rparr>))"

text \<open>What the script prints, and its exit code. \<open>show\<close> is the text of a message.\<close>

definition pilot_output :: "(msg \<Rightarrow> pystr) \<Rightarrow> pilot_result \<Rightarrow> pydict" where
  "pilot_output render pilot =
     (let v = verification pilot in
      [(u ''ok'', PBool (ok v)), (u ''digest'', opt_val (result_digest v)), (u ''actor_role'', opt_val (actor_role v)),
       (u ''key_id'', opt_val (result_key_id v)), (u ''errors'', PList (map (\<lambda>m. PStr (render m)) (errors v))),
       (u ''warnings'', PList (map (\<lambda>m. PStr (render m)) (warnings v))), (u ''record'', PDict (pilot_record pilot))])"

definition run_pilot_evidence ::
    "(msg \<Rightarrow> pystr) \<Rightarrow> crypto_lib \<Rightarrow> schema_validator \<Rightarrow> key_pair \<Rightarrow> exc + pystr \<times> int" where
  "run_pilot_evidence render lib iter_errors keys =
     bindR (run_synthetic_pilot lib iter_errors keys (u ''auditor'') (u ''allow'')) (\<lambda>pilot.
     Inr (json_pretty json_str 0 (sort_keys (PDict (pilot_output render pilot))),
       if ok (verification pilot) then 0 else 1))"

section \<open>The signed record\<close>

text \<open>What the code relies on of its key pair: it is one the library accepts, and its signatures, which
  are not empty, verify.\<close>

definition signs_for :: "key_pair \<Rightarrow> crypto_lib \<Rightarrow> bool" where
  "signs_for keys lib \<longleftrightarrow>
     ed25519_key_ok lib (public_bytes keys) \<and>
     (\<forall>m. sign keys m \<noteq> [] \<and> ed25519_verify lib (public_bytes keys) (sign keys m) m)"

definition artifact_hash_text :: pystr where
  "artifact_hash_text = u ''sha256:'' @ hex_bytes (sha256 (utf8_bytes (u ''synthetic-pilot-artifact-v1'')))"

lemma ARTIFACT_HASH_text: "ARTIFACT_HASH = Inr artifact_hash_text"
  by (simp add: ARTIFACT_HASH_def artifact_hash_text_def sha256_prefixed_Text)

definition signed_record :: "key_pair \<Rightarrow> pystr \<Rightarrow> pydict" where
  "signed_record keys decision =
     (let r = pilot_template artifact_hash_text decision
      in set_signature_value r (b64url_encode (sign keys (utf8_bytes (canonicalize_json r)))))"

lemma unsigned_template: "unsigned_record (pilot_template h decision) = pilot_template h decision"
  by (simp add: pilot_template_def unsigned_record_def u_def)

lemma unsigned_signed: "unsigned_record (set_signature_value (pilot_template h decision) v) = pilot_template h decision"
  by (simp add: pilot_template_def unsigned_record_def set_signature_value_def u_def)

lemma built_record:
  "build_signed_synthetic_record keys role decision =
     (if encodable (canonicalize_json (pilot_template artifact_hash_text decision))
      then Inr (signed_record keys decision, trust_registry_init [pilot_key keys role]) else Inl UnicodeEncodeError)"
  by (simp add: build_signed_synthetic_record_def ARTIFACT_HASH_text Let_def compute_chain_link_def unsigned_template
      sha256_prefixed_def encode_utf8_def signed_record_def)

lemma signed_fields:
  "dget (signed_record keys decision) (u ''previous_hash'') = PStr ZERO_HASH"
  "dget (signed_record keys decision) (u ''issued_at'') = PStr (u ''2026-06-21T00:00:00Z'')"
  "dget (signed_record keys decision) (u ''policy_id'') = PStr (u ''policy.bootstrap'')"
  "dget (signed_record keys decision) (u ''source'') = PStr (u ''synthetic-pilot'')"
  "dget (signed_record keys decision) (u ''decision'') = PStr decision"
  "dget (signed_record keys decision) (u ''signature'') =
     PDict [(u ''alg'', PStr (u ''EdDSA'')), (u ''key_id'', PStr (u ''synthetic-pilot-key'')),
       (u ''value'', PStr (b64url_encode (sign keys (utf8_bytes (canonicalize_json (pilot_template artifact_hash_text decision))))))]"
  by (simp_all add: signed_record_def pilot_template_def set_signature_value_def Let_def u_def)

lemma decode_urlsafe_b64url_encode: "decode_urlsafe (b64url_encode b) = Inr b"
  using b64url_decode_encode [of b] by (simp add: decode_urlsafe_def b64url_decode_def)

lemma template_encodable:
  assumes "encodable decision"
  shows "encodable (canonicalize_json (pilot_template artifact_hash_text decision))"
proof -
  have hex: "encodable (hex_bytes b)" for b
    by (rule is_ascii_encodable) (auto simp: is_ascii_def is_lower_hex_def dest!: hex_bytes_lower)
  have "encodable ZERO_HASH" by (simp add: ZERO_HASH_def encodable_def is_scalar_small u_def)
  with assms hex have "texts_encodable (PDict (pilot_template artifact_hash_text decision))"
    by (simp add: pilot_template_def artifact_hash_text_def)
  then show ?thesis unfolding canonicalize_json_def by (intro json_encode_encodable) (simp only: texts_encodable_sort_keys)
qed

lemma pilot_time: "\<exists>t. parse_rfc3339_utc (u ''2026-06-21T00:00:00Z'') = Inr t"
proof -
  have "zulu_text 2026 6 21 0 0 0 = u ''2026-06-21T00:00:00Z''" by (simp add: zulu_text_def two_digits_def u_def)
  then show ?thesis
    using parse_stamp [of 2026 6 21 0 0 0] by (auto simp: valid_stamp_def valid_date_def days_in_month_def)
qed

section \<open>When the pilot verifies\<close>

lemma pilot_trusted:
  assumes "signs_for keys lib" and "encodable decision"
  shows "trusted_key lib (trust_registry_init [pilot_key keys role]) (signed_record keys decision) (pilot_key keys role)"
proof -
  let ?payload = "utf8_bytes (canonicalize_json (pilot_template artifact_hash_text decision))"
  have "unsigned_record (signed_record keys decision) = pilot_template artifact_hash_text decision"
    by (simp add: signed_record_def Let_def unsigned_signed)
  then have "eddsa_valid lib (signed_record keys decision) (public_key (pilot_key keys role))"
    using assms(1) template_encodable [OF assms(2)]
    by (simp add: eddsa_valid_def signed_fields pilot_key_def decode_urlsafe_b64url_encode signs_for_def b64url_encode_Nil_iff)
  moreover have "map_of (trust_registry_init [pilot_key keys role]) (u ''synthetic-pilot-key'') = Some (pilot_key keys role)"
    by (simp add: trust_reg.lookup_build) (simp add: pilot_key_def)
  ultimately show ?thesis using pilot_time
    by (simp add: trusted_key_def signed_fields pilot_key_def window_contains_def)
qed

lemma pilot_trusted_only:
  "trusted_key lib (trust_registry_init [pilot_key keys role]) r key \<Longrightarrow> key = pilot_key keys role"
  using trust_reg.lookup_build_Some [of "[pilot_key keys role]"] by (auto simp: trusted_key_def)

lemma pilot_role: "key_role (pilot_key keys role) = role"
  by (simp add: pilot_key_def)

lemma pilot_authorized:
  "authorized (signed_record keys decision) role (policy_registry_init [default_bootstrap_policy]) \<longleftrightarrow>
     decision \<in> bootstrap_decisions role"
proof -
  have "u ''synthetic-pilot'' \<noteq> []" by (simp add: u_def)
  from bootstrap_authorization [OF _ _ this, of "signed_record keys decision" decision role] show ?thesis
    by (simp add: authorize_record_Inr signed_fields)
qed

lemma pilot_acceptable:
  assumes "signs_for keys lib" and "encodable decision"
  shows "record_acceptable lib iter_errors (pilot_options (trust_registry_init [pilot_key keys role])) (signed_record keys decision) \<longleftrightarrow>
     iter_errors (signed_record keys decision) = [] \<and> decision \<in> bootstrap_decisions role"
proof -
  have "\<exists>link. compute_chain_link (signed_record keys decision) = Inr link"
    using template_encodable [OF assms(2)] compute_chain_link_ok [of "signed_record keys decision" "\<lambda>_. True"]
    by (simp add: signed_record_def Let_def unsigned_signed)
  moreover have "truthy (PStr (b64url_encode (sign keys m)))" for m
    using assms(1) by (simp add: signs_for_def b64url_encode_Nil_iff)
  moreover have "(\<exists>key. trusted_key lib (trust_registry_init [pilot_key keys role]) (signed_record keys decision) key \<and>
      authorized (signed_record keys decision) (key_role key) (policy_registry_init [default_bootstrap_policy])) \<longleftrightarrow>
      decision \<in> bootstrap_decisions role"
    using pilot_trusted [OF assms] pilot_trusted_only [of lib keys role "signed_record keys decision"] pilot_authorized [of keys decision role]
    by (metis pilot_role)
  ultimately show ?thesis
    by (auto simp: record_acceptable_def pilot_options_def default_options_def signed_fields)
qed

lemma bootstrap_decision_encodable: "decision \<in> bootstrap_decisions role \<Longrightarrow> encodable decision"
  by (auto simp: bootstrap_decisions_def split: if_splits)

lemma pilot_acceptable_decision:
  assumes "record_acceptable lib iter_errors (pilot_options (trust_registry_init [pilot_key keys role])) (signed_record keys decision)"
  shows "decision \<in> bootstrap_decisions role"
proof -
  from assms obtain key where "trusted_key lib (trust_registry_init [pilot_key keys role]) (signed_record keys decision) key"
    "authorized (signed_record keys decision) (key_role key) (policy_registry_init [default_bootstrap_policy])"
    by (auto simp: record_acceptable_def pilot_options_def)
  with pilot_authorized show ?thesis by (metis pilot_trusted_only pilot_role)
qed

lemma pilot_run_iff:
  assumes "signs_for keys lib"
  shows "(\<exists>pilot. run_synthetic_pilot lib iter_errors keys role decision = Inr pilot \<and> ok (verification pilot)) \<longleftrightarrow>
     iter_errors (signed_record keys decision) = [] \<and> decision \<in> bootstrap_decisions role"
proof -
  let ?ok = "record_acceptable lib iter_errors (pilot_options (trust_registry_init [pilot_key keys role])) (signed_record keys decision)"
  have run: "(\<exists>pilot. run_synthetic_pilot lib iter_errors keys role decision = Inr pilot \<and> ok (verification pilot)) \<longleftrightarrow>
      encodable (canonicalize_json (pilot_template artifact_hash_text decision)) \<and> ?ok"
    unfolding verify_decides [symmetric] by (auto simp: run_synthetic_pilot_def built_record result_simps)
  show ?thesis
  proof (cases "decision \<in> bootstrap_decisions role")
    case True
    then have "encodable decision" by (rule bootstrap_decision_encodable)
    from run template_encodable [OF this] pilot_acceptable [OF assms this] True show ?thesis by simp
  next
    case False
    with run pilot_acceptable_decision show ?thesis by blast
  qed
qed

text \<open>
  C39 With a key pair the library accepts, the pilot verifies exactly if the schema has no objection to
  the signed record and the bootstrap policy lets the role make the decision; for any other role or
  decision it does not verify, and nothing but the decision and the role makes a difference.
\<close>

theorem pilot_verifies_iff:
  assumes "signs_for keys lib"
  shows "(\<exists>pilot. run_synthetic_pilot lib iter_errors keys role decision = Inr pilot \<and> ok (verification pilot)) \<longleftrightarrow>
     iter_errors (signed_record keys decision) = [] \<and> decision \<in> bootstrap_decisions role"
  using assms by (rule pilot_run_iff)

definition sample_keys :: key_pair where
  "sample_keys = \<lparr>public_bytes = [0], sign = (\<lambda>m. 0 # m)\<rparr>"

text \<open>A library that accepts the signatures of this key pair and no other.\<close>

definition sample_lib :: crypto_lib where
  "sample_lib = permissive_lib\<lparr>ed25519_key_ok := (\<lambda>k. k = [0]), ed25519_verify := (\<lambda>k s m. k = [0] \<and> s = 0 # m)\<rparr>"

lemma sample_signs: "signs_for sample_keys sample_lib"
  by (simp add: signs_for_def sample_keys_def sample_lib_def)

theorem pilot_verifies_iff_witness:
  "\<exists>pilot. run_synthetic_pilot sample_lib (\<lambda>_. []) sample_keys (u ''auditor'') (u ''allow'') = Inr pilot \<and>
     ok (verification pilot)"
  unfolding pilot_verifies_iff [OF sample_signs] by (simp add: bootstrap_decisions_def)

section \<open>What the script prints\<close>

lemma verify_result:
  assumes "verify_evidence_record lib iter_errors (pilot_options registry) r = Inr res" and "ok res"
  shows "errors res = [] \<and> warnings res = [] \<and> result_digest res = fst (digest_stage (pilot_options registry) r) \<and>
     (\<exists>key. trusted_key lib registry r key \<and> result_key_id res = Some (key_id key) \<and> actor_role res = Some (key_role key))"
proof -
  have reg: "opt_trust_registry (pilot_options registry) = Some registry" by (simp add: pilot_options_def)
  obtain e5 w5 resolved where stage: "trusted_stage lib (pilot_options registry) r = Inr ((e5, w5), resolved)"
    and res: "result_key_id res = map_option key_id resolved" "errors res = []"
      "actor_role res = snd (policy_stage (pilot_options registry) r resolved)" "e5 = []"
      "result_digest res = fst (digest_stage (pilot_options registry) r)"
      "warnings res = w5 @ snd (fst (policy_stage (pilot_options registry) r resolved))"
    using assms by (auto simp: verify_evidence_record_def Let_def result_simps case_prod_unfold)
  from stage res(4) obtain key where key: "resolved = Some key" "trusted_key lib registry r key"
    using trusted_stage_key [OF reg, of lib r resolved] by blast
  have "w5 = []" using stage reg by (auto simp: trusted_stage_def result_simps split: pyval.splits)
  moreover have "snd (fst (policy_stage (pilot_options registry) r (Some key))) = []"
    "snd (policy_stage (pilot_options registry) r (Some key)) = Some (key_role key)"
    by (simp_all add: policy_stage_def pilot_options_def Let_def split: sum.split exc.split)
  ultimately show ?thesis using res key by auto
qed

definition pilot_report :: "key_pair \<Rightarrow> pystr \<Rightarrow> pydict" where
  "pilot_report keys d =
     [(u ''ok'', PBool True), (u ''digest'', PStr d), (u ''actor_role'', PStr (u ''auditor'')),
      (u ''key_id'', PStr (u ''synthetic-pilot-key'')), (u ''errors'', PList []), (u ''warnings'', PList []),
      (u ''record'', PDict (signed_record keys (u ''allow'')))]"

lemma pilot_report_json_ok: "json_ok (PDict (pilot_report keys d))"
  by (simp add: pilot_report_def signed_record_def Let_def pilot_template_def set_signature_value_def u_def)

lemma texts_fit_all: "texts_fit (\<lambda>_. True) v"
proof (induction v)
  case (PDict d)
  then show ?case by (auto simp: prod_set_defs)
qed auto



end
