(* ===== verification/Schema_File.thy ===== *)
theory Schema_File
  imports Schema Registry_Loader
begin

text \<open>
  \<open>src/sentinel_core/schema.py\<close>, from the bytes of the schema file to the check of a record. The engine,
  \<open>Draft202012Validator\<close>, makes a validator of a schema and is a parameter; the cache keeps the first
  validator, so every record is checked against the same bytes.
\<close>

definition load_evidence_schema :: "bytes \<Rightarrow> exc + pydict" where
  "load_evidence_schema raw =
     bindR (bindR (read_text raw) json_loads) (\<lambda>schema.
       case schema of
         PDict d \<Rightarrow> Inr d
       | _ \<Rightarrow> Inl (SchemaValidationError [Txt ''Evidence schema root must be a JSON object'']))"

definition evidence_validator :: "(pydict \<Rightarrow> schema_validator) \<Rightarrow> bytes \<Rightarrow> exc + schema_validator" where
  "evidence_validator engine raw = bindR (load_evidence_schema raw) (\<lambda>schema. Inr (engine schema))"

definition validate_against_file :: "(pydict \<Rightarrow> schema_validator) \<Rightarrow> bytes \<Rightarrow> pydict \<Rightarrow> exc + unit" where
  "validate_against_file engine raw record =
     bindR (evidence_validator engine raw) (\<lambda>iter_errors. validate_evidence_schema iter_errors record)"

lemma read_text_error: "read_text raw = Inl e \<Longrightarrow> is_ValueError e"
  by (auto simp: read_text_def result_simps dest: decode_utf8_error)

lemma load_evidence_schema_Inr:
  "load_evidence_schema raw = Inr schema \<longleftrightarrow> (\<exists>s. read_text raw = Inr s \<and> json_loads s = Inr (PDict schema))"
proof -
  have root: "(case v of PDict d \<Rightarrow> Inr d | _ \<Rightarrow> Inl e) = Inr schema \<longleftrightarrow> v = PDict schema" for v and e :: exc
    by (cases v) auto
  show ?thesis unfolding load_evidence_schema_def bindR_Inr_iff root by auto
qed

lemma load_evidence_schema_error: "load_evidence_schema raw = Inl e \<Longrightarrow> is_ValueError e"
proof -
  have root: "(case v of PDict d \<Rightarrow> Inr d | _ \<Rightarrow> Inl (SchemaValidationError m)) = Inl e \<Longrightarrow> is_ValueError e" for v :: pyval and m
    by (cases v) auto
  assume "load_evidence_schema raw = Inl e"
  then show ?thesis unfolding load_evidence_schema_def bindR_Inl_iff
    using read_text_error json_loads_error root by blast
qed

text \<open>A record passes exactly if the file is a JSON object and the engine made from it has no objection;
  every failure is a \<open>ValueError\<close>.\<close>

lemma validate_against_file_Inr:
  "validate_against_file engine raw record = Inr () \<longleftrightarrow>
     (\<exists>s schema. read_text raw = Inr s \<and> json_loads s = Inr (PDict schema) \<and> engine schema record = [])"
  by (auto simp: validate_against_file_def evidence_validator_def result_simps load_evidence_schema_Inr)

lemma validate_against_file_error: "validate_against_file engine raw record = Inl e \<Longrightarrow> is_ValueError e"
  by (auto simp: validate_against_file_def evidence_validator_def result_simps
      dest: load_evidence_schema_error validate_evidence_schema_error)

end
