(* ===== verification/Spec2Isabelle.thy ===== *)
theory Spec2Isabelle
  imports Verifier Receipt_Laws Registry_Laws Signing_Laws Azure_Laws Cli_Laws Workflow_Samples Release_Evidence Pilot Schema_File
begin

text \<open>
  Verification library for the Python package \<open>sentinel_core\<close> (\<open>src/src/sentinel_core\<close>).
\<close>

end
